theory Spec2Isabelle
  imports Complex_Main "HOL-Library.Word"
begin

unbundle bit_operations_syntax

section \<open>Device trace decoding (rt\_profile\_device.cpp)\<close>

text \<open>
  The development embeds \<^verbatim>\<open>RTProfileDevice::logTrace\<close> and the helpers it calls.
  The header \<^verbatim>\<open>rt_profile_device.h\<close> and the driver headers are not part of the
  sources at hand, so the constants, macros and the inline helper \<^verbatim>\<open>getTimestampNsec\<close>
  they declare are parameters of the model (record \<open>config\<close>). The collaborators
  reached through \<^verbatim>\<open>RTSingleton\<close> and the two clock reads are the record \<open>env\<close>.

  C++ \<^verbatim>\<open>double\<close> arithmetic is a parameter as well (record \<open>dbl_ops\<close>): every theorem
  that quantifies over it holds for whatever the operations compute, IEEE-754 rounding
  included. Concrete runs use \<open>exact_ops\<close>, exact arithmetic on finite values with the
  IEEE special values for overflowing quotients.
\<close>

subsection \<open>Double arithmetic\<close>

record 'f dbl_ops =
  of_u64 :: "64 word \<Rightarrow> 'f"
  d1e6 :: "'f"
  fadd :: "'f \<Rightarrow> 'f \<Rightarrow> 'f"
  fsub :: "'f \<Rightarrow> 'f \<Rightarrow> 'f"
  fmul :: "'f \<Rightarrow> 'f \<Rightarrow> 'f"
  fdiv :: "'f \<Rightarrow> 'f \<Rightarrow> 'f"
  fge :: "'f \<Rightarrow> 'f \<Rightarrow> bool"
  feq :: "'f \<Rightarrow> 'f \<Rightarrow> bool"

datatype dbl = Fin real | PInf | NInf | NaN

fun dneg :: "dbl \<Rightarrow> dbl" where
  "dneg (Fin a) = Fin (- a)"
| "dneg PInf = NInf"
| "dneg NInf = PInf"
| "dneg NaN = NaN"

fun dadd :: "dbl \<Rightarrow> dbl \<Rightarrow> dbl" where
  "dadd (Fin a) (Fin b) = Fin (a + b)"
| "dadd NaN _ = NaN"
| "dadd _ NaN = NaN"
| "dadd PInf NInf = NaN"
| "dadd NInf PInf = NaN"
| "dadd PInf _ = PInf"
| "dadd _ PInf = PInf"
| "dadd NInf _ = NInf"
| "dadd _ NInf = NInf"

definition dsub :: "dbl \<Rightarrow> dbl \<Rightarrow> dbl" where
  "dsub a b = dadd a (dneg b)"

definition dsign :: "real \<Rightarrow> dbl" where
  "dsign a = (if a = 0 then NaN else if 0 < a then PInf else NInf)"

fun dmul :: "dbl \<Rightarrow> dbl \<Rightarrow> dbl" where
  "dmul (Fin a) (Fin b) = Fin (a * b)"
| "dmul NaN _ = NaN"
| "dmul _ NaN = NaN"
| "dmul (Fin a) PInf = dsign a"
| "dmul (Fin a) NInf = dsign (- a)"
| "dmul PInf (Fin b) = dsign b"
| "dmul NInf (Fin b) = dsign (- b)"
| "dmul PInf PInf = PInf"
| "dmul NInf NInf = PInf"
| "dmul PInf NInf = NInf"
| "dmul NInf PInf = NInf"

fun ddiv :: "dbl \<Rightarrow> dbl \<Rightarrow> dbl" where
  "ddiv (Fin a) (Fin b) = (if b = 0 then dsign a else Fin (a / b))"
| "ddiv NaN _ = NaN"
| "ddiv _ NaN = NaN"
| "ddiv (Fin a) _ = Fin 0"
| "ddiv PInf (Fin b) = (if 0 \<le> b then PInf else NInf)"
| "ddiv NInf (Fin b) = (if 0 \<le> b then NInf else PInf)"
| "ddiv _ _ = NaN"

fun dge :: "dbl \<Rightarrow> dbl \<Rightarrow> bool" where
  "dge (Fin a) (Fin b) = (b \<le> a)"
| "dge NaN _ = False"
| "dge _ NaN = False"
| "dge PInf _ = True"
| "dge _ NInf = True"
| "dge _ _ = False"

fun deq :: "dbl \<Rightarrow> dbl \<Rightarrow> bool" where
  "deq (Fin a) (Fin b) = (a = b)"
| "deq PInf PInf = True"
| "deq NInf NInf = True"
| "deq _ _ = False"

definition exact_ops :: "dbl dbl_ops" where
  "exact_ops = \<lparr> of_u64 = (\<lambda>w. Fin (real (unat w))), d1e6 = Fin 1000000,
      fadd = dadd, fsub = dsub, fmul = dmul, fdiv = ddiv, fge = dge, feq = deq \<rparr>"

subsection \<open>Data model\<close>

datatype xclPerfMonType = XCL_PERF_MON_MEMORY | XCL_PERF_MON_ACCEL | XCL_PERF_MON_OTHER nat

datatype xclPerfMonEventType =
  XCL_PERF_MON_START_EVENT | XCL_PERF_MON_END_EVENT | XCL_PERF_MON_OTHER_EVENT

datatype e_device_kind = DEVICE_KERNEL | DEVICE_BUFFER

text \<open>One raw sample, \<^verbatim>\<open>xclTraceResults\<close>, with the fields \<^verbatim>\<open>logTrace\<close> reads.\<close>

record xclTraceResults =
  EventType :: xclPerfMonEventType
  Timestamp :: "64 word"
  Overflow :: "8 word"
  TraceID :: "32 word"
  Reserved :: "8 word"
  HostTimestamp :: "64 word"
  EventFlags :: "8 word"

text \<open>
  One output record, \<^verbatim>\<open>DeviceTrace\<close>. The class is declared outside the sources at
  hand; the integer fields are kept at the width of the expressions assigned to them,
  so \<open>BurstLength\<close> holds \<^verbatim>\<open>timestamp - startTime + 1\<close> as the 64-bit value the
  expression has.
\<close>

record 'f DeviceTrace =
  SlotNum :: "32 word"
  Name :: string
  Type :: string
  Kind :: e_device_kind
  StartTime :: "64 word"
  EndTime :: "64 word"
  Start :: "'f"
  End :: "'f"
  BurstLength :: "64 word"
  NumBytes :: "64 word"
  TraceStart :: "'f"

text \<open>
  What the missing headers declare: the bit positions of the emulation event flags, the
  compute-unit category masks, the wrap addends, the array sizes, the two macros that
  classify a memory trace id, the inline helper \<^verbatim>\<open>getTimestampNsec\<close> (from the member
  \<^verbatim>\<open>mStartTimeNsec\<close> and its argument to its result and the member's new value) and the
  default-constructed \<^verbatim>\<open>DeviceTrace\<close>.
\<close>

record 'f config =
  XAPM_WRITE_FIRST :: nat
  XAPM_WRITE_LAST :: nat
  XAPM_READ_FIRST :: nat
  XAPM_READ_LAST :: nat
  XSAM_TRACE_CU_MASK :: "32 word"
  XSAM_TRACE_STALL_INT_MASK :: "32 word"
  XSAM_TRACE_STALL_STR_MASK :: "32 word"
  XSAM_TRACE_STALL_EXT_MASK :: "32 word"
  LOOP_ADD_TIME :: "32 word"
  LOOP_ADD_TIME_SPM :: "64 word"
  XSAM_MAX_NUMBER_SLOTS :: nat
  XSPM_MAX_NUMBER_SLOTS :: nat
  IS_READ :: "32 word \<Rightarrow> bool"
  IS_WRITE :: "32 word \<Rightarrow> bool"
  getTimestampNsec :: "64 word \<Rightarrow> 64 word \<Rightarrow> 64 word \<times> 64 word"
  DeviceTrace_init :: "'f DeviceTrace"

text \<open>
  The collaborators of one call: the flow mode, the slot-name lookup (which writes its
  result through a reference, so it receives the string's previous content), and the
  two clock values read by \<^verbatim>\<open>trainDeviceHostTimestamps\<close>.
\<close>

record env =
  isHwEmu :: bool
  getProfileSlotName :: "xclPerfMonType \<Rightarrow> string \<Rightarrow> nat \<Rightarrow> string \<Rightarrow> string"
  clockNow :: "64 word"
  time_ns :: "64 word"

text \<open>
  The members of \<^verbatim>\<open>RTProfileDevice\<close> that \<^verbatim>\<open>logTrace\<close> touches. Arrays are functions
  of the index; every index the decoder computes is at most 30. The two training
  vectors, which the function only clears, are left out.
\<close>

record 'f RTProfileDevice =
  mStartTimeNsec :: "64 word"
  mNumTraceEvents :: "32 word"
  mMaxTraceEvents :: "32 word"
  mEmuTraceMsecOneCycle :: "'f"
  mTrainSlope :: "xclPerfMonType \<Rightarrow> 'f"
  mTrainOffset :: "xclPerfMonType \<Rightarrow> 'f"
  mTrainProgramStart :: "xclPerfMonType \<Rightarrow> 'f"
  mPrevTimestamp :: "xclPerfMonType \<Rightarrow> 32 word"
  mWriteStarts :: "nat \<Rightarrow> 64 word list"
  mHostWriteStarts :: "nat \<Rightarrow> 64 word list"
  mReadStarts :: "nat \<Rightarrow> 64 word list"
  mHostReadStarts :: "nat \<Rightarrow> 64 word list"
  mAccelMonStartedEvents :: "nat \<Rightarrow> 32 word"
  mAccelMonCuTime :: "nat \<Rightarrow> 64 word"
  mAccelMonCuHostTime :: "nat \<Rightarrow> 64 word"
  mAccelMonStallIntTime :: "nat \<Rightarrow> 64 word"
  mAccelMonStallStrTime :: "nat \<Rightarrow> 64 word"
  mAccelMonStallExtTime :: "nat \<Rightarrow> 64 word"
  mPerfMonLastTranx :: "nat \<Rightarrow> 64 word"
  mAccelMonLastTranx :: "nat \<Rightarrow> 64 word"

text \<open>The locals of \<^verbatim>\<open>logTrace\<close> that are live from one loop iteration to the next.\<close>

record 'f locals =
  prevHostTimestamp :: "32 word"
  y1 :: "'f"
  x1 :: "'f"
  kernelTrace :: "'f DeviceTrace"

text \<open>
  \<^verbatim>\<open>front()\<close> on an empty \<^verbatim>\<open>std::queue\<close> is undefined behaviour. The device-time
  queues are tested with \<^verbatim>\<open>empty()\<close> first; the host-time queues are not.
\<close>

datatype error = FrontOfEmptyQueue

type_synonym 'f acc = "'f locals \<times> 'f RTProfileDevice \<times> 'f DeviceTrace list"

subsection \<open>Helpers\<close>

definition getBit :: "8 word \<Rightarrow> nat \<Rightarrow> 8 word" where
  "getBit w b = drop_bit b w AND 1"

definition pushq :: "(nat \<Rightarrow> 64 word list) \<Rightarrow> nat \<Rightarrow> 64 word \<Rightarrow> (nat \<Rightarrow> 64 word list)" where
  "pushq q s v = q(s := q s @ [v])"

definition popq :: "(nat \<Rightarrow> 64 word list) \<Rightarrow> nat \<Rightarrow> (nat \<Rightarrow> 64 word list)" where
  "popq q s = q(s := tl (q s))"

definition frontq :: "(nat \<Rightarrow> 64 word list) \<Rightarrow> nat \<Rightarrow> error + 64 word" where
  "frontq q s = (case q s of [] \<Rightarrow> Inl FrontOfEmptyQueue | v # _ \<Rightarrow> Inr v)"

definition convertDeviceToHostTimestamp ::
  "'f dbl_ops \<Rightarrow> 'f RTProfileDevice \<Rightarrow> 64 word \<Rightarrow> xclPerfMonType \<Rightarrow> 'f" where
  "convertDeviceToHostTimestamp F st deviceTimestamp ty =
     fadd F (fdiv F (fmul F (mTrainSlope st ty) (of_u64 F deviceTimestamp)) (d1e6 F))
            (fdiv F (fsub F (mTrainOffset st ty) (mTrainProgramStart st ty)) (d1e6 F))"

definition trainDeviceHostTimestamps ::
  "'f dbl_ops \<Rightarrow> env \<Rightarrow> xclPerfMonType \<Rightarrow> 'f RTProfileDevice \<Rightarrow> 'f RTProfileDevice" where
  "trainDeviceHostTimestamps F env ty st =
     st\<lparr>mTrainProgramStart := (mTrainProgramStart st)(ty := of_u64 F (clockNow env - time_ns env))\<rparr>"

subsection \<open>Emulation mode: memory slots\<close>

definition emuWriteEnd ::
  "'f config \<Rightarrow> 'f dbl_ops \<Rightarrow> 32 word \<Rightarrow> 32 word \<Rightarrow> 64 word \<Rightarrow> 'f RTProfileDevice
     \<Rightarrow> 'f DeviceTrace list \<Rightarrow> error + ('f RTProfileDevice \<times> 'f DeviceTrace list)" where
  "emuWriteEnd C F s timestamp hostTimestampNsec st res =
     (case frontq (mWriteStarts st) (unat s) of Inl e \<Rightarrow> Inl e | Inr startTime \<Rightarrow>
      case frontq (mHostWriteStarts st) (unat s) of Inl e \<Rightarrow> Inl e | Inr hostStartTime \<Rightarrow>
        let st' = st\<lparr>mWriteStarts := popq (mWriteStarts st) (unat s),
                     mHostWriteStarts := popq (mHostWriteStarts st) (unat s)\<rparr>;
            w0 = (DeviceTrace_init C)\<lparr>SlotNum := s, Type := ''Write'',
                   StartTime := startTime, EndTime := ucast timestamp,
                   Start := fdiv F (of_u64 F hostStartTime) (d1e6 F),
                   End := fdiv F (of_u64 F hostTimestampNsec) (d1e6 F)\<rparr>;
            w1 = (if feq F (Start w0) (End w0)
                  then w0\<lparr>End := fadd F (End w0) (mEmuTraceMsecOneCycle st)\<rparr> else w0);
            w2 = w1\<lparr>BurstLength := ucast timestamp - startTime + 1\<rparr>
        in if fge F (End w2) (Start w2)
           then Inr (st', res @ [w2\<lparr>TraceStart := fdiv F (of_u64 F hostStartTime) (d1e6 F)\<rparr>])
           else Inr (st', res))"

definition emuReadEnd ::
  "'f config \<Rightarrow> 'f dbl_ops \<Rightarrow> 32 word \<Rightarrow> 32 word \<Rightarrow> 64 word \<Rightarrow> 'f RTProfileDevice
     \<Rightarrow> 'f DeviceTrace list \<Rightarrow> error + ('f RTProfileDevice \<times> 'f DeviceTrace list)" where
  "emuReadEnd C F s timestamp hostTimestampNsec st res =
     (case frontq (mReadStarts st) (unat s) of Inl e \<Rightarrow> Inl e | Inr startTime \<Rightarrow>
      case frontq (mHostReadStarts st) (unat s) of Inl e \<Rightarrow> Inl e | Inr hostStartTime \<Rightarrow>
        let st' = st\<lparr>mReadStarts := popq (mReadStarts st) (unat s),
                     mHostReadStarts := popq (mHostReadStarts st) (unat s)\<rparr>;
            r0 = (DeviceTrace_init C)\<lparr>SlotNum := s, Type := ''Read'',
                   StartTime := startTime, EndTime := ucast timestamp,
                   Start := fdiv F (of_u64 F hostStartTime) (d1e6 F),
                   End := fdiv F (of_u64 F hostTimestampNsec) (d1e6 F)\<rparr>;
            r1 = (if feq F (Start r0) (End r0)
                  then r0\<lparr>End := fadd F (End r0) (mEmuTraceMsecOneCycle st)\<rparr> else r0);
            r2 = r1\<lparr>BurstLength := ucast timestamp - startTime + 1\<rparr>
        in if fge F (End r2) (Start r2)
           then Inr (st', res @ [r2\<lparr>TraceStart := fdiv F (of_u64 F hostStartTime) (d1e6 F)\<rparr>])
           else Inr (st', res))"

definition emuWriteStart ::
  "'f config \<Rightarrow> 8 word \<Rightarrow> 32 word \<Rightarrow> 32 word \<Rightarrow> 64 word \<Rightarrow> 'f RTProfileDevice \<Rightarrow> 'f RTProfileDevice" where
  "emuWriteStart C flags s timestamp hostTimestampNsec st =
     (if getBit flags (XAPM_WRITE_FIRST C) \<noteq> 0
      then st\<lparr>mWriteStarts := pushq (mWriteStarts st) (unat s) (ucast timestamp),
              mHostWriteStarts := pushq (mHostWriteStarts st) (unat s) hostTimestampNsec\<rparr>
      else st)"

definition emuReadStart ::
  "'f config \<Rightarrow> 8 word \<Rightarrow> 32 word \<Rightarrow> 32 word \<Rightarrow> 64 word \<Rightarrow> 'f RTProfileDevice \<Rightarrow> 'f RTProfileDevice" where
  "emuReadStart C flags s timestamp hostTimestampNsec st =
     (if getBit flags (XAPM_READ_FIRST C) \<noteq> 0
      then st\<lparr>mReadStarts := pushq (mReadStarts st) (unat s) (ucast timestamp),
              mHostReadStarts := pushq (mHostReadStarts st) (unat s) hostTimestampNsec\<rparr>
      else st)"

text \<open>
  Lines 210-290. The two \<^verbatim>\<open>continue\<close> statements leave the record at once: the one
  in the write-end branch also skips the read half of the same record.
\<close>

definition emuMemory ::
  "'f config \<Rightarrow> 'f dbl_ops \<Rightarrow> xclTraceResults \<Rightarrow> 32 word \<Rightarrow> 64 word \<Rightarrow> 'f RTProfileDevice
     \<Rightarrow> 'f DeviceTrace list \<Rightarrow> error + ('f RTProfileDevice \<times> 'f DeviceTrace list)" where
  "emuMemory C F trace timestamp hostTimestampNsec st res =
     (let s = TraceID trace div 2;
          flags = EventFlags trace;
          st1 = emuWriteStart C flags s timestamp hostTimestampNsec st
      in if getBit flags (XAPM_WRITE_LAST C) \<noteq> 0 \<and> mWriteStarts st1 (unat s) = []
         then Inr (st1, res)
         else
           case (if getBit flags (XAPM_WRITE_LAST C) \<noteq> 0
                 then emuWriteEnd C F s timestamp hostTimestampNsec st1 res
                 else Inr (st1, res)) of
             Inl e \<Rightarrow> Inl e
           | Inr (st2, res2) \<Rightarrow>
               (let st3 = emuReadStart C flags s timestamp hostTimestampNsec st2
                in if getBit flags (XAPM_READ_LAST C) \<noteq> 0
                   then (if mReadStarts st3 (unat s) = [] then Inr (st3, res2)
                         else emuReadEnd C F s timestamp hostTimestampNsec st3 res2)
                   else Inr (st3, res2)))"

subsection \<open>Emulation mode: compute units\<close>

text \<open>Lines 291-318. The completed Kernel interval is added with \<^verbatim>\<open>push_back\<close>.\<close>

definition emuAccel ::
  "'f config \<Rightarrow> 'f dbl_ops \<Rightarrow> xclTraceResults \<Rightarrow> 32 word \<Rightarrow> 64 word
     \<Rightarrow> 'f DeviceTrace \<times> 'f RTProfileDevice \<times> 'f DeviceTrace list
     \<Rightarrow> 'f DeviceTrace \<times> 'f RTProfileDevice \<times> 'f DeviceTrace list" where
  "emuAccel C F trace timestamp hostTimestampNsec a =
     (case a of (kt, st, res) \<Rightarrow>
      let cuEvent = ucast (EventFlags trace) AND XSAM_TRACE_CU_MASK C;
          s = TraceID trace - 64;
          kt0 = kt\<lparr>SlotNum := s, Name := ''OCL Region'', Kind := DEVICE_KERNEL,
                   EndTime := ucast timestamp,
                   End := fdiv F (of_u64 F hostTimestampNsec) (d1e6 F),
                   BurstLength := 0, NumBytes := 0\<rparr>
      in if cuEvent \<noteq> 0 then
           (if mAccelMonStartedEvents st (unat s) AND XSAM_TRACE_CU_MASK C \<noteq> 0 then
              let kt1 = kt0\<lparr>Type := ''Kernel'', StartTime := mAccelMonCuTime st (unat s),
                          Start := fdiv F (of_u64 F (mAccelMonCuHostTime st (unat s))) (d1e6 F)\<rparr>;
                  st1 = st\<lparr>mEmuTraceMsecOneCycle :=
                          fdiv F (fsub F (End kt1) (Start kt1))
                                 (of_u64 F (2 * (EndTime kt1 - StartTime kt1)))\<rparr>
              in (kt1,
                  st1\<lparr>mAccelMonStartedEvents := (mAccelMonStartedEvents st1)
                        (unat s := mAccelMonStartedEvents st1 (unat s) XOR XSAM_TRACE_CU_MASK C)\<rparr>,
                  res @ [kt1])
            else
              let st1 = st\<lparr>mAccelMonCuHostTime := (mAccelMonCuHostTime st)(unat s := hostTimestampNsec),
                           mAccelMonCuTime := (mAccelMonCuTime st)(unat s := ucast timestamp)\<rparr>
              in (kt0,
                  st1\<lparr>mAccelMonStartedEvents := (mAccelMonStartedEvents st1)
                        (unat s := mAccelMonStartedEvents st1 (unat s) XOR XSAM_TRACE_CU_MASK C)\<rparr>,
                  res))
         else (kt0, st, res))"

subsection \<open>Hardware mode: compute units\<close>

text \<open>
  Lines 336-387 repeat one block for the four categories. \<open>hwCategory\<close> is that block:
  \<open>ev\<close> is the masked trace id, \<open>front\<close> says whether the completed interval is inserted
  at \<^verbatim>\<open>resultVector.begin()\<close> (Kernel) or added with \<^verbatim>\<open>push_back\<close> (the stalls).
\<close>

definition hwCategory ::
  "'f dbl_ops \<Rightarrow> xclPerfMonType \<Rightarrow> 32 word \<Rightarrow> 32 word \<Rightarrow> string \<Rightarrow> bool
     \<Rightarrow> ('f RTProfileDevice \<Rightarrow> 64 word)
     \<Rightarrow> (64 word \<Rightarrow> 'f RTProfileDevice \<Rightarrow> 'f RTProfileDevice)
     \<Rightarrow> 32 word \<Rightarrow> 32 word
     \<Rightarrow> 'f DeviceTrace \<times> 'f RTProfileDevice \<times> 'f DeviceTrace list
     \<Rightarrow> 'f DeviceTrace \<times> 'f RTProfileDevice \<times> 'f DeviceTrace list" where
  "hwCategory F ty ev msk name front getTime setTime s timestamp a =
     (case a of (kt, st, res) \<Rightarrow>
      if ev \<noteq> 0 then
        (if mAccelMonStartedEvents st (unat s) AND msk \<noteq> 0 then
           let startTime = getTime st;
               kt1 = kt\<lparr>Type := name, StartTime := startTime,
                        Start := convertDeviceToHostTimestamp F st startTime ty\<rparr>;
               kt2 = kt1\<lparr>TraceStart := Start kt1\<rparr>
           in (kt2, st, if front then kt2 # res else res @ [kt2])
         else (kt, setTime (ucast timestamp) st, res))
      else (kt, st, res))"

definition hwAccel ::
  "'f config \<Rightarrow> 'f dbl_ops \<Rightarrow> xclPerfMonType \<Rightarrow> xclTraceResults \<Rightarrow> 32 word \<Rightarrow> 32 word
     \<Rightarrow> 'f DeviceTrace \<times> 'f RTProfileDevice \<times> 'f DeviceTrace list
     \<Rightarrow> 'f DeviceTrace \<times> 'f RTProfileDevice \<times> 'f DeviceTrace list" where
  "hwAccel C F ty trace s timestamp a =
     (case a of (kt, st, res) \<Rightarrow>
      let cuEvent = TraceID trace AND XSAM_TRACE_CU_MASK C;
          stallIntEvent = TraceID trace AND XSAM_TRACE_STALL_INT_MASK C;
          stallStrEvent = TraceID trace AND XSAM_TRACE_STALL_STR_MASK C;
          stallExtEvent = TraceID trace AND XSAM_TRACE_STALL_EXT_MASK C;
          kt0 = kt\<lparr>SlotNum := s, Name := ''OCL Region'', Kind := DEVICE_KERNEL,
                   EndTime := ucast timestamp, BurstLength := 0, NumBytes := 0,
                   End := convertDeviceToHostTimestamp F st (ucast timestamp) ty\<rparr>;
          a1 = hwCategory F ty cuEvent (XSAM_TRACE_CU_MASK C) ''Kernel'' True
                 (\<lambda>st. mAccelMonCuTime st (unat s))
                 (\<lambda>v st. st\<lparr>mAccelMonCuTime := (mAccelMonCuTime st)(unat s := v)\<rparr>)
                 s timestamp (kt0, st, res);
          a2 = hwCategory F ty stallIntEvent (XSAM_TRACE_STALL_INT_MASK C)
                 ''Intra-Kernel Dataflow Stall'' False
                 (\<lambda>st. mAccelMonStallIntTime st (unat s))
                 (\<lambda>v st. st\<lparr>mAccelMonStallIntTime := (mAccelMonStallIntTime st)(unat s := v)\<rparr>)
                 s timestamp a1;
          a3 = hwCategory F ty stallStrEvent (XSAM_TRACE_STALL_STR_MASK C)
                 ''Inter-Kernel Pipe Stall'' False
                 (\<lambda>st. mAccelMonStallStrTime st (unat s))
                 (\<lambda>v st. st\<lparr>mAccelMonStallStrTime := (mAccelMonStallStrTime st)(unat s := v)\<rparr>)
                 s timestamp a2;
          a4 = hwCategory F ty stallExtEvent (XSAM_TRACE_STALL_EXT_MASK C)
                 ''External Memory Stall'' False
                 (\<lambda>st. mAccelMonStallExtTime st (unat s))
                 (\<lambda>v st. st\<lparr>mAccelMonStallExtTime := (mAccelMonStallExtTime st)(unat s := v)\<rparr>)
                 s timestamp a3
      in case a4 of (kt4, st4, res4) \<Rightarrow>
           (kt4,
            st4\<lparr>mAccelMonStartedEvents := (mAccelMonStartedEvents st4)
                   (unat s := mAccelMonStartedEvents st4 (unat s) XOR (TraceID trace AND 0xf)),
                mAccelMonLastTranx := (mAccelMonLastTranx st4)(unat s := ucast timestamp)\<rparr>,
            res4))"

subsection \<open>Hardware mode: memory slots\<close>

text \<open>
  Lines 397-418 and 426-447: the end event of a read or of a write. \<open>getq\<close> and \<open>setq\<close>
  select \<^verbatim>\<open>mReadStarts\<close> or \<^verbatim>\<open>mWriteStarts\<close>. The record is added with no test on
  its host times.
\<close>

definition hwEnd ::
  "'f config \<Rightarrow> 'f dbl_ops \<Rightarrow> xclPerfMonType \<Rightarrow> xclTraceResults \<Rightarrow> string
     \<Rightarrow> ('f RTProfileDevice \<Rightarrow> nat \<Rightarrow> 64 word list)
     \<Rightarrow> ((nat \<Rightarrow> 64 word list) \<Rightarrow> 'f RTProfileDevice \<Rightarrow> 'f RTProfileDevice)
     \<Rightarrow> 32 word \<Rightarrow> 32 word \<Rightarrow> 'f RTProfileDevice \<times> 'f DeviceTrace list
     \<Rightarrow> 'f RTProfileDevice \<times> 'f DeviceTrace list" where
  "hwEnd C F ty trace name getq setq slotID timestamp a =
     (case a of (st, res) \<Rightarrow>
      let (startTime, st1) =
            (if Reserved trace = 1 then (ucast timestamp, st)
             else (case getq st (unat slotID) of
                     [] \<Rightarrow> (ucast timestamp, st)
                   | v # vs \<Rightarrow> (v, setq ((getq st)(unat slotID := vs)) st)));
          t0 = (DeviceTrace_init C)\<lparr>SlotNum := slotID, Type := name,
                 StartTime := startTime, EndTime := ucast timestamp,
                 BurstLength := ucast timestamp - startTime + 1\<rparr>;
          t1 = t0\<lparr>Start := convertDeviceToHostTimestamp F st1 startTime ty,
                  End := convertDeviceToHostTimestamp F st1 (ucast timestamp) ty\<rparr>
      in (st1\<lparr>mPerfMonLastTranx := (mPerfMonLastTranx st1)(unat slotID := ucast timestamp)\<rparr>,
          res @ [t1]))"

definition hwMemory ::
  "'f config \<Rightarrow> 'f dbl_ops \<Rightarrow> xclPerfMonType \<Rightarrow> xclTraceResults \<Rightarrow> 32 word \<Rightarrow> 32 word
     \<Rightarrow> 'f RTProfileDevice \<times> 'f DeviceTrace list \<Rightarrow> 'f RTProfileDevice \<times> 'f DeviceTrace list" where
  "hwMemory C F ty trace slotID timestamp a =
     (case a of (st, res) \<Rightarrow>
      if IS_READ C (TraceID trace) then
        (if EventType trace = XCL_PERF_MON_START_EVENT
         then (st\<lparr>mReadStarts := pushq (mReadStarts st) (unat slotID) (ucast timestamp)\<rparr>, res)
         else if EventType trace = XCL_PERF_MON_END_EVENT
         then hwEnd C F ty trace ''Read'' mReadStarts (\<lambda>q st. st\<lparr>mReadStarts := q\<rparr>)
                slotID timestamp (st, res)
         else (st, res))
      else if IS_WRITE C (TraceID trace) then
        (if EventType trace = XCL_PERF_MON_START_EVENT
         then (st\<lparr>mWriteStarts := pushq (mWriteStarts st) (unat slotID) (ucast timestamp)\<rparr>, res)
         else if EventType trace = XCL_PERF_MON_END_EVENT
         then hwEnd C F ty trace ''Write'' mWriteStarts (\<lambda>q st. st\<lparr>mWriteStarts := q\<rparr>)
                slotID timestamp (st, res)
         else (st, res))
      else (st, res))"

text \<open>Lines 321-450: the hardware decode path of one record that has a slot.\<close>

definition hwDecode ::
  "'f config \<Rightarrow> 'f dbl_ops \<Rightarrow> xclPerfMonType \<Rightarrow> xclTraceResults \<Rightarrow> 32 word \<Rightarrow> 32 word
     \<Rightarrow> 'f acc \<Rightarrow> 'f acc" where
  "hwDecode C F ty trace slotID timestamp a =
     (case a of (loc, st, res) \<Rightarrow>
      if 64 \<le> TraceID trace then
        (case hwAccel C F ty trace slotID timestamp (kernelTrace loc, st, res) of
           (kt, st', res') \<Rightarrow> (loc\<lparr>kernelTrace := kt\<rparr>, st', res'))
      else
        (case hwMemory C F ty trace slotID timestamp (st, res) of
           (st', res') \<Rightarrow> (loc, st', res')))"

subsection \<open>The clock part of one iteration\<close>

definition emuTimestamp :: "'f config \<Rightarrow> 32 word \<Rightarrow> xclTraceResults \<Rightarrow> 32 word" where
  "emuTimestamp C prev trace =
     (let timestamp = ucast (Timestamp trace + ucast prev)
      in if Overflow trace = 1 then timestamp + LOOP_ADD_TIME C else timestamp)"

definition hwTimestamp :: "'f config \<Rightarrow> xclTraceResults \<Rightarrow> 32 word" where
  "hwTimestamp C trace =
     ucast (if Overflow trace = 1 then Timestamp trace + LOOP_ADD_TIME_SPM C else Timestamp trace)"

text \<open>
  Lines 187-193: the second record of a hardware batch trains the clock model; \<open>y1v\<close>
  and \<open>x1v\<close> are the values the first record left in the locals \<open>y1\<close> and \<open>x1\<close>.
\<close>

definition trainClock ::
  "'f dbl_ops \<Rightarrow> env \<Rightarrow> xclPerfMonType \<Rightarrow> xclTraceResults \<Rightarrow> 'f \<Rightarrow> 'f
     \<Rightarrow> 'f RTProfileDevice \<Rightarrow> 'f RTProfileDevice" where
  "trainClock F env ty trace y1v x1v st =
     (let y2 = fadd F (of_u64 F (HostTimestamp trace)) (of_u64 F 1000);
          x2 = of_u64 F (Timestamp trace);
          st1 = st\<lparr>mTrainSlope := (mTrainSlope st)
                     (ty := fdiv F (fsub F y2 y1v) (fsub F x2 x1v))\<rparr>;
          st2 = st1\<lparr>mTrainOffset := (mTrainOffset st1)
                     (ty := fsub F y2 (fmul F (mTrainSlope st1 ty) x2))\<rparr>
      in trainDeviceHostTimestamps F env ty st2)"

text \<open>Line 168: the test for a repeated host timestamp during emulation clock-sync.\<close>

definition duplicateHostTimestamp :: "'f locals \<Rightarrow> xclTraceResults \<Rightarrow> bool" where
  "duplicateHostTimestamp loc trace =
     (HostTimestamp trace = ucast (prevHostTimestamp loc) \<and> Timestamp trace = 1)"

text \<open>
  Lines 155-451, the body of the loop for the record at index \<open>i\<close>.
\<close>

definition parseSample ::
  "'f config \<Rightarrow> 'f dbl_ops \<Rightarrow> env \<Rightarrow> xclPerfMonType \<Rightarrow> nat \<Rightarrow> xclTraceResults
     \<Rightarrow> 'f acc \<Rightarrow> error + 'f acc" where
  "parseSample C F env ty i trace a =
     (case a of (loc, st, res) \<Rightarrow>
      if isHwEmu env then
        (let timestamp = emuTimestamp C (mPrevTimestamp st ty) trace;
             st1 = st\<lparr>mPrevTimestamp := (mPrevTimestamp st)(ty := timestamp)\<rparr>
         in if duplicateHostTimestamp loc trace
            then Inr (loc, st1, res)
            else
              (case getTimestampNsec C (mStartTimeNsec st1) (HostTimestamp trace) of
                 (hostTimestampNsec, start') \<Rightarrow>
                 let st2 = st1\<lparr>mStartTimeNsec := start'\<rparr>;
                     loc1 = loc\<lparr>prevHostTimestamp := ucast (HostTimestamp trace)\<rparr>
                 in if TraceID trace < 61 then
                      (case emuMemory C F trace timestamp hostTimestampNsec st2 res of
                         Inl e \<Rightarrow> Inl e
                       | Inr (st3, res3) \<Rightarrow> Inr (loc1, st3, res3))
                    else if 64 \<le> TraceID trace \<and> TraceID trace \<le> 94 then
                      (case emuAccel C F trace timestamp hostTimestampNsec
                              (kernelTrace loc1, st2, res) of
                         (kt, st3, res3) \<Rightarrow> Inr (loc1\<lparr>kernelTrace := kt\<rparr>, st3, res3))
                    else Inr (loc1, st2, res)))
      else
        if i = 0 then
          Inr (loc\<lparr>y1 := fadd F (of_u64 F (HostTimestamp trace)) (of_u64 F 1000),
                  x1 := of_u64 F (Timestamp trace)\<rparr>, st, res)
        else
          (let st1 = (if i = 1 then trainClock F env ty trace (y1 loc) (x1 loc) st else st);
               timestamp = hwTimestamp C trace
           in if 64 \<le> TraceID trace \<and> TraceID trace \<le> 544
              then Inr (hwDecode C F ty trace ((TraceID trace - 64) div 16) timestamp (loc, st1, res))
              else if 2 \<le> TraceID trace \<and> TraceID trace \<le> 61
              then Inr (hwDecode C F ty trace (TraceID trace div 2) timestamp (loc, st1, res))
              else Inr (loc, st1, res)))"

fun parseAll ::
  "'f config \<Rightarrow> 'f dbl_ops \<Rightarrow> env \<Rightarrow> xclPerfMonType \<Rightarrow> nat \<Rightarrow> xclTraceResults list
     \<Rightarrow> 'f acc \<Rightarrow> error + 'f acc" where
  "parseAll C F env ty i [] a = Inr a"
| "parseAll C F env ty i (trace # rest) a =
     (case parseSample C F env ty i trace a of
        Inl e \<Rightarrow> Inl e
      | Inr a' \<Rightarrow> parseAll C F env ty (Suc i) rest a')"

subsection \<open>The post-pass for incomplete compute units\<close>

text \<open>Lines 469-474, one memory slot \<open>j\<close>.\<close>

definition approxPort ::
  "env \<Rightarrow> string \<Rightarrow> 'f RTProfileDevice \<Rightarrow> string \<Rightarrow> nat \<Rightarrow> string \<times> 64 word \<Rightarrow> string \<times> 64 word" where
  "approxPort env deviceName st cuNameSAM j p =
     (case p of (cuPortName, lastTimeStamp) \<Rightarrow>
      let cuPortName' = getProfileSlotName env XCL_PERF_MON_MEMORY deviceName j cuPortName;
          cuNameSPM = takeWhile (\<lambda>c. c \<noteq> CHR ''/'') cuPortName'
      in (cuPortName',
          if cuNameSAM = cuNameSPM \<and> lastTimeStamp < mPerfMonLastTranx st j
          then mPerfMonLastTranx st j else lastTimeStamp))"

text \<open>Lines 458-485, one compute-unit slot \<open>i\<close>.\<close>

definition approxCu ::
  "'f config \<Rightarrow> 'f dbl_ops \<Rightarrow> env \<Rightarrow> string \<Rightarrow> xclPerfMonType \<Rightarrow> 'f RTProfileDevice \<Rightarrow> nat
     \<Rightarrow> string \<times> string \<times> 'f DeviceTrace \<times> 'f DeviceTrace list
     \<Rightarrow> string \<times> string \<times> 'f DeviceTrace \<times> 'f DeviceTrace list" where
  "approxCu C F env deviceName ty st i p =
     (case p of (cuPortName, cuNameSAM, kt, res) \<Rightarrow>
      if mAccelMonStartedEvents st i AND XSAM_TRACE_CU_MASK C \<noteq> 0 then
        (let kt1 = kt\<lparr>SlotNum := of_nat i, Name := ''OCL Region'', Type := ''Kernel'',
                      Kind := DEVICE_KERNEL, StartTime := mAccelMonCuTime st i\<rparr>;
             kt2 = kt1\<lparr>Start := convertDeviceToHostTimestamp F st (StartTime kt1) ty,
                       BurstLength := 0, NumBytes := 0\<rparr>;
             cuNameSAM' = getProfileSlotName env XCL_PERF_MON_ACCEL deviceName i cuNameSAM
         in case fold (approxPort env deviceName st cuNameSAM')
                   [0..<XSPM_MAX_NUMBER_SLOTS C] (cuPortName, 0) of
              (cuPortName', last0) \<Rightarrow>
              let lastTimeStamp =
                    (if last0 < mAccelMonLastTranx st i then mAccelMonLastTranx st i else last0)
              in if lastTimeStamp \<noteq> 0 then
                   (let kt3 = kt2\<lparr>EndTime := lastTimeStamp\<rparr>;
                        kt4 = kt3\<lparr>End := convertDeviceToHostTimestamp F st (EndTime kt3) ty\<rparr>
                    in (cuPortName', cuNameSAM', kt4, kt4 # res))
                 else (cuPortName', cuNameSAM', kt2, res))
      else (cuPortName, cuNameSAM, kt, res))"

text \<open>Lines 454-487: the loop over the compute-unit slots; it returns the result vector.\<close>

definition approximateCuEnds ::
  "'f config \<Rightarrow> 'f dbl_ops \<Rightarrow> env \<Rightarrow> string \<Rightarrow> xclPerfMonType \<Rightarrow> 'f RTProfileDevice
     \<Rightarrow> 'f DeviceTrace \<Rightarrow> 'f DeviceTrace list \<Rightarrow> 'f DeviceTrace list" where
  "approximateCuEnds C F env deviceName ty st kt res =
     (case fold (approxCu C F env deviceName ty st) [0..<XSAM_MAX_NUMBER_SLOTS C]
             ([], [], kt, res) of
        (cuPortName, cuNameSAM, kt', res') \<Rightarrow> res')"

subsection \<open>logTrace\<close>

fun minHostTimestamp :: "64 word \<Rightarrow> xclTraceResults list \<Rightarrow> 64 word" where
  "minHostTimestamp m [] = m"
| "minHostTimestamp m (t # ts) =
     minHostTimestamp (if HostTimestamp t < m then HostTimestamp t else m) ts"

definition initLocals :: "'f config \<Rightarrow> 'f dbl_ops \<Rightarrow> 'f locals" where
  "initLocals C F = \<lparr> prevHostTimestamp = 0xFFFFFFFF, y1 = of_u64 F 0, x1 = of_u64 F 0,
      kernelTrace = DeviceTrace_init C \<rparr>"

text \<open>
  \<open>y1\<close> and \<open>x1\<close> are uninitialised in the source; they are written at index 0 and read
  only at index 1, so the value given here is never read.
\<close>

definition clearStarted :: "'f config \<Rightarrow> 'f RTProfileDevice \<Rightarrow> 'f RTProfileDevice" where
  "clearStarted C st =
     st\<lparr>mAccelMonStartedEvents :=
          (\<lambda>i. if i < XSAM_MAX_NUMBER_SLOTS C then 0 else mAccelMonStartedEvents st i)\<rparr>"

definition logTrace ::
  "'f config \<Rightarrow> 'f dbl_ops \<Rightarrow> env \<Rightarrow> string \<Rightarrow> xclPerfMonType \<Rightarrow> xclTraceResults list
     \<Rightarrow> 'f RTProfileDevice \<Rightarrow> 'f DeviceTrace list
     \<Rightarrow> error + ('f RTProfileDevice \<times> 'f DeviceTrace list)" where
  "logTrace C F env deviceName ty traceVector st resultVector =
     (case traceVector of
        [] \<Rightarrow> Inr (st, resultVector)
      | t0 # _ \<Rightarrow>
        if mMaxTraceEvents st \<le> mNumTraceEvents st then Inr (st, resultVector)
        else
          let st1 = st\<lparr>mNumTraceEvents := mNumTraceEvents st + of_nat (length traceVector)\<rparr>;
              st2 = (if isHwEmu env
                     then st1\<lparr>mStartTimeNsec :=
                            snd (getTimestampNsec C (mStartTimeNsec st1)
                                  (minHostTimestamp (HostTimestamp t0) traceVector))\<rparr>
                     else st1)
          in case parseAll C F env ty 0 traceVector (initLocals C F, st2, resultVector) of
               Inl e \<Rightarrow> Inl e
             | Inr (loc, st3, res3) \<Rightarrow>
                 Inr (clearStarted C st3,
                      if \<not> isHwEmu env
                      then approximateCuEnds C F env deviceName ty st3 (kernelTrace loc) res3
                      else res3))"


text \<open>A sequence of calls on one engine instance, the result vector handed on.\<close>

fun logTraces ::
  "'f config \<Rightarrow> 'f dbl_ops \<Rightarrow> (env \<times> string \<times> xclPerfMonType \<times> xclTraceResults list) list
     \<Rightarrow> 'f RTProfileDevice \<Rightarrow> 'f DeviceTrace list
     \<Rightarrow> error + ('f RTProfileDevice \<times> 'f DeviceTrace list)" where
  "logTraces C F [] st res = Inr (st, res)"
| "logTraces C F (c # cs) st res =
     (case c of (env, deviceName, ty, traceVector) \<Rightarrow>
      case logTrace C F env deviceName ty traceVector st res of
        Inl e \<Rightarrow> Inl e
      | Inr (st', res') \<Rightarrow> logTraces C F cs st' res')"

subsection \<open>A concrete platform\<close>

text \<open>
  Values for the parameters, used to run the decoder on concrete batches: the flag bit
  positions and masks of the driver headers, even trace ids for reads and odd ones for
  writes, a \<^verbatim>\<open>getTimestampNsec\<close> that returns host time relative to the first time it
  saw, and the state the constructor sets up (lines 60-92).
\<close>

definition DeviceTrace_zero :: "dbl DeviceTrace" where
  "DeviceTrace_zero = \<lparr> SlotNum = 0, Name = [], Type = [], Kind = DEVICE_KERNEL,
      StartTime = 0, EndTime = 0, Start = Fin 0, End = Fin 0, BurstLength = 0, NumBytes = 0,
      TraceStart = Fin 0 \<rparr>"

definition relativeTimestampNsec :: "64 word \<Rightarrow> 64 word \<Rightarrow> 64 word \<times> 64 word" where
  "relativeTimestampNsec start timeNsec =
     (let start' = (if start = 0 then timeNsec else start) in (timeNsec - start', start'))"

definition example_config :: "dbl config" where
  "example_config = \<lparr> XAPM_WRITE_FIRST = 1, XAPM_WRITE_LAST = 2, XAPM_READ_FIRST = 5,
      XAPM_READ_LAST = 6, XSAM_TRACE_CU_MASK = 1, XSAM_TRACE_STALL_INT_MASK = 2,
      XSAM_TRACE_STALL_STR_MASK = 4, XSAM_TRACE_STALL_EXT_MASK = 8,
      LOOP_ADD_TIME = 0x10000, LOOP_ADD_TIME_SPM = 0x100000000000,
      XSAM_MAX_NUMBER_SLOTS = 31, XSPM_MAX_NUMBER_SLOTS = 31,
      IS_READ = (\<lambda>traceID. traceID AND 1 = 0), IS_WRITE = (\<lambda>traceID. traceID AND 1 \<noteq> 0),
      getTimestampNsec = relativeTimestampNsec, DeviceTrace_init = DeviceTrace_zero \<rparr>"

definition hw_env :: env where
  "hw_env = \<lparr> isHwEmu = False, getProfileSlotName = (\<lambda>k d i old. old),
      clockNow = 500, time_ns = 100 \<rparr>"

definition emu_env :: env where
  "emu_env = \<lparr> isHwEmu = True, getProfileSlotName = (\<lambda>k d i old. old),
      clockNow = 900, time_ns = 0 \<rparr>"

definition constructed :: "dbl RTProfileDevice" where
  "constructed = \<lparr> mStartTimeNsec = 0, mNumTraceEvents = 0, mMaxTraceEvents = 0x40000,
      mEmuTraceMsecOneCycle = Fin 0,
      mTrainSlope = (\<lambda>_. Fin (1000 / 300)), mTrainOffset = (\<lambda>_. Fin 0),
      mTrainProgramStart = (\<lambda>_. Fin 0), mPrevTimestamp = (\<lambda>_. 0),
      mWriteStarts = (\<lambda>_. []), mHostWriteStarts = (\<lambda>_. []),
      mReadStarts = (\<lambda>_. []), mHostReadStarts = (\<lambda>_. []),
      mAccelMonStartedEvents = (\<lambda>_. 0), mAccelMonCuTime = (\<lambda>_. 0),
      mAccelMonCuHostTime = (\<lambda>_. 0), mAccelMonStallIntTime = (\<lambda>_. 0),
      mAccelMonStallStrTime = (\<lambda>_. 0), mAccelMonStallExtTime = (\<lambda>_. 0),
      mPerfMonLastTranx = (\<lambda>_. 0), mAccelMonLastTranx = (\<lambda>_. 0) \<rparr>"

text \<open>A hardware-mode sample and an emulation-mode sample.\<close>

definition hwSample :: "xclPerfMonEventType \<Rightarrow> 32 word \<Rightarrow> 64 word \<Rightarrow> 8 word \<Rightarrow> xclTraceResults" where
  "hwSample evt traceID t rsv = \<lparr> EventType = evt, Timestamp = t, Overflow = 0,
      TraceID = traceID, Reserved = rsv, HostTimestamp = 0, EventFlags = 0 \<rparr>"

definition trainSample :: "64 word \<Rightarrow> 64 word \<Rightarrow> xclTraceResults" where
  "trainSample t host = \<lparr> EventType = XCL_PERF_MON_OTHER_EVENT, Timestamp = t, Overflow = 0,
      TraceID = 0, Reserved = 0, HostTimestamp = host, EventFlags = 0 \<rparr>"

definition emuSample :: "32 word \<Rightarrow> 8 word \<Rightarrow> 64 word \<Rightarrow> 64 word \<Rightarrow> xclTraceResults" where
  "emuSample traceID flags t host = \<lparr> EventType = XCL_PERF_MON_OTHER_EVENT, Timestamp = t,
      Overflow = 0, TraceID = traceID, Reserved = 0, HostTimestamp = host, EventFlags = flags \<rparr>"

subsection \<open>Relations between the state and result vector before and after a step\<close>

text \<open>
  \<open>sameClock\<close> and \<open>sameCounters\<close> say that a step left the clock model, or the two
  event counters, alone. \<open>hostOf\<close> says that the host times of a record are the
  conversions of its device times. \<open>hwEmits\<close> describes what a hardware-mode step adds
  to the result vector, \<open>emuEmits\<close> what an emulation-mode step adds. \<open>hwTrained\<close> is
  the state after the clock training of a hardware batch, \<open>counted\<close> the state after
  the batch has been added to the event counter.
\<close>

definition sameClock :: "'f RTProfileDevice \<Rightarrow> 'f RTProfileDevice \<Rightarrow> bool" where
  "sameClock st st' = (mTrainSlope st' = mTrainSlope st \<and> mTrainOffset st' = mTrainOffset st
      \<and> mTrainProgramStart st' = mTrainProgramStart st)"

definition sameCounters :: "'f RTProfileDevice \<Rightarrow> 'f RTProfileDevice \<Rightarrow> bool" where
  "sameCounters st st' = (mNumTraceEvents st' = mNumTraceEvents st
      \<and> mMaxTraceEvents st' = mMaxTraceEvents st)"

definition hostOf :: "'f dbl_ops \<Rightarrow> 'f RTProfileDevice \<Rightarrow> xclPerfMonType \<Rightarrow> 'f DeviceTrace \<Rightarrow> bool" where
  "hostOf F st ty e = (Start e = convertDeviceToHostTimestamp F st (StartTime e) ty
      \<and> End e = convertDeviceToHostTimestamp F st (EndTime e) ty)"

definition hwEmits ::
  "'f dbl_ops \<Rightarrow> 'f RTProfileDevice \<Rightarrow> xclPerfMonType \<Rightarrow> 'f DeviceTrace list \<Rightarrow> 'f DeviceTrace list \<Rightarrow> bool" where
  "hwEmits F st ty res res' = (\<exists>ks os. res' = ks @ res @ os
      \<and> (\<forall>k\<in>set ks. Type k = ''Kernel'' \<and> hostOf F st ty k)
      \<and> (\<forall>b\<in>set os. Type b \<noteq> ''Kernel'' \<and> hostOf F st ty b))"

definition hwTrained ::
  "'f dbl_ops \<Rightarrow> env \<Rightarrow> xclPerfMonType \<Rightarrow> xclTraceResults list \<Rightarrow> 'f RTProfileDevice \<Rightarrow> 'f RTProfileDevice" where
  "hwTrained F env ty traceVector st =
     (case traceVector of
        r0 # r1 # _ \<Rightarrow>
          trainClock F env ty r1 (fadd F (of_u64 F (HostTimestamp r0)) (of_u64 F 1000))
            (of_u64 F (Timestamp r0)) st
      | _ \<Rightarrow> st)"

definition counted :: "xclTraceResults list \<Rightarrow> 'f RTProfileDevice \<Rightarrow> 'f RTProfileDevice" where
  "counted traceVector st = st\<lparr>mNumTraceEvents := mNumTraceEvents st + of_nat (length traceVector)\<rparr>"

definition emuEmits :: "'f dbl_ops \<Rightarrow> 'f DeviceTrace list \<Rightarrow> 'f DeviceTrace list \<Rightarrow> bool" where
  "emuEmits F res res' = (\<exists>new. res' = res @ new
      \<and> (\<forall>e\<in>set new. Type e = ''Kernel''
            \<or> ((Type e = ''Read'' \<or> Type e = ''Write'') \<and> fge F (End e) (Start e))))"

definition emuOK ::
  "'f dbl_ops \<Rightarrow> 'f RTProfileDevice \<Rightarrow> 'f DeviceTrace list
     \<Rightarrow> error + ('f RTProfileDevice \<times> 'f DeviceTrace list) \<Rightarrow> bool" where
  "emuOK F st res r = (case r of Inl e \<Rightarrow> True
      | Inr (st', res') \<Rightarrow> sameCounters st st' \<and> emuEmits F res res')"

text \<open>
  \<open>emuLoopEntry\<close> is the state in which an emulation-mode call that passed the entry
  check starts its loop over the records: the batch counted, and
  \<^verbatim>\<open>getTimestampNsec\<close> called once on the smallest host timestamp of the batch
  (lines 134-144).
\<close>

definition emuLoopEntry :: "'f config \<Rightarrow> xclTraceResults list \<Rightarrow> 'f RTProfileDevice \<Rightarrow> 'f RTProfileDevice" where
  "emuLoopEntry C traceVector st =
     (counted traceVector st)\<lparr>mStartTimeNsec :=
        snd (getTimestampNsec C (mStartTimeNsec st)
              (minHostTimestamp (HostTimestamp (hd traceVector)) traceVector))\<rparr>"

text \<open>\<open>sameSlots\<close>: a step left every per-slot array and the emulation epsilon alone.\<close>

definition sameSlots :: "'f RTProfileDevice \<Rightarrow> 'f RTProfileDevice \<Rightarrow> bool" where
  "sameSlots st st' = (mWriteStarts st' = mWriteStarts st \<and> mHostWriteStarts st' = mHostWriteStarts st
      \<and> mReadStarts st' = mReadStarts st \<and> mHostReadStarts st' = mHostReadStarts st
      \<and> mAccelMonStartedEvents st' = mAccelMonStartedEvents st
      \<and> mAccelMonCuTime st' = mAccelMonCuTime st \<and> mAccelMonCuHostTime st' = mAccelMonCuHostTime st
      \<and> mAccelMonStallIntTime st' = mAccelMonStallIntTime st
      \<and> mAccelMonStallStrTime st' = mAccelMonStallStrTime st
      \<and> mAccelMonStallExtTime st' = mAccelMonStallExtTime st
      \<and> mPerfMonLastTranx st' = mPerfMonLastTranx st
      \<and> mAccelMonLastTranx st' = mAccelMonLastTranx st
      \<and> mEmuTraceMsecOneCycle st' = mEmuTraceMsecOneCycle st)"


subsection \<open>Pairing of start and end records on a memory slot\<close>

text \<open>
  \<open>hwRead\<close> and \<open>hwWrite\<close> say that a hardware-mode record belongs to the read or write
  side of memory slot \<open>s\<close>; \<open>emuIsReadStart\<close> to \<open>emuIsWriteEnd\<close> say the same of an
  emulation-mode record from its event flags. \<open>summary\<close> reads the integer fields of a
  result record and \<open>paired\<close> is the summary of a transaction from a start time to an end
  time. In emulation mode the device and host time of a record depend on the records
  before it: \<open>emuStamps\<close> threads the three clock variables through a list of records
  and \<open>emuNoSkip\<close> says that none of them repeats the host timestamp of its predecessor
  with a device timestamp of 1. \<open>emuPass\<close> is the test on the two host times that a
  completed emulation-mode pair must pass to be added.
\<close>

definition hwRead :: "'f config \<Rightarrow> 32 word \<Rightarrow> xclTraceResults \<Rightarrow> bool" where
  "hwRead C s r = (2 \<le> TraceID r \<and> TraceID r \<le> 61 \<and> TraceID r div 2 = s \<and> IS_READ C (TraceID r))"

definition hwWrite :: "'f config \<Rightarrow> 32 word \<Rightarrow> xclTraceResults \<Rightarrow> bool" where
  "hwWrite C s r = (2 \<le> TraceID r \<and> TraceID r \<le> 61 \<and> TraceID r div 2 = s
      \<and> \<not> IS_READ C (TraceID r) \<and> IS_WRITE C (TraceID r))"

definition summary :: "'f DeviceTrace \<Rightarrow> string \<times> 32 word \<times> 64 word \<times> 64 word \<times> 64 word" where
  "summary e = (Type e, SlotNum e, StartTime e, EndTime e, BurstLength e)"

definition paired :: "string \<Rightarrow> 32 word \<Rightarrow> 64 word \<Rightarrow> 64 word
     \<Rightarrow> string \<times> 32 word \<times> 64 word \<times> 64 word \<times> 64 word" where
  "paired name s startTime endTime = (name, s, startTime, endTime, endTime - startTime + 1)"

type_synonym emuClock = "32 word \<times> 64 word \<times> 32 word"

definition emuClockOf :: "xclPerfMonType \<Rightarrow> 'f locals \<Rightarrow> 'f RTProfileDevice \<Rightarrow> emuClock" where
  "emuClockOf ty loc st = (mPrevTimestamp st ty, mStartTimeNsec st, prevHostTimestamp loc)"

definition emuClockStep :: "'f config \<Rightarrow> emuClock \<Rightarrow> xclTraceResults \<Rightarrow> emuClock" where
  "emuClockStep C c r = (case c of (prev, start, prevHost) \<Rightarrow>
     (emuTimestamp C prev r, snd (getTimestampNsec C start (HostTimestamp r)), ucast (HostTimestamp r)))"

definition emuStamp :: "'f config \<Rightarrow> emuClock \<Rightarrow> xclTraceResults \<Rightarrow> 32 word \<times> 64 word" where
  "emuStamp C c r = (case c of (prev, start, prevHost) \<Rightarrow>
     (emuTimestamp C prev r, fst (getTimestampNsec C start (HostTimestamp r))))"

fun emuStamps :: "'f config \<Rightarrow> emuClock \<Rightarrow> xclTraceResults list \<Rightarrow> (32 word \<times> 64 word) list" where
  "emuStamps C c [] = []"
| "emuStamps C c (r # rs) = emuStamp C c r # emuStamps C (emuClockStep C c r) rs"

fun emuNoSkip :: "'f config \<Rightarrow> emuClock \<Rightarrow> xclTraceResults list \<Rightarrow> bool" where
  "emuNoSkip C c [] = True"
| "emuNoSkip C c (r # rs) =
     ((HostTimestamp r \<noteq> ucast (snd (snd c)) \<or> Timestamp r \<noteq> 1) \<and> emuNoSkip C (emuClockStep C c r) rs)"

definition emuFlags :: "'f config \<Rightarrow> xclTraceResults \<Rightarrow> bool \<times> bool \<times> bool \<times> bool" where
  "emuFlags C r = (getBit (EventFlags r) (XAPM_WRITE_FIRST C) \<noteq> 0,
      getBit (EventFlags r) (XAPM_WRITE_LAST C) \<noteq> 0,
      getBit (EventFlags r) (XAPM_READ_FIRST C) \<noteq> 0,
      getBit (EventFlags r) (XAPM_READ_LAST C) \<noteq> 0)"

definition emuIsReadStart :: "'f config \<Rightarrow> 32 word \<Rightarrow> xclTraceResults \<Rightarrow> bool" where
  "emuIsReadStart C s r = (TraceID r < 61 \<and> TraceID r div 2 = s \<and> emuFlags C r = (False, False, True, False))"

definition emuIsReadEnd :: "'f config \<Rightarrow> 32 word \<Rightarrow> xclTraceResults \<Rightarrow> bool" where
  "emuIsReadEnd C s r = (TraceID r < 61 \<and> TraceID r div 2 = s \<and> emuFlags C r = (False, False, False, True))"

definition emuIsWriteStart :: "'f config \<Rightarrow> 32 word \<Rightarrow> xclTraceResults \<Rightarrow> bool" where
  "emuIsWriteStart C s r = (TraceID r < 61 \<and> TraceID r div 2 = s \<and> emuFlags C r = (True, False, False, False))"

definition emuIsWriteEnd :: "'f config \<Rightarrow> 32 word \<Rightarrow> xclTraceResults \<Rightarrow> bool" where
  "emuIsWriteEnd C s r = (TraceID r < 61 \<and> TraceID r div 2 = s \<and> emuFlags C r = (False, True, False, False))"

definition emuPass :: "'f dbl_ops \<Rightarrow> 'f \<Rightarrow> 64 word \<Rightarrow> 64 word \<Rightarrow> bool" where
  "emuPass F eps hostStart hostEnd =
     (let S = fdiv F (of_u64 F hostStart) (d1e6 F);
          E0 = fdiv F (of_u64 F hostEnd) (d1e6 F);
          E = (if feq F S E0 then fadd F E0 eps else E0)
      in fge F E S)"

section \<open>Properties\<close>

subsection \<open>Steps of the decoder\<close>

lemma sameClock_refl: "sameClock st st" by (simp add: sameClock_def)

lemma sameClock_trans: "sameClock a b \<Longrightarrow> sameClock b c \<Longrightarrow> sameClock a c" by (simp add: sameClock_def)

lemma sameCounters_refl: "sameCounters st st" by (simp add: sameCounters_def)

lemma sameCounters_trans: "sameCounters a b \<Longrightarrow> sameCounters b c \<Longrightarrow> sameCounters a c" by (simp add: sameCounters_def)

lemma convert_sameClock:
  "sameClock st st' \<Longrightarrow> convertDeviceToHostTimestamp F st' t ty = convertDeviceToHostTimestamp F st t ty"
  by (simp add: sameClock_def convertDeviceToHostTimestamp_def)

lemma hostOf_sameClock: "sameClock st st' \<Longrightarrow> hostOf F st' ty e = hostOf F st ty e"
  by (simp add: hostOf_def convert_sameClock)

lemma hwEmits_sameClock: "sameClock st st' \<Longrightarrow> hwEmits F st' ty res res' = hwEmits F st ty res res'"
  by (simp add: hwEmits_def hostOf_sameClock)

lemma hwEmits_refl: "hwEmits F st ty res res"
  unfolding hwEmits_def by (rule exI [of _ "[]"], rule exI [of _ "[]"]) simp

lemma hwEmits_front: "Type k = ''Kernel'' \<Longrightarrow> hostOf F st ty k \<Longrightarrow> hwEmits F st ty res (k # res)"
  unfolding hwEmits_def by (rule exI [of _ "[k]"], rule exI [of _ "[]"]) simp

lemma hwEmits_back: "Type e \<noteq> ''Kernel'' \<Longrightarrow> hostOf F st ty e \<Longrightarrow> hwEmits F st ty res (res @ [e])"
  unfolding hwEmits_def by (rule exI [of _ "[]"], rule exI [of _ "[e]"]) simp

lemma hwEmits_trans:
  assumes "hwEmits F st ty a b" and "hwEmits F st ty b c"
  shows "hwEmits F st ty a c"
proof -
  from assms(1) obtain ks os where 1: "b = ks @ a @ os"
    "\<forall>k\<in>set ks. Type k = ''Kernel'' \<and> hostOf F st ty k" "\<forall>b\<in>set os. Type b \<noteq> ''Kernel'' \<and> hostOf F st ty b"
    unfolding hwEmits_def by blast
  from assms(2) obtain ks' os' where 2: "c = ks' @ b @ os'"
    "\<forall>k\<in>set ks'. Type k = ''Kernel'' \<and> hostOf F st ty k" "\<forall>b\<in>set os'. Type b \<noteq> ''Kernel'' \<and> hostOf F st ty b"
    unfolding hwEmits_def by blast
  have "c = (ks' @ ks) @ a @ (os @ os')" using 1(1) 2(1) by simp
  moreover have "\<forall>k\<in>set (ks' @ ks). Type k = ''Kernel'' \<and> hostOf F st ty k" using 1(2) 2(2) by auto
  moreover have "\<forall>b\<in>set (os @ os'). Type b \<noteq> ''Kernel'' \<and> hostOf F st ty b" using 1(3) 2(3) by auto
  ultimately show ?thesis unfolding hwEmits_def by blast
qed

lemma hwCategory_step:
  assumes run: "hwCategory F ty ev msk name front getTime setTime s ts (kt, st, res) = (kt', st', res')"
    and frame: "\<And>v. sameClock st (setTime v st) \<and> sameCounters st (setTime v st)"
    and kt: "End kt = convertDeviceToHostTimestamp F st (EndTime kt) ty"
    and nm: "front = (name = ''Kernel'')"
  shows "sameClock st st' \<and> sameCounters st st' \<and> hwEmits F st ty res res'
      \<and> End kt' = convertDeviceToHostTimestamp F st (EndTime kt') ty"
proof (cases "ev \<noteq> 0")
  case False
  with run kt show ?thesis
    by (simp add: hwCategory_def sameClock_refl sameCounters_refl hwEmits_refl)
next
  case ev: True
  show ?thesis
  proof (cases "mAccelMonStartedEvents st (unat s) AND msk \<noteq> 0")
    case False
    with ev have "hwCategory F ty ev msk name front getTime setTime s ts (kt, st, res)
        = (kt, setTime (ucast ts) st, res)"
      by (simp add: hwCategory_def)
    with run have "kt' = kt" "st' = setTime (ucast ts) st" "res' = res"
      by simp_all
    with frame kt show ?thesis by (simp add: hwEmits_refl)
  next
    case True
    define k where "k = kt\<lparr>Type := name, StartTime := getTime st,
        Start := convertDeviceToHostTimestamp F st (getTime st) ty,
        TraceStart := convertDeviceToHostTimestamp F st (getTime st) ty\<rparr>"
    have "hwCategory F ty ev msk name front getTime setTime s ts (kt, st, res)
        = (k, st, if front then k # res else res @ [k])"
      using ev True by (simp add: hwCategory_def Let_def k_def)
    with run have eqs: "kt' = k" "st' = st" "res' = (if front then k # res else res @ [k])"
      by simp_all
    have h: "hostOf F st ty k" using kt by (simp add: hostOf_def k_def)
    have t: "Type k = name" by (simp add: k_def)
    have "hwEmits F st ty res res'"
      using eqs(3) nm h t by (cases front) (simp_all add: hwEmits_front hwEmits_back)
    moreover have "End kt' = convertDeviceToHostTimestamp F st (EndTime kt') ty"
      using kt eqs(1) by (simp add: k_def)
    ultimately show ?thesis using eqs(2) by (simp add: sameClock_refl sameCounters_refl)
  qed
qed

lemma hwEnd_step:
  assumes run: "hwEnd C F ty trace name getq setq slotID ts (st, res) = (st', res')"
    and frame: "\<And>q. sameClock st (setq q st) \<and> sameCounters st (setq q st)"
    and nm: "name \<noteq> ''Kernel''"
  shows "sameClock st st' \<and> sameCounters st st' \<and> hwEmits F st ty res res'"
proof -
  obtain startTime st1 where sel: "(if Reserved trace = 1 then (ucast ts, st)
             else (case getq st (unat slotID) of
                     [] \<Rightarrow> (ucast ts, st)
                   | v # vs \<Rightarrow> (v, setq ((getq st)(unat slotID := vs)) st))) = (startTime, st1)"
    by (metis surj_pair)
  have c1: "sameClock st st1 \<and> sameCounters st st1"
    using sel frame by (auto simp: sameClock_refl sameCounters_refl split: if_splits list.splits)
  define e where "e = (DeviceTrace_init C)\<lparr>SlotNum := slotID, Type := name,
      StartTime := startTime, EndTime := ucast ts, BurstLength := ucast ts - startTime + 1,
      Start := convertDeviceToHostTimestamp F st1 startTime ty,
      End := convertDeviceToHostTimestamp F st1 (ucast ts) ty\<rparr>"
  have "hwEnd C F ty trace name getq setq slotID ts (st, res) =
      (st1\<lparr>mPerfMonLastTranx := (mPerfMonLastTranx st1)(unat slotID := ucast ts)\<rparr>, res @ [e])"
    unfolding hwEnd_def using sel by (simp add: Let_def e_def)
  with run have st': "st' = st1\<lparr>mPerfMonLastTranx := (mPerfMonLastTranx st1)(unat slotID := ucast ts)\<rparr>"
    and res': "res' = res @ [e]" by simp_all
  have "hostOf F st1 ty e" by (simp add: hostOf_def e_def)
  then have "hostOf F st ty e" using c1 hostOf_sameClock [of st st1] by simp
  moreover have "Type e \<noteq> ''Kernel''" using nm by (simp add: e_def)
  ultimately have "hwEmits F st ty res res'" using res' by (simp add: hwEmits_back)
  moreover have "sameClock st st'" using c1 st' by (simp add: sameClock_def)
  moreover have "sameCounters st st'" using c1 st' by (simp add: sameCounters_def)
  ultimately show ?thesis by simp
qed

lemma hwMemory_step:
  assumes run: "hwMemory C F ty trace slotID ts (st, res) = (st', res')"
  shows "sameClock st st' \<and> sameCounters st st' \<and> hwEmits F st ty res res'"
proof -
  let ?goal = "\<lambda>a. sameClock st (fst a) \<and> sameCounters st (fst a) \<and> hwEmits F st ty res (snd a)"
  have same: "?goal (st, res)"
    by (simp add: sameClock_refl sameCounters_refl hwEmits_refl)
  have pushR: "?goal (st\<lparr>mReadStarts := pushq (mReadStarts st) (unat slotID) (ucast ts)\<rparr>, res)"
    by (simp add: sameClock_def sameCounters_def hwEmits_refl)
  have pushW: "?goal (st\<lparr>mWriteStarts := pushq (mWriteStarts st) (unat slotID) (ucast ts)\<rparr>, res)"
    by (simp add: sameClock_def sameCounters_def hwEmits_refl)
  have rd: "?goal (hwEnd C F ty trace ''Read'' mReadStarts (\<lambda>q st. st\<lparr>mReadStarts := q\<rparr>)
                slotID ts (st, res))"
  proof -
    obtain a b where ab: "hwEnd C F ty trace ''Read'' mReadStarts (\<lambda>q st. st\<lparr>mReadStarts := q\<rparr>)
                slotID ts (st, res) = (a, b)" by (rule prod.exhaust)
    have "sameClock st a \<and> sameCounters st a \<and> hwEmits F st ty res b"
      by (rule hwEnd_step [OF ab]) (simp_all add: sameClock_def sameCounters_def)
    then show ?thesis by (simp add: ab)
  qed
  have wr: "?goal (hwEnd C F ty trace ''Write'' mWriteStarts (\<lambda>q st. st\<lparr>mWriteStarts := q\<rparr>)
                slotID ts (st, res))"
  proof -
    obtain a b where ab: "hwEnd C F ty trace ''Write'' mWriteStarts (\<lambda>q st. st\<lparr>mWriteStarts := q\<rparr>)
                slotID ts (st, res) = (a, b)" by (rule prod.exhaust)
    have "sameClock st a \<and> sameCounters st a \<and> hwEmits F st ty res b"
      by (rule hwEnd_step [OF ab]) (simp_all add: sameClock_def sameCounters_def)
    then show ?thesis by (simp add: ab)
  qed
  have "?goal (hwMemory C F ty trace slotID ts (st, res))"
    unfolding hwMemory_def prod.case
    using same pushR pushW rd wr by presburger
  then show ?thesis by (simp add: run)
qed

lemma hwAccel_step:
  assumes run: "hwAccel C F ty trace s ts (kt, st, res) = (kt', st', res')"
  shows "sameClock st st' \<and> sameCounters st st' \<and> hwEmits F st ty res res'"
proof -
  define kt0 where "kt0 = kt\<lparr>SlotNum := s, Name := ''OCL Region'', Kind := DEVICE_KERNEL,
      EndTime := ucast ts, BurstLength := 0, NumBytes := 0,
      End := convertDeviceToHostTimestamp F st (ucast ts) ty\<rparr>"
  obtain k1 s1 r1 where a1: "hwCategory F ty (TraceID trace AND XSAM_TRACE_CU_MASK C)
      (XSAM_TRACE_CU_MASK C) ''Kernel'' True (\<lambda>st. mAccelMonCuTime st (unat s))
      (\<lambda>v st. st\<lparr>mAccelMonCuTime := (mAccelMonCuTime st)(unat s := v)\<rparr>) s ts (kt0, st, res) = (k1, s1, r1)"
    by (rule prod_cases3)
  obtain k2 s2 r2 where a2: "hwCategory F ty (TraceID trace AND XSAM_TRACE_STALL_INT_MASK C)
      (XSAM_TRACE_STALL_INT_MASK C) ''Intra-Kernel Dataflow Stall'' False
      (\<lambda>st. mAccelMonStallIntTime st (unat s))
      (\<lambda>v st. st\<lparr>mAccelMonStallIntTime := (mAccelMonStallIntTime st)(unat s := v)\<rparr>) s ts (k1, s1, r1) = (k2, s2, r2)"
    by (rule prod_cases3)
  obtain k3 s3 r3 where a3: "hwCategory F ty (TraceID trace AND XSAM_TRACE_STALL_STR_MASK C)
      (XSAM_TRACE_STALL_STR_MASK C) ''Inter-Kernel Pipe Stall'' False
      (\<lambda>st. mAccelMonStallStrTime st (unat s))
      (\<lambda>v st. st\<lparr>mAccelMonStallStrTime := (mAccelMonStallStrTime st)(unat s := v)\<rparr>) s ts (k2, s2, r2) = (k3, s3, r3)"
    by (rule prod_cases3)
  obtain k4 s4 r4 where a4: "hwCategory F ty (TraceID trace AND XSAM_TRACE_STALL_EXT_MASK C)
      (XSAM_TRACE_STALL_EXT_MASK C) ''External Memory Stall'' False
      (\<lambda>st. mAccelMonStallExtTime st (unat s))
      (\<lambda>v st. st\<lparr>mAccelMonStallExtTime := (mAccelMonStallExtTime st)(unat s := v)\<rparr>) s ts (k3, s3, r3) = (k4, s4, r4)"
    by (rule prod_cases3)
  have k0: "End kt0 = convertDeviceToHostTimestamp F st (EndTime kt0) ty"
    by (simp add: kt0_def)
  have p1: "sameClock st s1 \<and> sameCounters st s1 \<and> hwEmits F st ty res r1
      \<and> End k1 = convertDeviceToHostTimestamp F st (EndTime k1) ty"
    by (rule hwCategory_step [OF a1 _ k0]) (simp_all add: sameClock_def sameCounters_def)
  have k1: "End k1 = convertDeviceToHostTimestamp F s1 (EndTime k1) ty"
    using p1 convert_sameClock [of st s1] by simp
  have p2: "sameClock s1 s2 \<and> sameCounters s1 s2 \<and> hwEmits F s1 ty r1 r2
      \<and> End k2 = convertDeviceToHostTimestamp F s1 (EndTime k2) ty"
    by (rule hwCategory_step [OF a2 _ k1]) (simp_all add: sameClock_def sameCounters_def)
  have k2: "End k2 = convertDeviceToHostTimestamp F s2 (EndTime k2) ty"
    using p2 convert_sameClock [of s1 s2] by simp
  have p3: "sameClock s2 s3 \<and> sameCounters s2 s3 \<and> hwEmits F s2 ty r2 r3
      \<and> End k3 = convertDeviceToHostTimestamp F s2 (EndTime k3) ty"
    by (rule hwCategory_step [OF a3 _ k2]) (simp_all add: sameClock_def sameCounters_def)
  have k3: "End k3 = convertDeviceToHostTimestamp F s3 (EndTime k3) ty"
    using p3 convert_sameClock [of s2 s3] by simp
  have p4: "sameClock s3 s4 \<and> sameCounters s3 s4 \<and> hwEmits F s3 ty r3 r4
      \<and> End k4 = convertDeviceToHostTimestamp F s3 (EndTime k4) ty"
    by (rule hwCategory_step [OF a4 _ k3]) (simp_all add: sameClock_def sameCounters_def)
  have c2: "sameClock st s2" using p1 p2 sameClock_trans by blast
  have c3: "sameClock st s3" using c2 p3 sameClock_trans by blast
  have c4: "sameClock st s4" using c3 p4 sameClock_trans by blast
  have n4: "sameCounters st s4" using p1 p2 p3 p4 sameCounters_trans by blast
  have e2: "hwEmits F st ty r1 r2" using p2 p1 hwEmits_sameClock [of st s1] by simp
  have e3: "hwEmits F st ty r2 r3" using p3 c2 hwEmits_sameClock [of st s2] by simp
  have e4: "hwEmits F st ty r3 r4" using p4 c3 hwEmits_sameClock [of st s3] by simp
  have e: "hwEmits F st ty res r4"
    using p1 e2 e3 e4 hwEmits_trans by blast
  have "hwAccel C F ty trace s ts (kt, st, res) =
      (k4, s4\<lparr>mAccelMonStartedEvents := (mAccelMonStartedEvents s4)
                 (unat s := mAccelMonStartedEvents s4 (unat s) XOR (TraceID trace AND 0xf)),
              mAccelMonLastTranx := (mAccelMonLastTranx s4)(unat s := ucast ts)\<rparr>, r4)"
    unfolding hwAccel_def Let_def using a1 a2 a3 a4 by (simp add: kt0_def)
  with run have "res' = r4" and st': "st' = s4\<lparr>mAccelMonStartedEvents := (mAccelMonStartedEvents s4)
                 (unat s := mAccelMonStartedEvents s4 (unat s) XOR (TraceID trace AND 0xf)),
              mAccelMonLastTranx := (mAccelMonLastTranx s4)(unat s := ucast ts)\<rparr>"
    by simp_all
  moreover have "sameClock st st'" using c4 st' by (simp add: sameClock_def)
  moreover have "sameCounters st st'" using n4 st' by (simp add: sameCounters_def)
  ultimately show ?thesis using e by simp
qed

lemma hwDecode_step:
  assumes run: "hwDecode C F ty trace slotID ts (loc, st, res) = (loc', st', res')"
  shows "sameClock st st' \<and> sameCounters st st' \<and> hwEmits F st ty res res'"
proof (cases "64 \<le> TraceID trace")
  case True
  obtain kt s r where a: "hwAccel C F ty trace slotID ts (kernelTrace loc, st, res) = (kt, s, r)"
    by (rule prod_cases3)
  from run True a have "st' = s" "res' = r" by (simp_all add: hwDecode_def)
  with hwAccel_step [OF a] show ?thesis by simp
next
  case False
  obtain s r where a: "hwMemory C F ty trace slotID ts (st, res) = (s, r)"
    by (rule prod.exhaust)
  from run False a have "st' = s" "res' = r" by (simp_all add: hwDecode_def)
  with hwMemory_step [OF a] show ?thesis by simp
qed

lemma parseSample_hw0:
  "\<not> isHwEmu env \<Longrightarrow> parseSample C F env ty 0 trace (loc, st, res) =
     Inr (loc\<lparr>y1 := fadd F (of_u64 F (HostTimestamp trace)) (of_u64 F 1000),
             x1 := of_u64 F (Timestamp trace)\<rparr>, st, res)"
  by (simp add: parseSample_def)

lemma parseSample_hw_from:
  assumes hw: "\<not> isHwEmu env" and i: "i \<noteq> 0"
  shows "\<exists>loc' st' res'. parseSample C F env ty i trace (loc, st, res) = Inr (loc', st', res')
      \<and> sameClock (if i = 1 then trainClock F env ty trace (y1 loc) (x1 loc) st else st) st'
      \<and> sameCounters st st'
      \<and> hwEmits F (if i = 1 then trainClock F env ty trace (y1 loc) (x1 loc) st else st) ty res res'"
proof -
  define st1 where "st1 = (if i = 1 then trainClock F env ty trace (y1 loc) (x1 loc) st else st)"
  have n1: "sameCounters st st1"
    by (simp add: st1_def sameCounters_def trainClock_def trainDeviceHostTimestamps_def Let_def)
  have dec: "\<And>slot. \<exists>loc' st' res'. hwDecode C F ty trace slot (hwTimestamp C trace) (loc, st1, res)
        = (loc', st', res') \<and> sameClock st1 st' \<and> sameCounters st st' \<and> hwEmits F st1 ty res res'"
  proof -
    fix slot
    obtain l s r where a: "hwDecode C F ty trace slot (hwTimestamp C trace) (loc, st1, res) = (l, s, r)"
      by (rule prod_cases3)
    from hwDecode_step [OF a] n1 sameCounters_trans [of st st1 s]
    show "\<exists>loc' st' res'. hwDecode C F ty trace slot (hwTimestamp C trace) (loc, st1, res)
        = (loc', st', res') \<and> sameClock st1 st' \<and> sameCounters st st' \<and> hwEmits F st1 ty res res'"
      using a by blast
  qed
  have skip: "sameClock st1 st1 \<and> sameCounters st st1 \<and> hwEmits F st1 ty res res"
    using n1 by (simp add: sameClock_refl hwEmits_refl)
  have eq: "parseSample C F env ty i trace (loc, st, res) =
     (if 64 \<le> TraceID trace \<and> TraceID trace \<le> 544
      then Inr (hwDecode C F ty trace ((TraceID trace - 64) div 16) (hwTimestamp C trace) (loc, st1, res))
      else if 2 \<le> TraceID trace \<and> TraceID trace \<le> 61
      then Inr (hwDecode C F ty trace (TraceID trace div 2) (hwTimestamp C trace) (loc, st1, res))
      else Inr (loc, st1, res))"
    using hw i by (simp add: parseSample_def st1_def Let_def)
  show ?thesis
    unfolding eq st1_def [symmetric]
    using dec [of "(TraceID trace - 64) div 16"] dec [of "TraceID trace div 2"] skip
    by (auto split: if_splits)
qed

lemma parseSample_hw:
  assumes hw: "\<not> isHwEmu env" and i: "2 \<le> i"
  shows "\<exists>loc' st' res'. parseSample C F env ty i trace (loc, st, res) = Inr (loc', st', res')
      \<and> sameClock st st' \<and> sameCounters st st' \<and> hwEmits F st ty res res'"
  using parseSample_hw_from [OF hw, of i C F ty trace loc st res] i by simp

lemma parseAll_hw:
  assumes hw: "\<not> isHwEmu env"
  shows "2 \<le> i \<Longrightarrow> \<exists>loc' st' res'. parseAll C F env ty i traces (loc, st, res) = Inr (loc', st', res')
      \<and> sameClock st st' \<and> sameCounters st st' \<and> hwEmits F st ty res res'"
proof (induction traces arbitrary: i loc st res)
  case Nil
  then show ?case by (simp add: sameClock_refl sameCounters_refl hwEmits_refl)
next
  case (Cons t ts)
  from parseSample_hw [OF hw Cons.prems] obtain l1 s1 r1 where
    1: "parseSample C F env ty i t (loc, st, res) = Inr (l1, s1, r1)"
    "sameClock st s1" "sameCounters st s1" "hwEmits F st ty res r1" by blast
  have "2 \<le> Suc i" using Cons.prems by simp
  from Cons.IH [OF this] obtain l2 s2 r2 where
    2: "parseAll C F env ty (Suc i) ts (l1, s1, r1) = Inr (l2, s2, r2)"
    "sameClock s1 s2" "sameCounters s1 s2" "hwEmits F s1 ty r1 r2" by blast
  have "hwEmits F st ty r1 r2" using 2(4) 1(2) hwEmits_sameClock [of st s1] by simp
  then have "hwEmits F st ty res r2" using 1(4) hwEmits_trans by blast
  moreover have "sameClock st s2" using 1(2) 2(2) sameClock_trans by blast
  moreover have "sameCounters st s2" using 1(3) 2(3) sameCounters_trans by blast
  moreover have "parseAll C F env ty i (t # ts) (loc, st, res) = Inr (l2, s2, r2)"
    using 1(1) 2(1) by simp
  ultimately show ?case by blast
qed

lemma approxCu_idle:
  "mAccelMonStartedEvents st i AND XSAM_TRACE_CU_MASK C = 0 \<Longrightarrow> approxCu C F env dev ty st i p = p"
  by (cases p) (simp add: approxCu_def)

lemma fold_approxCu_idle:
  "\<forall>i\<in>set js. mAccelMonStartedEvents st i AND XSAM_TRACE_CU_MASK C = 0
     \<Longrightarrow> fold (approxCu C F env dev ty st) js p = p"
  by (induction js arbitrary: p) (simp_all add: approxCu_idle)

lemma approximateCuEnds_idle:
  "\<forall>i<XSAM_MAX_NUMBER_SLOTS C. mAccelMonStartedEvents st i AND XSAM_TRACE_CU_MASK C = 0
     \<Longrightarrow> approximateCuEnds C F env dev ty st kt res = res"
  by (simp add: approximateCuEnds_def fold_approxCu_idle)

lemma approxCu_step:
  "hwEmits F st ty res (snd (snd (snd (approxCu C F env dev ty st i (p, n, kt, res)))))"
proof (cases "mAccelMonStartedEvents st i AND XSAM_TRACE_CU_MASK C = 0")
  case True
  then show ?thesis by (simp add: approxCu_idle hwEmits_refl)
next
  case False
  define k2 where "k2 = kt\<lparr>SlotNum := of_nat i, Name := ''OCL Region'', Type := ''Kernel'',
      Kind := DEVICE_KERNEL, StartTime := mAccelMonCuTime st i,
      Start := convertDeviceToHostTimestamp F st (mAccelMonCuTime st i) ty,
      BurstLength := 0, NumBytes := 0\<rparr>"
  have front: "\<And>t. hwEmits F st ty res
      (k2\<lparr>EndTime := t, End := convertDeviceToHostTimestamp F st t ty\<rparr> # res)"
    by (rule hwEmits_front) (simp_all add: k2_def hostOf_def)
  show ?thesis
    using False front
    by (simp add: approxCu_def Let_def k2_def hwEmits_refl split: prod.splits)
qed

lemma fold_approxCu_step:
  "hwEmits F st ty res (snd (snd (snd (fold (approxCu C F env dev ty st) js (p, n, kt, res)))))"
proof (induction js arbitrary: p n kt res)
  case Nil
  then show ?case by (simp add: hwEmits_refl)
next
  case (Cons j js)
  obtain p1 n1 k1 r1 where a: "approxCu C F env dev ty st j (p, n, kt, res) = (p1, n1, k1, r1)"
    by (metis prod_cases4)
  have "hwEmits F st ty res r1" using approxCu_step [of F st ty res C env dev j p n kt] a by simp
  moreover have "hwEmits F st ty r1 (snd (snd (snd (fold (approxCu C F env dev ty st) js (p1, n1, k1, r1)))))"
    by (rule Cons.IH)
  ultimately show ?case using a hwEmits_trans by fastforce
qed

lemma approximateCuEnds_step:
  "hwEmits F st ty res (approximateCuEnds C F env dev ty st kt res)"
proof -
  obtain a b c d where f: "fold (approxCu C F env dev ty st) [0..<XSAM_MAX_NUMBER_SLOTS C]
      ([], [], kt, res) = (a, b, c, d)" by (metis prod_cases4)
  from fold_approxCu_step [of F st ty res C env dev "[0..<XSAM_MAX_NUMBER_SLOTS C]" "[]" "[]" kt]
  show ?thesis by (simp add: approximateCuEnds_def f)
qed

lemma clearStarted_same:
  "sameClock st (clearStarted C st)" "sameCounters st (clearStarted C st)"
  by (simp_all add: clearStarted_def sameClock_def sameCounters_def)

lemma clearStarted_zero:
  "i < XSAM_MAX_NUMBER_SLOTS C \<Longrightarrow> mAccelMonStartedEvents (clearStarted C st) i = 0"
  by (simp add: clearStarted_def)

lemma trainClock_sameClock:
  "sameClock st sa \<Longrightarrow> sameClock (trainClock F env ty trace y x st) (trainClock F env ty trace y x sa)"
  by (simp add: sameClock_def trainClock_def trainDeviceHostTimestamps_def Let_def)

lemma logTrace_run:
  assumes ne: "traceVector \<noteq> []" and cap: "mNumTraceEvents st < mMaxTraceEvents st"
  shows "logTrace C F env dev ty traceVector st res =
     (case parseAll C F env ty 0 traceVector
             (initLocals C F,
              if isHwEmu env
              then (counted traceVector st)\<lparr>mStartTimeNsec :=
                      snd (getTimestampNsec C (mStartTimeNsec st)
                            (minHostTimestamp (HostTimestamp (hd traceVector)) traceVector))\<rparr>
              else counted traceVector st, res) of
        Inl e \<Rightarrow> Inl e
      | Inr (loc, st3, res3) \<Rightarrow>
          Inr (clearStarted C st3,
               if \<not> isHwEmu env
               then approximateCuEnds C F env dev ty st3 (kernelTrace loc) res3
               else res3))"
proof -
  from ne obtain r0 rest where tv: "traceVector = r0 # rest" by (cases traceVector) auto
  have c: "\<not> mMaxTraceEvents st \<le> mNumTraceEvents st" using cap by simp
  show ?thesis
    unfolding logTrace_def counted_def Let_def
    by (simp add: tv c)
qed

lemma logTrace_hw:
  assumes hw: "\<not> isHwEmu env" and ne: "traceVector \<noteq> []"
    and cap: "mNumTraceEvents st < mMaxTraceEvents st"
  shows "\<exists>st' res'. logTrace C F env dev ty traceVector st res = Inr (st', res')
      \<and> sameClock (hwTrained F env ty traceVector st) st'
      \<and> mNumTraceEvents st' = mNumTraceEvents st + of_nat (length traceVector)
      \<and> mMaxTraceEvents st' = mMaxTraceEvents st
      \<and> (\<forall>i<XSAM_MAX_NUMBER_SLOTS C. mAccelMonStartedEvents st' i = 0)
      \<and> hwEmits F st' ty res res'"
proof -
  define st2 where "st2 = counted traceVector st"
  have c2: "sameClock st st2" by (simp add: st2_def counted_def sameClock_def)
  from ne obtain r0 rest where tv: "traceVector = r0 # rest" by (cases traceVector) auto
  define loc1 where "loc1 = (initLocals C F)\<lparr>y1 := fadd F (of_u64 F (HostTimestamp r0)) (of_u64 F 1000),
             x1 := of_u64 F (Timestamp r0)\<rparr>"
  have "\<exists>loc' st3 res3. parseAll C F env ty 0 traceVector (initLocals C F, st2, res) = Inr (loc', st3, res3)
      \<and> sameClock (hwTrained F env ty traceVector st) st3 \<and> sameCounters st2 st3
      \<and> hwEmits F st3 ty res res3"
  proof (cases rest)
    case Nil
    then show ?thesis
      using hw c2 by (simp add: tv parseSample_hw0 hwTrained_def sameCounters_refl hwEmits_refl)
  next
    case (Cons r1 rest')
    from parseSample_hw_from [OF hw, of 1 C F ty r1 loc1 st2 res] obtain l1 s1 q1 where
      1: "parseSample C F env ty 1 r1 (loc1, st2, res) = Inr (l1, s1, q1)"
      "sameClock (trainClock F env ty r1 (y1 loc1) (x1 loc1) st2) s1" "sameCounters st2 s1"
      "hwEmits F (trainClock F env ty r1 (y1 loc1) (x1 loc1) st2) ty res q1" by auto
    from parseAll_hw [OF hw, of 2 C F ty rest' l1 s1 q1] obtain l2 s2 q2 where
      2: "parseAll C F env ty 2 rest' (l1, s1, q1) = Inr (l2, s2, q2)"
      "sameClock s1 s2" "sameCounters s1 s2" "hwEmits F s1 ty q1 q2" by auto
    have t: "sameClock (hwTrained F env ty traceVector st) (trainClock F env ty r1 (y1 loc1) (x1 loc1) st2)"
      unfolding hwTrained_def tv Cons list.case
      by (simp add: loc1_def trainClock_sameClock [OF c2])
    have t1: "sameClock (hwTrained F env ty traceVector st) s1" using t 1(2) sameClock_trans by blast
    have t2: "sameClock (hwTrained F env ty traceVector st) s2" using t1 2(2) sameClock_trans by blast
    have "sameClock (trainClock F env ty r1 (y1 loc1) (x1 loc1) st2) s2" using 1(2) 2(2) sameClock_trans by blast
    then have e1: "hwEmits F s2 ty res q1"
      using 1(4) hwEmits_sameClock [of "trainClock F env ty r1 (y1 loc1) (x1 loc1) st2" s2] by simp
    have e2: "hwEmits F s2 ty q1 q2" using 2(4) 2(2) hwEmits_sameClock [of s1 s2] by simp
    have "hwEmits F s2 ty res q2" using e1 e2 hwEmits_trans by blast
    moreover have "sameCounters st2 s2" using 1(3) 2(3) sameCounters_trans by blast
    moreover have "parseAll C F env ty 0 traceVector (initLocals C F, st2, res) = Inr (l2, s2, q2)"
      using hw 1(1) 2(1) by (simp add: tv Cons parseSample_hw0 loc1_def numeral_2_eq_2)
    ultimately show ?thesis using t2 by blast
  qed
  then obtain loc' st3 res3 where
    p: "parseAll C F env ty 0 traceVector (initLocals C F, st2, res) = Inr (loc', st3, res3)"
    "sameClock (hwTrained F env ty traceVector st) st3" "sameCounters st2 st3"
    "hwEmits F st3 ty res res3" by blast
  define res4 where "res4 = approximateCuEnds C F env dev ty st3 (kernelTrace loc') res3"
  have lt: "logTrace C F env dev ty traceVector st res = Inr (clearStarted C st3, res4)"
    using hw p(1) by (simp add: logTrace_run [OF ne cap] st2_def [symmetric] res4_def)
  have "hwEmits F st3 ty res3 res4" unfolding res4_def by (rule approximateCuEnds_step)
  then have "hwEmits F st3 ty res res4" using p(4) hwEmits_trans by blast
  then have "hwEmits F (clearStarted C st3) ty res res4"
    using hwEmits_sameClock [OF clearStarted_same(1), of F C st3] by simp
  moreover have "sameClock (hwTrained F env ty traceVector st) (clearStarted C st3)"
    using p(2) clearStarted_same(1) sameClock_trans by blast
  moreover have "mNumTraceEvents (clearStarted C st3) = mNumTraceEvents st + of_nat (length traceVector)"
    "mMaxTraceEvents (clearStarted C st3) = mMaxTraceEvents st"
    using p(3) by (simp_all add: clearStarted_def sameCounters_def st2_def counted_def)
  ultimately show ?thesis using lt clearStarted_zero by blast
qed

lemma emuEmits_refl: "emuEmits F res res"
  by (simp add: emuEmits_def)

lemma emuEmits_back:
  "Type e = ''Kernel'' \<or> ((Type e = ''Read'' \<or> Type e = ''Write'') \<and> fge F (End e) (Start e))
     \<Longrightarrow> emuEmits F res (res @ [e])"
  by (simp add: emuEmits_def)

lemma emuEmits_trans:
  assumes "emuEmits F a b" and "emuEmits F b c"
  shows "emuEmits F a c"
proof -
  from assms(1) obtain n1 where 1: "b = a @ n1" "\<forall>e\<in>set n1. Type e = ''Kernel''
            \<or> ((Type e = ''Read'' \<or> Type e = ''Write'') \<and> fge F (End e) (Start e))"
    unfolding emuEmits_def by blast
  from assms(2) obtain n2 where 2: "c = b @ n2" "\<forall>e\<in>set n2. Type e = ''Kernel''
            \<or> ((Type e = ''Read'' \<or> Type e = ''Write'') \<and> fge F (End e) (Start e))"
    unfolding emuEmits_def by blast
  have "c = a @ (n1 @ n2)" using 1(1) 2(1) by simp
  moreover have "\<forall>e\<in>set (n1 @ n2). Type e = ''Kernel''
            \<or> ((Type e = ''Read'' \<or> Type e = ''Write'') \<and> fge F (End e) (Start e))"
    using 1(2) 2(2) by auto
  ultimately show ?thesis unfolding emuEmits_def by blast
qed

lemma emuOK_Inr: "sameCounters st st' \<Longrightarrow> emuEmits F res res' \<Longrightarrow> emuOK F st res (Inr (st', res'))"
  by (simp add: emuOK_def)

lemma emuWriteEnd_ok: "emuOK F st res (emuWriteEnd C F s ts h st res)"
  by (simp add: emuWriteEnd_def frontq_def Let_def emuOK_def sameCounters_def emuEmits_refl
        emuEmits_back split: list.splits)

lemma emuReadEnd_ok: "emuOK F st res (emuReadEnd C F s ts h st res)"
  by (simp add: emuReadEnd_def frontq_def Let_def emuOK_def sameCounters_def emuEmits_refl
        emuEmits_back split: list.splits)

lemma emuWriteStart_same: "sameCounters st (emuWriteStart C flags s ts h st)"
  by (simp add: emuWriteStart_def sameCounters_def)

lemma emuReadStart_same: "sameCounters st (emuReadStart C flags s ts h st)"
  by (simp add: emuReadStart_def sameCounters_def)

lemma emuOK_chain:
  assumes "sameCounters st sa" and "emuEmits F res ra" and "emuOK F sa ra r"
  shows "emuOK F st res r"
  using assms sameCounters_trans [of st sa] emuEmits_trans [of F res ra]
  by (auto simp: emuOK_def split: sum.splits)

lemma emuMemory_ok: "emuOK F st res (emuMemory C F trace ts h st res)"
proof -
  define s where "s = TraceID trace div 2"
  define st1 where "st1 = emuWriteStart C (EventFlags trace) s ts h st"
  have c1: "sameCounters st st1" by (simp add: st1_def emuWriteStart_same)
  define w where "w = (if getBit (EventFlags trace) (XAPM_WRITE_LAST C) \<noteq> 0
                 then emuWriteEnd C F s ts h st1 res else Inr (st1, res))"
  have w: "emuOK F st1 res w"
    by (simp add: w_def emuWriteEnd_ok emuOK_Inr sameCounters_refl emuEmits_refl)
  have rest: "\<And>st2 res2. emuOK F st2 res2
       (let st3 = emuReadStart C (EventFlags trace) s ts h st2
                in if getBit (EventFlags trace) (XAPM_READ_LAST C) \<noteq> 0
                   then (if mReadStarts st3 (unat s) = [] then Inr (st3, res2)
                         else emuReadEnd C F s ts h st3 res2)
                   else Inr (st3, res2))"
  proof -
    fix st2 :: "'a RTProfileDevice" and res2
    define st3 where "st3 = emuReadStart C (EventFlags trace) s ts h st2"
    have c3: "sameCounters st2 st3" by (simp add: st3_def emuReadStart_same)
    have "emuOK F st3 res2 (if getBit (EventFlags trace) (XAPM_READ_LAST C) \<noteq> 0
                   then (if mReadStarts st3 (unat s) = [] then Inr (st3, res2)
                         else emuReadEnd C F s ts h st3 res2)
                   else Inr (st3, res2))"
      by (simp add: emuReadEnd_ok emuOK_Inr sameCounters_refl emuEmits_refl)
    then show "emuOK F st2 res2
       (let st3 = emuReadStart C (EventFlags trace) s ts h st2
                in if getBit (EventFlags trace) (XAPM_READ_LAST C) \<noteq> 0
                   then (if mReadStarts st3 (unat s) = [] then Inr (st3, res2)
                         else emuReadEnd C F s ts h st3 res2)
                   else Inr (st3, res2))"
      unfolding Let_def st3_def [symmetric]
      by (rule emuOK_chain [OF c3 emuEmits_refl])
  qed
  have "emuOK F st1 res (if getBit (EventFlags trace) (XAPM_WRITE_LAST C) \<noteq> 0 \<and> mWriteStarts st1 (unat s) = []
         then Inr (st1, res)
         else
           case w of
             Inl e \<Rightarrow> Inl e
           | Inr (st2, res2) \<Rightarrow>
               (let st3 = emuReadStart C (EventFlags trace) s ts h st2
                in if getBit (EventFlags trace) (XAPM_READ_LAST C) \<noteq> 0
                   then (if mReadStarts st3 (unat s) = [] then Inr (st3, res2)
                         else emuReadEnd C F s ts h st3 res2)
                   else Inr (st3, res2)))"
  proof (cases w)
    case (Inl e)
    then show ?thesis by (simp add: emuOK_def sameCounters_refl emuEmits_refl)
  next
    case (Inr p)
    obtain st2 res2 where p: "p = (st2, res2)" by (cases p)
    from w Inr p have "sameCounters st1 st2" "emuEmits F res res2" by (simp_all add: emuOK_def)
    from emuOK_chain [OF this rest [of st2 res2]]
    show ?thesis using Inr p by (simp add: emuOK_Inr sameCounters_refl emuEmits_refl)
  qed
  then have "emuOK F st1 res (emuMemory C F trace ts h st res)"
    unfolding emuMemory_def Let_def s_def [symmetric] st1_def [symmetric] w_def [symmetric] .
  then show ?thesis by (rule emuOK_chain [OF c1 emuEmits_refl])
qed

lemma emuAccel_ok:
  "emuAccel C F trace ts h (kt, st, res) = (kt', st', res') \<Longrightarrow> sameCounters st st' \<and> emuEmits F res res'"
proof -
  have "sameCounters st (fst (snd (emuAccel C F trace ts h (kt, st, res))))
      \<and> emuEmits F res (snd (snd (emuAccel C F trace ts h (kt, st, res))))"
    by (simp add: emuAccel_def Let_def sameCounters_def emuEmits_refl emuEmits_back)
  then show "emuAccel C F trace ts h (kt, st, res) = (kt', st', res') \<Longrightarrow> ?thesis" by simp
qed

lemma parseSample_emu:
  assumes emu: "isHwEmu env"
    and run: "parseSample C F env ty i trace (loc, st, res) = Inr (loc', st', res')"
  shows "sameCounters st st' \<and> emuEmits F res res'"
proof -
  define ts where "ts = emuTimestamp C (mPrevTimestamp st ty) trace"
  define st1 where "st1 = st\<lparr>mPrevTimestamp := (mPrevTimestamp st)(ty := ts)\<rparr>"
  obtain h start' where g: "getTimestampNsec C (mStartTimeNsec st1) (HostTimestamp trace) = (h, start')"
    by (rule prod.exhaust)
  define st2 where "st2 = st1\<lparr>mStartTimeNsec := start'\<rparr>"
  define loc1 where "loc1 = loc\<lparr>prevHostTimestamp := ucast (HostTimestamp trace)\<rparr>"
  define dup where "dup = duplicateHostTimestamp loc trace"
  define cu where "cu = (64 \<le> TraceID trace \<and> TraceID trace \<le> 94)"
  have c1: "sameCounters st st1" by (simp add: st1_def sameCounters_def)
  have c2: "sameCounters st st2" by (simp add: st2_def st1_def sameCounters_def)
  have eq: "parseSample C F env ty i trace (loc, st, res) =
      (if dup then Inr (loc, st1, res)
       else if TraceID trace < 61 then
              (case emuMemory C F trace ts h st2 res of
                 Inl e \<Rightarrow> Inl e
               | Inr (st3, res3) \<Rightarrow> Inr (loc1, st3, res3))
            else if cu then
              (case emuAccel C F trace ts h (kernelTrace loc1, st2, res) of
                 (kt, st3, res3) \<Rightarrow> Inr (loc1\<lparr>kernelTrace := kt\<rparr>, st3, res3))
            else Inr (loc1, st2, res))"
    using emu g
    by (simp add: parseSample_def Let_def ts_def [symmetric] st1_def [symmetric]
          st2_def [symmetric] loc1_def [symmetric] dup_def [symmetric] cu_def [symmetric])
  consider (dup) dup | (mem) "\<not> dup" "TraceID trace < 61"
    | (cu) "\<not> dup" "\<not> TraceID trace < 61" cu
    | (skip) "\<not> dup" "\<not> TraceID trace < 61" "\<not> cu"
    by blast
  then show ?thesis
  proof cases
    case dup
    with run eq have "st' = st1" "res' = res" by simp_all
    with c1 show ?thesis by (simp add: emuEmits_refl)
  next
    case mem
    with run eq have m: "emuMemory C F trace ts h st2 res = Inr (st', res')"
      by (simp split: sum.splits prod.splits)
    from emuMemory_ok [of F st2 res C trace ts h] m
    have "sameCounters st2 st'" "emuEmits F res res'" by (simp_all add: emuOK_def)
    with c2 sameCounters_trans show ?thesis by blast
  next
    case cu
    obtain kt s3 r3 where a: "emuAccel C F trace ts h (kernelTrace loc1, st2, res) = (kt, s3, r3)"
      by (rule prod_cases3)
    with cu run eq have "st' = s3" "res' = r3" by simp_all
    with emuAccel_ok [OF a] c2 sameCounters_trans show ?thesis by blast
  next
    case skip
    with run eq have "st' = st2" "res' = res" by simp_all
    with c2 show ?thesis by (simp add: emuEmits_refl)
  qed
qed

lemma parseAll_emu:
  assumes emu: "isHwEmu env"
  shows "parseAll C F env ty i traces (loc, st, res) = Inr (loc', st', res')
     \<Longrightarrow> sameCounters st st' \<and> emuEmits F res res'"
proof (induction traces arbitrary: i loc st res)
  case Nil
  then show ?case by (simp add: sameCounters_refl emuEmits_refl)
next
  case (Cons t ts)
  from Cons.prems obtain l1 s1 r1 where
    1: "parseSample C F env ty i t (loc, st, res) = Inr (l1, s1, r1)"
    and 2: "parseAll C F env ty (Suc i) ts (l1, s1, r1) = Inr (loc', st', res')"
    by (auto split: sum.splits)
  from parseSample_emu [OF emu 1] Cons.IH [OF 2]
  show ?case using sameCounters_trans emuEmits_trans by blast
qed

lemma logTrace_emu:
  assumes emu: "isHwEmu env" and ne: "traceVector \<noteq> []"
    and cap: "mNumTraceEvents st < mMaxTraceEvents st"
    and run: "logTrace C F env dev ty traceVector st res = Inr (st', res')"
  shows "mNumTraceEvents st' = mNumTraceEvents st + of_nat (length traceVector)
      \<and> mMaxTraceEvents st' = mMaxTraceEvents st
      \<and> (\<forall>i<XSAM_MAX_NUMBER_SLOTS C. mAccelMonStartedEvents st' i = 0)
      \<and> emuEmits F res res'"
proof -
  define st2 where "st2 = (counted traceVector st)\<lparr>mStartTimeNsec :=
                      snd (getTimestampNsec C (mStartTimeNsec st)
                            (minHostTimestamp (HostTimestamp (hd traceVector)) traceVector))\<rparr>"
  from run emu obtain loc3 st3 where
    p: "parseAll C F env ty 0 traceVector (initLocals C F, st2, res) = Inr (loc3, st3, res')"
    and st': "st' = clearStarted C st3"
    by (auto simp: logTrace_run [OF ne cap] st2_def split: sum.splits)
  from parseAll_emu [OF emu p] have "sameCounters st2 st3" "emuEmits F res res'" by simp_all
  then show ?thesis
    using st' clearStarted_zero [of _ C st3]
    by (simp add: sameCounters_def st2_def counted_def clearStarted_def)
qed

subsection \<open>Memory-slot steps\<close>

lemma spm_not_sam: "(traceID :: 32 word) \<le> 61 \<Longrightarrow> \<not> 64 \<le> traceID"
  by (simp add: word_le_nat_alt)

lemma trainClock_queues:
  "mReadStarts (trainClock F env ty r y x st) = mReadStarts st"
  "mWriteStarts (trainClock F env ty r y x st) = mWriteStarts st"
  by (simp_all add: trainClock_def trainDeviceHostTimestamps_def Let_def)

lemma parseSample_hw_spm:
  assumes hw: "\<not> isHwEmu env" and i: "i \<noteq> 0"
    and id: "2 \<le> TraceID r" "TraceID r \<le> 61"
    and st1: "st1 = (if i = 1 then trainClock F env ty r (y1 loc) (x1 loc) st else st)"
  shows "parseSample C F env ty i r (loc, st, res) =
     (case hwMemory C F ty r (TraceID r div 2) (hwTimestamp C r) (st1, res) of
        (st', res') \<Rightarrow> Inr (loc, st', res'))"
  using hw i id spm_not_sam [OF id(2)]
  by (simp add: parseSample_def hwDecode_def Let_def st1 split: prod.splits)

lemma hwEnd_read:
  "hwEnd C F ty r ''Read'' mReadStarts (\<lambda>q st. st\<lparr>mReadStarts := q\<rparr>) slotID ts (st, res) = (st', res')
   \<Longrightarrow> \<exists>e. res' = res @ [e] \<and> Type e = ''Read'' \<and> SlotNum e = slotID \<and> EndTime e = ucast ts
      \<and> StartTime e = (if Reserved r = 1 then ucast ts
                        else case mReadStarts st (unat slotID) of [] \<Rightarrow> ucast ts | v # vs \<Rightarrow> v)
      \<and> BurstLength e = EndTime e - StartTime e + 1
      \<and> mReadStarts st' = (if Reserved r = 1 then mReadStarts st
                        else case mReadStarts st (unat slotID) of [] \<Rightarrow> mReadStarts st
                             | v # vs \<Rightarrow> (mReadStarts st)(unat slotID := vs))
      \<and> mWriteStarts st' = mWriteStarts st"
  by (cases "Reserved r = 1"; cases "mReadStarts st (unat slotID)")
     (auto simp: hwEnd_def Let_def)

lemma hwEnd_write:
  "hwEnd C F ty r ''Write'' mWriteStarts (\<lambda>q st. st\<lparr>mWriteStarts := q\<rparr>) slotID ts (st, res) = (st', res')
   \<Longrightarrow> \<exists>e. res' = res @ [e] \<and> Type e = ''Write'' \<and> SlotNum e = slotID \<and> EndTime e = ucast ts
      \<and> StartTime e = (if Reserved r = 1 then ucast ts
                        else case mWriteStarts st (unat slotID) of [] \<Rightarrow> ucast ts | v # vs \<Rightarrow> v)
      \<and> BurstLength e = EndTime e - StartTime e + 1
      \<and> mWriteStarts st' = (if Reserved r = 1 then mWriteStarts st
                        else case mWriteStarts st (unat slotID) of [] \<Rightarrow> mWriteStarts st
                             | v # vs \<Rightarrow> (mWriteStarts st)(unat slotID := vs))
      \<and> mReadStarts st' = mReadStarts st"
  by (cases "Reserved r = 1"; cases "mWriteStarts st (unat slotID)")
     (auto simp: hwEnd_def Let_def)

lemma hw_read_end:
  assumes hw: "\<not> isHwEmu env" and i: "i \<noteq> 0"
    and id: "2 \<le> TraceID r" "TraceID r \<le> 61"
    and rd: "IS_READ C (TraceID r)" and ev: "EventType r = XCL_PERF_MON_END_EVENT"
  shows "\<exists>loc' st' e. parseSample C F env ty i r (loc, st, res) = Inr (loc', st', res @ [e])
      \<and> Type e = ''Read'' \<and> SlotNum e = TraceID r div 2 \<and> EndTime e = ucast (hwTimestamp C r)
      \<and> StartTime e = (if Reserved r = 1 then ucast (hwTimestamp C r)
                        else case mReadStarts st (unat (TraceID r div 2)) of
                               [] \<Rightarrow> ucast (hwTimestamp C r) | v # vs \<Rightarrow> v)
      \<and> BurstLength e = EndTime e - StartTime e + 1
      \<and> mReadStarts st' = (if Reserved r = 1 then mReadStarts st
                        else case mReadStarts st (unat (TraceID r div 2)) of [] \<Rightarrow> mReadStarts st
                             | v # vs \<Rightarrow> (mReadStarts st)(unat (TraceID r div 2) := vs))
      \<and> mWriteStarts st' = mWriteStarts st"
proof -
  define st1 where "st1 = (if i = 1 then trainClock F env ty r (y1 loc) (x1 loc) st else st)"
  have q: "mReadStarts st1 = mReadStarts st" "mWriteStarts st1 = mWriteStarts st"
    by (simp_all add: st1_def trainClock_queues)
  obtain s2 r2 where h: "hwEnd C F ty r ''Read'' mReadStarts (\<lambda>q st. st\<lparr>mReadStarts := q\<rparr>)
      (TraceID r div 2) (hwTimestamp C r) (st1, res) = (s2, r2)" by (rule prod.exhaust)
  have "parseSample C F env ty i r (loc, st, res) = Inr (loc, s2, r2)"
    using rd ev h by (simp add: parseSample_hw_spm [OF hw i id st1_def] hwMemory_def)
  with hwEnd_read [OF h] show ?thesis unfolding q by auto
qed

lemma hw_write_end:
  assumes hw: "\<not> isHwEmu env" and i: "i \<noteq> 0"
    and id: "2 \<le> TraceID r" "TraceID r \<le> 61"
    and rd: "\<not> IS_READ C (TraceID r)" and wr: "IS_WRITE C (TraceID r)"
    and ev: "EventType r = XCL_PERF_MON_END_EVENT"
  shows "\<exists>loc' st' e. parseSample C F env ty i r (loc, st, res) = Inr (loc', st', res @ [e])
      \<and> Type e = ''Write'' \<and> SlotNum e = TraceID r div 2 \<and> EndTime e = ucast (hwTimestamp C r)
      \<and> StartTime e = (if Reserved r = 1 then ucast (hwTimestamp C r)
                        else case mWriteStarts st (unat (TraceID r div 2)) of
                               [] \<Rightarrow> ucast (hwTimestamp C r) | v # vs \<Rightarrow> v)
      \<and> BurstLength e = EndTime e - StartTime e + 1
      \<and> mWriteStarts st' = (if Reserved r = 1 then mWriteStarts st
                        else case mWriteStarts st (unat (TraceID r div 2)) of [] \<Rightarrow> mWriteStarts st
                             | v # vs \<Rightarrow> (mWriteStarts st)(unat (TraceID r div 2) := vs))
      \<and> mReadStarts st' = mReadStarts st"
proof -
  define st1 where "st1 = (if i = 1 then trainClock F env ty r (y1 loc) (x1 loc) st else st)"
  have q: "mReadStarts st1 = mReadStarts st" "mWriteStarts st1 = mWriteStarts st"
    by (simp_all add: st1_def trainClock_queues)
  obtain s2 r2 where h: "hwEnd C F ty r ''Write'' mWriteStarts (\<lambda>q st. st\<lparr>mWriteStarts := q\<rparr>)
      (TraceID r div 2) (hwTimestamp C r) (st1, res) = (s2, r2)" by (rule prod.exhaust)
  have "parseSample C F env ty i r (loc, st, res) = Inr (loc, s2, r2)"
    using rd wr ev h by (simp add: parseSample_hw_spm [OF hw i id st1_def] hwMemory_def)
  with hwEnd_write [OF h] show ?thesis unfolding q by auto
qed

lemma hw_read_start:
  assumes hw: "\<not> isHwEmu env" and i: "i \<noteq> 0"
    and id: "2 \<le> TraceID r" "TraceID r \<le> 61"
    and rd: "IS_READ C (TraceID r)" and ev: "EventType r = XCL_PERF_MON_START_EVENT"
  shows "\<exists>loc' st'. parseSample C F env ty i r (loc, st, res) = Inr (loc', st', res)
      \<and> mReadStarts st' = (mReadStarts st)(unat (TraceID r div 2) :=
            mReadStarts st (unat (TraceID r div 2)) @ [ucast (hwTimestamp C r)])
      \<and> mWriteStarts st' = mWriteStarts st"
  using rd ev
  by (simp add: parseSample_hw_spm [OF hw i id refl] hwMemory_def pushq_def trainClock_queues)

lemma hw_write_start:
  assumes hw: "\<not> isHwEmu env" and i: "i \<noteq> 0"
    and id: "2 \<le> TraceID r" "TraceID r \<le> 61"
    and rd: "\<not> IS_READ C (TraceID r)" and wr: "IS_WRITE C (TraceID r)"
    and ev: "EventType r = XCL_PERF_MON_START_EVENT"
  shows "\<exists>loc' st'. parseSample C F env ty i r (loc, st, res) = Inr (loc', st', res)
      \<and> mWriteStarts st' = (mWriteStarts st)(unat (TraceID r div 2) :=
            mWriteStarts st (unat (TraceID r div 2)) @ [ucast (hwTimestamp C r)])
      \<and> mReadStarts st' = mReadStarts st"
  using rd wr ev
  by (simp add: parseSample_hw_spm [OF hw i id refl] hwMemory_def pushq_def trainClock_queues)

lemma parseSample_emu_mem:
  assumes emu: "isHwEmu env" and nd: "\<not> duplicateHostTimestamp loc r" and id: "TraceID r < 61"
    and g: "getTimestampNsec C (mStartTimeNsec st) (HostTimestamp r) = (h, start')"
  shows "parseSample C F env ty i r (loc, st, res) =
     (case emuMemory C F r (emuTimestamp C (mPrevTimestamp st ty) r) h
             (st\<lparr>mPrevTimestamp := (mPrevTimestamp st)(ty := emuTimestamp C (mPrevTimestamp st ty) r),
                 mStartTimeNsec := start'\<rparr>) res of
        Inl e \<Rightarrow> Inl e
      | Inr (st3, res3) \<Rightarrow> Inr (loc\<lparr>prevHostTimestamp := ucast (HostTimestamp r)\<rparr>, st3, res3))"
  using emu nd id g
  by (simp add: parseSample_def Let_def)

lemma parseSample_emu_dup:
  assumes emu: "isHwEmu env" and d: "duplicateHostTimestamp loc r"
  shows "parseSample C F env ty i r (loc, st, res) =
     Inr (loc, st\<lparr>mPrevTimestamp := (mPrevTimestamp st)(ty := emuTimestamp C (mPrevTimestamp st ty) r)\<rparr>, res)"
  using emu d by (simp add: parseSample_def Let_def)

lemma emuWriteEnd_form:
  assumes "mWriteStarts st (unat s) \<noteq> []" and "mHostWriteStarts st (unat s) \<noteq> []"
  shows "\<exists>st' ws. emuWriteEnd C F s ts h st res = Inr (st', res @ ws)
     \<and> (\<forall>w\<in>set ws. Type w = ''Write'') \<and> mReadStarts st' = mReadStarts st"
proof -
  from assms obtain v vs hv hvs where q: "mWriteStarts st (unat s) = v # vs"
    "mHostWriteStarts st (unat s) = hv # hvs" by (auto simp: neq_Nil_conv)
  define st' where "st' = st\<lparr>mWriteStarts := popq (mWriteStarts st) (unat s),
                     mHostWriteStarts := popq (mHostWriteStarts st) (unat s)\<rparr>"
  have "\<exists>w. Type w = ''Write'' \<and> (emuWriteEnd C F s ts h st res = Inr (st', res @ [w])
      \<or> emuWriteEnd C F s ts h st res = Inr (st', res @ []))"
    by (simp add: emuWriteEnd_def frontq_def q Let_def st'_def [symmetric]) (metis DeviceTrace.select_convs(3) DeviceTrace.surjective DeviceTrace.update_convs(3))
  then obtain w where "Type w = ''Write''" "emuWriteEnd C F s ts h st res = Inr (st', res @ [w])
      \<or> emuWriteEnd C F s ts h st res = Inr (st', res @ [])" by blast
  moreover have "mReadStarts st' = mReadStarts st" by (simp add: st'_def)
  ultimately show ?thesis
    by (metis empty_iff list.set(1) list.set(2) singletonD)
qed

lemma emuMemory_write_end_empty:
  assumes "getBit (EventFlags r) (XAPM_WRITE_LAST C) \<noteq> 0"
    and "getBit (EventFlags r) (XAPM_WRITE_FIRST C) = 0"
    and "mWriteStarts st (unat (TraceID r div 2)) = []"
  shows "emuMemory C F r ts h st res = Inr (st, res)"
  using assms by (simp add: emuMemory_def emuWriteStart_def Let_def)

lemma emuMemory_read_end_empty:
  assumes rl: "getBit (EventFlags r) (XAPM_READ_LAST C) \<noteq> 0"
    and rf: "getBit (EventFlags r) (XAPM_READ_FIRST C) = 0"
    and q: "mReadStarts st (unat (TraceID r div 2)) = []"
    and sync: "mWriteStarts st (unat (TraceID r div 2)) \<noteq> []
        \<longrightarrow> mHostWriteStarts st (unat (TraceID r div 2)) \<noteq> []"
  shows "\<exists>st' ws. emuMemory C F r ts h st res = Inr (st', res @ ws)
     \<and> (\<forall>w\<in>set ws. Type w = ''Write'')"
proof -
  define s where "s = TraceID r div 2"
  define st1 where "st1 = emuWriteStart C (EventFlags r) s ts h st"
  have r1: "mReadStarts st1 = mReadStarts st" by (simp add: st1_def emuWriteStart_def)
  have s1: "mWriteStarts st1 (unat s) \<noteq> [] \<longrightarrow> mHostWriteStarts st1 (unat s) \<noteq> []"
    using sync by (simp add: st1_def emuWriteStart_def pushq_def s_def)
  have tail: "\<And>st2 res2. mReadStarts st2 = mReadStarts st \<Longrightarrow>
       (let st3 = emuReadStart C (EventFlags r) s ts h st2
                in if getBit (EventFlags r) (XAPM_READ_LAST C) \<noteq> 0
                   then (if mReadStarts st3 (unat s) = [] then Inr (st3, res2)
                         else emuReadEnd C F s ts h st3 res2)
                   else Inr (st3, res2)) = Inr (st2, res2)"
    using rl rf q by (simp add: emuReadStart_def s_def)
  show ?thesis
  proof (cases "getBit (EventFlags r) (XAPM_WRITE_LAST C) \<noteq> 0")
    case False
    then have "emuMemory C F r ts h st res = Inr (st1, res @ [])"
      unfolding emuMemory_def Let_def s_def [symmetric] st1_def [symmetric]
      using tail [unfolded Let_def, OF r1] by simp
    then show ?thesis by (metis empty_iff list.set(1))
  next
    case wl: True
    show ?thesis
    proof (cases "mWriteStarts st1 (unat s) = []")
      case True
      with wl have "emuMemory C F r ts h st res = Inr (st1, res @ [])"
        unfolding emuMemory_def Let_def s_def [symmetric] st1_def [symmetric] by simp
      then show ?thesis by (metis empty_iff list.set(1))
    next
      case False
      with s1 have "mHostWriteStarts st1 (unat s) \<noteq> []" by simp
      from emuWriteEnd_form [OF False this, of C F ts h res]
      obtain st2 ws where w: "emuWriteEnd C F s ts h st1 res = Inr (st2, res @ ws)"
        "\<forall>w\<in>set ws. Type w = ''Write''" "mReadStarts st2 = mReadStarts st1" by blast
      have "mReadStarts st2 = mReadStarts st" using w(3) r1 by simp
      from tail [unfolded Let_def, OF this]
      have "emuMemory C F r ts h st res = Inr (st2, res @ ws)"
        unfolding emuMemory_def Let_def s_def [symmetric] st1_def [symmetric]
        using wl False w(1) by simp
      with w(2) show ?thesis by blast
    qed
  qed
qed

lemma emu_write_end_dropped:
  assumes emu: "isHwEmu env" and id: "TraceID r < 61"
    and wl: "getBit (EventFlags r) (XAPM_WRITE_LAST C) \<noteq> 0"
    and wf: "getBit (EventFlags r) (XAPM_WRITE_FIRST C) = 0"
    and q: "mWriteStarts st (unat (TraceID r div 2)) = []"
  shows "\<exists>loc' st'. parseSample C F env ty i r (loc, st, res) = Inr (loc', st', res)"
proof (cases "duplicateHostTimestamp loc r")
  case True
  then show ?thesis by (simp add: parseSample_emu_dup [OF emu])
next
  case False
  obtain h start' where g: "getTimestampNsec C (mStartTimeNsec st) (HostTimestamp r) = (h, start')"
    by (rule prod.exhaust)
  show ?thesis
    using q by (simp add: parseSample_emu_mem [OF emu False id g]
        emuMemory_write_end_empty [OF wl wf])
qed

lemma emu_read_end_dropped:
  assumes emu: "isHwEmu env" and id: "TraceID r < 61"
    and rl: "getBit (EventFlags r) (XAPM_READ_LAST C) \<noteq> 0"
    and rf: "getBit (EventFlags r) (XAPM_READ_FIRST C) = 0"
    and q: "mReadStarts st (unat (TraceID r div 2)) = []"
    and sync: "mWriteStarts st (unat (TraceID r div 2)) \<noteq> []
        \<longrightarrow> mHostWriteStarts st (unat (TraceID r div 2)) \<noteq> []"
  shows "\<exists>loc' st' ws. parseSample C F env ty i r (loc, st, res) = Inr (loc', st', res @ ws)
      \<and> (\<forall>w\<in>set ws. Type w = ''Write'')"
proof (cases "duplicateHostTimestamp loc r")
  case True
  then have "\<exists>loc' st'. parseSample C F env ty i r (loc, st, res) = Inr (loc', st', res @ [])"
    by (simp add: parseSample_emu_dup [OF emu])
  then show ?thesis by (metis empty_iff list.set(1))
next
  case False
  obtain h start' where g: "getTimestampNsec C (mStartTimeNsec st) (HostTimestamp r) = (h, start')"
    by (rule prod.exhaust)
  define st1 where "st1 = st\<lparr>mPrevTimestamp := (mPrevTimestamp st)(ty := emuTimestamp C (mPrevTimestamp st ty) r),
                 mStartTimeNsec := start'\<rparr>"
  have q1: "mReadStarts st1 (unat (TraceID r div 2)) = []" using q by (simp add: st1_def)
  have s1: "mWriteStarts st1 (unat (TraceID r div 2)) \<noteq> []
        \<longrightarrow> mHostWriteStarts st1 (unat (TraceID r div 2)) \<noteq> []" using sync by (simp add: st1_def)
  from emuMemory_read_end_empty [OF rl rf q1 s1, of F "emuTimestamp C (mPrevTimestamp st ty) r" h res]
  obtain st' ws where "emuMemory C F r (emuTimestamp C (mPrevTimestamp st ty) r) h st1 res
      = Inr (st', res @ ws)" "\<forall>w\<in>set ws. Type w = ''Write''" by blast
  then show ?thesis
    by (simp add: parseSample_emu_mem [OF emu False id g] st1_def [symmetric])
qed


subsection \<open>Lists of start records followed by end records\<close>

lemma parseAll_append:
  "parseAll C F env ty i (xs @ ys) a =
     (case parseAll C F env ty i xs a of
        Inl e \<Rightarrow> Inl e
      | Inr a' \<Rightarrow> parseAll C F env ty (i + length xs) ys a')"
  by (induction xs arbitrary: i a) (auto split: sum.splits)

lemma hw_read_start_at:
  assumes hw: "\<not> isHwEmu env" and i: "i \<noteq> 0"
    and r: "hwRead C s r" and ev: "EventType r = XCL_PERF_MON_START_EVENT"
  shows "\<exists>loc' st'. parseSample C F env ty i r (loc, st, res) = Inr (loc', st', res)
      \<and> mReadStarts st' (unat s) = mReadStarts st (unat s) @ [ucast (hwTimestamp C r)]"
proof -
  from r have id: "2 \<le> TraceID r" "TraceID r \<le> 61" "IS_READ C (TraceID r)"
    and s: "TraceID r div 2 = s" by (simp_all add: hwRead_def)
  from hw_read_start [OF hw i id ev, of F ty loc st res]
  obtain loc' st' where 1: "parseSample C F env ty i r (loc, st, res) = Inr (loc', st', res)"
    and 2: "mReadStarts st' = (mReadStarts st)(unat (TraceID r div 2) :=
            mReadStarts st (unat (TraceID r div 2)) @ [ucast (hwTimestamp C r)])" by blast
  have "mReadStarts st' (unat s) = mReadStarts st (unat s) @ [ucast (hwTimestamp C r)]"
    unfolding 2 s by simp
  with 1 show ?thesis by blast
qed

lemma hw_read_end_at:
  assumes hw: "\<not> isHwEmu env" and i: "i \<noteq> 0"
    and r: "hwRead C s r" and ev: "EventType r = XCL_PERF_MON_END_EVENT"
    and rsv: "Reserved r \<noteq> 1" and q: "mReadStarts st (unat s) = v # vs"
  shows "\<exists>loc' st' e. parseSample C F env ty i r (loc, st, res) = Inr (loc', st', res @ [e])
      \<and> summary e = paired ''Read'' s v (ucast (hwTimestamp C r))
      \<and> mReadStarts st' (unat s) = vs"
proof -
  from r have id: "2 \<le> TraceID r" "TraceID r \<le> 61" "IS_READ C (TraceID r)"
    and s: "TraceID r div 2 = s" by (simp_all add: hwRead_def)
  from hw_read_end [OF hw i id ev, of F ty loc st res]
  obtain loc' st' e where 1: "parseSample C F env ty i r (loc, st, res) = Inr (loc', st', res @ [e])"
    and e: "Type e = ''Read''" "SlotNum e = TraceID r div 2" "EndTime e = ucast (hwTimestamp C r)"
      "StartTime e = (if Reserved r = 1 then ucast (hwTimestamp C r)
                        else case mReadStarts st (unat (TraceID r div 2)) of
                               [] \<Rightarrow> ucast (hwTimestamp C r) | v # vs \<Rightarrow> v)"
      "BurstLength e = EndTime e - StartTime e + 1"
    and 2: "mReadStarts st' = (if Reserved r = 1 then mReadStarts st
                        else case mReadStarts st (unat (TraceID r div 2)) of [] \<Rightarrow> mReadStarts st
                             | v # vs \<Rightarrow> (mReadStarts st)(unat (TraceID r div 2) := vs))" by blast
  have "mReadStarts st' (unat s) = vs" unfolding 2 s using rsv q by simp
  moreover have "summary e = paired ''Read'' s v (ucast (hwTimestamp C r))"
    using e rsv q s by (simp add: summary_def paired_def)
  ultimately show ?thesis using 1 by blast
qed

lemma hw_read_starts:
  assumes hw: "\<not> isHwEmu env"
  shows "i \<noteq> 0 \<Longrightarrow> \<forall>r\<in>set rs. hwRead C s r \<and> EventType r = XCL_PERF_MON_START_EVENT
     \<Longrightarrow> \<exists>loc' st'. parseAll C F env ty i rs (loc, st, res) = Inr (loc', st', res)
         \<and> mReadStarts st' (unat s) =
               mReadStarts st (unat s) @ map (\<lambda>r. ucast (hwTimestamp C r)) rs"
proof (induction rs arbitrary: i loc st)
  case Nil
  then show ?case by simp
next
  case (Cons r rs)
  from Cons.prems(2) have r: "hwRead C s r" "EventType r = XCL_PERF_MON_START_EVENT"
    and rs: "\<forall>r\<in>set rs. hwRead C s r \<and> EventType r = XCL_PERF_MON_START_EVENT" by simp_all
  from hw_read_start_at [OF hw Cons.prems(1) r, of F ty loc st res]
  obtain l1 s1 where 1: "parseSample C F env ty i r (loc, st, res) = Inr (l1, s1, res)"
    "mReadStarts s1 (unat s) = mReadStarts st (unat s) @ [ucast (hwTimestamp C r)]" by blast
  have "Suc i \<noteq> 0" by simp
  from Cons.IH [OF this rs, of l1 s1]
  obtain l2 s2 where 2: "parseAll C F env ty (Suc i) rs (l1, s1, res) = Inr (l2, s2, res)"
    "mReadStarts s2 (unat s) = mReadStarts s1 (unat s) @ map (\<lambda>r. ucast (hwTimestamp C r)) rs"
    by blast
  have "parseAll C F env ty i (r # rs) (loc, st, res) = Inr (l2, s2, res)" using 1(1) 2(1) by simp
  moreover have "mReadStarts s2 (unat s) =
      mReadStarts st (unat s) @ map (\<lambda>r. ucast (hwTimestamp C r)) (r # rs)"
    using 1(2) 2(2) by simp
  ultimately show ?case by blast
qed

lemma hw_read_ends:
  assumes hw: "\<not> isHwEmu env"
  shows "i \<noteq> 0
     \<Longrightarrow> \<forall>r\<in>set rs. hwRead C s r \<and> EventType r = XCL_PERF_MON_END_EVENT \<and> Reserved r \<noteq> 1
     \<Longrightarrow> mReadStarts st (unat s) = q @ extra \<Longrightarrow> length q = length rs
     \<Longrightarrow> \<exists>loc' st' evs. parseAll C F env ty i rs (loc, st, res) = Inr (loc', st', res @ evs)
         \<and> map summary evs = map2 (\<lambda>v r. paired ''Read'' s v (ucast (hwTimestamp C r))) q rs
         \<and> mReadStarts st' (unat s) = extra"
proof (induction rs arbitrary: i loc st res q)
  case Nil
  then show ?case by simp
next
  case (Cons r rs)
  from Cons.prems(4) obtain v vs where q: "q = v # vs" "length vs = length rs"
    by (cases q) auto
  from Cons.prems(2) have r: "hwRead C s r" "EventType r = XCL_PERF_MON_END_EVENT" "Reserved r \<noteq> 1"
    and rs: "\<forall>r\<in>set rs. hwRead C s r \<and> EventType r = XCL_PERF_MON_END_EVENT \<and> Reserved r \<noteq> 1"
    by simp_all
  have qs: "mReadStarts st (unat s) = v # (vs @ extra)" using Cons.prems(3) q by simp
  from hw_read_end_at [OF hw Cons.prems(1) r qs, of F ty loc res]
  obtain l1 s1 e where 1: "parseSample C F env ty i r (loc, st, res) = Inr (l1, s1, res @ [e])"
    "summary e = paired ''Read'' s v (ucast (hwTimestamp C r))"
    "mReadStarts s1 (unat s) = vs @ extra" by blast
  have "Suc i \<noteq> 0" by simp
  from Cons.IH [OF this rs 1(3) q(2), of l1 "res @ [e]"]
  obtain l2 s2 evs where 2: "parseAll C F env ty (Suc i) rs (l1, s1, res @ [e]) = Inr (l2, s2, (res @ [e]) @ evs)"
    "map summary evs = map2 (\<lambda>v r. paired ''Read'' s v (ucast (hwTimestamp C r))) vs rs"
    "mReadStarts s2 (unat s) = extra" by blast
  have "parseAll C F env ty i (r # rs) (loc, st, res) = Inr (l2, s2, res @ (e # evs))"
    using 1(1) 2(1) by simp
  moreover have "map summary (e # evs) = map2 (\<lambda>v r. paired ''Read'' s v (ucast (hwTimestamp C r))) q (r # rs)"
    using 1(2) 2(2) q(1) by simp
  ultimately show ?case using 2(3) by blast
qed

lemma hw_read_fifo:
  assumes hw: "\<not> isHwEmu env" and i: "i \<noteq> 0"
    and starts: "\<forall>r\<in>set starts. hwRead C s r \<and> EventType r = XCL_PERF_MON_START_EVENT"
    and ends: "\<forall>r\<in>set ends. hwRead C s r \<and> EventType r = XCL_PERF_MON_END_EVENT \<and> Reserved r \<noteq> 1"
    and len: "length starts = length ends"
    and empty: "mReadStarts st (unat s) = []"
  shows "\<exists>loc' st' evs. parseAll C F env ty i (starts @ ends) (loc, st, res) = Inr (loc', st', res @ evs)
     \<and> map summary evs = map2 (\<lambda>a b. paired ''Read'' s (ucast (hwTimestamp C a)) (ucast (hwTimestamp C b)))
           starts ends
     \<and> mReadStarts st' (unat s) = []"
proof -
  from hw_read_starts [OF hw i starts, of F ty loc st res]
  obtain l1 s1 where 1: "parseAll C F env ty i starts (loc, st, res) = Inr (l1, s1, res)"
    "mReadStarts s1 (unat s) = mReadStarts st (unat s) @ map (\<lambda>r. ucast (hwTimestamp C r)) starts"
    by blast
  have q: "mReadStarts s1 (unat s) = map (\<lambda>r. ucast (hwTimestamp C r)) starts @ []"
    using 1(2) empty by simp
  have n: "i + length starts \<noteq> 0" using i by simp
  have l: "length (map (\<lambda>r. ucast (hwTimestamp C r) :: 64 word) starts) = length ends" using len by simp
  from hw_read_ends [OF hw n ends q l, of F ty l1 res]
  obtain l2 s2 evs where 2: "parseAll C F env ty (i + length starts) ends (l1, s1, res) = Inr (l2, s2, res @ evs)"
    "map summary evs = map2 (\<lambda>v r. paired ''Read'' s v (ucast (hwTimestamp C r)))
        (map (\<lambda>r. ucast (hwTimestamp C r)) starts) ends"
    "mReadStarts s2 (unat s) = []" by blast
  have "parseAll C F env ty i (starts @ ends) (loc, st, res) = Inr (l2, s2, res @ evs)"
    using 1(1) 2(1) by (simp add: parseAll_append)
  moreover have "map summary evs = map2 (\<lambda>a b. paired ''Read'' s (ucast (hwTimestamp C a)) (ucast (hwTimestamp C b)))
           starts ends"
    using 2(2) by (simp add: zip_map1 case_prod_unfold)
  ultimately show ?thesis using 2(3) by blast
qed

lemma hw_write_start_at:
  assumes hw: "\<not> isHwEmu env" and i: "i \<noteq> 0"
    and r: "hwWrite C s r" and ev: "EventType r = XCL_PERF_MON_START_EVENT"
  shows "\<exists>loc' st'. parseSample C F env ty i r (loc, st, res) = Inr (loc', st', res)
      \<and> mWriteStarts st' (unat s) = mWriteStarts st (unat s) @ [ucast (hwTimestamp C r)]"
proof -
  from r have id: "2 \<le> TraceID r" "TraceID r \<le> 61" "\<not> IS_READ C (TraceID r)" "IS_WRITE C (TraceID r)"
    and s: "TraceID r div 2 = s" by (simp_all add: hwWrite_def)
  from hw_write_start [OF hw i id ev, of F ty loc st res]
  obtain loc' st' where 1: "parseSample C F env ty i r (loc, st, res) = Inr (loc', st', res)"
    and 2: "mWriteStarts st' = (mWriteStarts st)(unat (TraceID r div 2) :=
            mWriteStarts st (unat (TraceID r div 2)) @ [ucast (hwTimestamp C r)])" by blast
  have "mWriteStarts st' (unat s) = mWriteStarts st (unat s) @ [ucast (hwTimestamp C r)]"
    unfolding 2 s by simp
  with 1 show ?thesis by blast
qed

lemma hw_write_end_at:
  assumes hw: "\<not> isHwEmu env" and i: "i \<noteq> 0"
    and r: "hwWrite C s r" and ev: "EventType r = XCL_PERF_MON_END_EVENT"
    and rsv: "Reserved r \<noteq> 1" and q: "mWriteStarts st (unat s) = v # vs"
  shows "\<exists>loc' st' e. parseSample C F env ty i r (loc, st, res) = Inr (loc', st', res @ [e])
      \<and> summary e = paired ''Write'' s v (ucast (hwTimestamp C r))
      \<and> mWriteStarts st' (unat s) = vs"
proof -
  from r have id: "2 \<le> TraceID r" "TraceID r \<le> 61" "\<not> IS_READ C (TraceID r)" "IS_WRITE C (TraceID r)"
    and s: "TraceID r div 2 = s" by (simp_all add: hwWrite_def)
  from hw_write_end [OF hw i id ev, of F ty loc st res]
  obtain loc' st' e where 1: "parseSample C F env ty i r (loc, st, res) = Inr (loc', st', res @ [e])"
    and e: "Type e = ''Write''" "SlotNum e = TraceID r div 2" "EndTime e = ucast (hwTimestamp C r)"
      "StartTime e = (if Reserved r = 1 then ucast (hwTimestamp C r)
                        else case mWriteStarts st (unat (TraceID r div 2)) of
                               [] \<Rightarrow> ucast (hwTimestamp C r) | v # vs \<Rightarrow> v)"
      "BurstLength e = EndTime e - StartTime e + 1"
    and 2: "mWriteStarts st' = (if Reserved r = 1 then mWriteStarts st
                        else case mWriteStarts st (unat (TraceID r div 2)) of [] \<Rightarrow> mWriteStarts st
                             | v # vs \<Rightarrow> (mWriteStarts st)(unat (TraceID r div 2) := vs))" by blast
  have "mWriteStarts st' (unat s) = vs" unfolding 2 s using rsv q by simp
  moreover have "summary e = paired ''Write'' s v (ucast (hwTimestamp C r))"
    using e rsv q s by (simp add: summary_def paired_def)
  ultimately show ?thesis using 1 by blast
qed

lemma hw_write_starts:
  assumes hw: "\<not> isHwEmu env"
  shows "i \<noteq> 0 \<Longrightarrow> \<forall>r\<in>set rs. hwWrite C s r \<and> EventType r = XCL_PERF_MON_START_EVENT
     \<Longrightarrow> \<exists>loc' st'. parseAll C F env ty i rs (loc, st, res) = Inr (loc', st', res)
         \<and> mWriteStarts st' (unat s) =
               mWriteStarts st (unat s) @ map (\<lambda>r. ucast (hwTimestamp C r)) rs"
proof (induction rs arbitrary: i loc st)
  case Nil
  then show ?case by simp
next
  case (Cons r rs)
  from Cons.prems(2) have r: "hwWrite C s r" "EventType r = XCL_PERF_MON_START_EVENT"
    and rs: "\<forall>r\<in>set rs. hwWrite C s r \<and> EventType r = XCL_PERF_MON_START_EVENT" by simp_all
  from hw_write_start_at [OF hw Cons.prems(1) r, of F ty loc st res]
  obtain l1 s1 where 1: "parseSample C F env ty i r (loc, st, res) = Inr (l1, s1, res)"
    "mWriteStarts s1 (unat s) = mWriteStarts st (unat s) @ [ucast (hwTimestamp C r)]" by blast
  have "Suc i \<noteq> 0" by simp
  from Cons.IH [OF this rs, of l1 s1]
  obtain l2 s2 where 2: "parseAll C F env ty (Suc i) rs (l1, s1, res) = Inr (l2, s2, res)"
    "mWriteStarts s2 (unat s) = mWriteStarts s1 (unat s) @ map (\<lambda>r. ucast (hwTimestamp C r)) rs"
    by blast
  have "parseAll C F env ty i (r # rs) (loc, st, res) = Inr (l2, s2, res)" using 1(1) 2(1) by simp
  moreover have "mWriteStarts s2 (unat s) =
      mWriteStarts st (unat s) @ map (\<lambda>r. ucast (hwTimestamp C r)) (r # rs)"
    using 1(2) 2(2) by simp
  ultimately show ?case by blast
qed

lemma hw_write_ends:
  assumes hw: "\<not> isHwEmu env"
  shows "i \<noteq> 0
     \<Longrightarrow> \<forall>r\<in>set rs. hwWrite C s r \<and> EventType r = XCL_PERF_MON_END_EVENT \<and> Reserved r \<noteq> 1
     \<Longrightarrow> mWriteStarts st (unat s) = q @ extra \<Longrightarrow> length q = length rs
     \<Longrightarrow> \<exists>loc' st' evs. parseAll C F env ty i rs (loc, st, res) = Inr (loc', st', res @ evs)
         \<and> map summary evs = map2 (\<lambda>v r. paired ''Write'' s v (ucast (hwTimestamp C r))) q rs
         \<and> mWriteStarts st' (unat s) = extra"
proof (induction rs arbitrary: i loc st res q)
  case Nil
  then show ?case by simp
next
  case (Cons r rs)
  from Cons.prems(4) obtain v vs where q: "q = v # vs" "length vs = length rs"
    by (cases q) auto
  from Cons.prems(2) have r: "hwWrite C s r" "EventType r = XCL_PERF_MON_END_EVENT" "Reserved r \<noteq> 1"
    and rs: "\<forall>r\<in>set rs. hwWrite C s r \<and> EventType r = XCL_PERF_MON_END_EVENT \<and> Reserved r \<noteq> 1"
    by simp_all
  have qs: "mWriteStarts st (unat s) = v # (vs @ extra)" using Cons.prems(3) q by simp
  from hw_write_end_at [OF hw Cons.prems(1) r qs, of F ty loc res]
  obtain l1 s1 e where 1: "parseSample C F env ty i r (loc, st, res) = Inr (l1, s1, res @ [e])"
    "summary e = paired ''Write'' s v (ucast (hwTimestamp C r))"
    "mWriteStarts s1 (unat s) = vs @ extra" by blast
  have "Suc i \<noteq> 0" by simp
  from Cons.IH [OF this rs 1(3) q(2), of l1 "res @ [e]"]
  obtain l2 s2 evs where 2: "parseAll C F env ty (Suc i) rs (l1, s1, res @ [e]) = Inr (l2, s2, (res @ [e]) @ evs)"
    "map summary evs = map2 (\<lambda>v r. paired ''Write'' s v (ucast (hwTimestamp C r))) vs rs"
    "mWriteStarts s2 (unat s) = extra" by blast
  have "parseAll C F env ty i (r # rs) (loc, st, res) = Inr (l2, s2, res @ (e # evs))"
    using 1(1) 2(1) by simp
  moreover have "map summary (e # evs) = map2 (\<lambda>v r. paired ''Write'' s v (ucast (hwTimestamp C r))) q (r # rs)"
    using 1(2) 2(2) q(1) by simp
  ultimately show ?case using 2(3) by blast
qed

lemma hw_write_fifo:
  assumes hw: "\<not> isHwEmu env" and i: "i \<noteq> 0"
    and starts: "\<forall>r\<in>set starts. hwWrite C s r \<and> EventType r = XCL_PERF_MON_START_EVENT"
    and ends: "\<forall>r\<in>set ends. hwWrite C s r \<and> EventType r = XCL_PERF_MON_END_EVENT \<and> Reserved r \<noteq> 1"
    and len: "length starts = length ends"
    and empty: "mWriteStarts st (unat s) = []"
  shows "\<exists>loc' st' evs. parseAll C F env ty i (starts @ ends) (loc, st, res) = Inr (loc', st', res @ evs)
     \<and> map summary evs = map2 (\<lambda>a b. paired ''Write'' s (ucast (hwTimestamp C a)) (ucast (hwTimestamp C b)))
           starts ends
     \<and> mWriteStarts st' (unat s) = []"
proof -
  from hw_write_starts [OF hw i starts, of F ty loc st res]
  obtain l1 s1 where 1: "parseAll C F env ty i starts (loc, st, res) = Inr (l1, s1, res)"
    "mWriteStarts s1 (unat s) = mWriteStarts st (unat s) @ map (\<lambda>r. ucast (hwTimestamp C r)) starts"
    by blast
  have q: "mWriteStarts s1 (unat s) = map (\<lambda>r. ucast (hwTimestamp C r)) starts @ []"
    using 1(2) empty by simp
  have n: "i + length starts \<noteq> 0" using i by simp
  have l: "length (map (\<lambda>r. ucast (hwTimestamp C r) :: 64 word) starts) = length ends" using len by simp
  from hw_write_ends [OF hw n ends q l, of F ty l1 res]
  obtain l2 s2 evs where 2: "parseAll C F env ty (i + length starts) ends (l1, s1, res) = Inr (l2, s2, res @ evs)"
    "map summary evs = map2 (\<lambda>v r. paired ''Write'' s v (ucast (hwTimestamp C r)))
        (map (\<lambda>r. ucast (hwTimestamp C r)) starts) ends"
    "mWriteStarts s2 (unat s) = []" by blast
  have "parseAll C F env ty i (starts @ ends) (loc, st, res) = Inr (l2, s2, res @ evs)"
    using 1(1) 2(1) by (simp add: parseAll_append)
  moreover have "map summary evs = map2 (\<lambda>a b. paired ''Write'' s (ucast (hwTimestamp C a)) (ucast (hwTimestamp C b)))
           starts ends"
    using 2(2) by (simp add: zip_map1 case_prod_unfold)
  ultimately show ?thesis using 2(3) by blast
qed

lemma emuStamps_append:
  "emuStamps C c (xs @ ys) = emuStamps C c xs @ emuStamps C (foldl (emuClockStep C) c xs) ys"
  by (induction xs arbitrary: c) simp_all

lemma emuNoSkip_append:
  "emuNoSkip C c (xs @ ys) = (emuNoSkip C c xs \<and> emuNoSkip C (foldl (emuClockStep C) c xs) ys)"
  by (induction xs arbitrary: c) simp_all

lemma length_emuStamps [simp]: "length (emuStamps C c rs) = length rs"
  by (induction rs arbitrary: c) simp_all

lemma emuMemory_read_start:
  assumes "emuFlags C r = (False, False, True, False)"
  shows "emuMemory C F r ts h st res =
     Inr (st\<lparr>mReadStarts := pushq (mReadStarts st) (unat (TraceID r div 2)) (ucast ts),
             mHostReadStarts := pushq (mHostReadStarts st) (unat (TraceID r div 2)) h\<rparr>, res)"
  using assms by (simp add: emuFlags_def emuMemory_def emuWriteStart_def emuReadStart_def Let_def)

lemma emuMemory_read_end:
  assumes "emuFlags C r = (False, False, False, True)"
    and "mReadStarts st (unat (TraceID r div 2)) \<noteq> []"
  shows "emuMemory C F r ts h st res = emuReadEnd C F (TraceID r div 2) ts h st res"
  using assms by (simp add: emuFlags_def emuMemory_def emuWriteStart_def emuReadStart_def Let_def)

lemma emuMemory_write_start:
  assumes "emuFlags C r = (True, False, False, False)"
  shows "emuMemory C F r ts h st res =
     Inr (st\<lparr>mWriteStarts := pushq (mWriteStarts st) (unat (TraceID r div 2)) (ucast ts),
             mHostWriteStarts := pushq (mHostWriteStarts st) (unat (TraceID r div 2)) h\<rparr>, res)"
  using assms by (simp add: emuFlags_def emuMemory_def emuWriteStart_def emuReadStart_def Let_def)

lemma emuMemory_write_end:
  assumes "emuFlags C r = (False, True, False, False)"
    and "mWriteStarts st (unat (TraceID r div 2)) \<noteq> []"
  shows "emuMemory C F r ts h st res =
     (case emuWriteEnd C F (TraceID r div 2) ts h st res of Inl e \<Rightarrow> Inl e | Inr a \<Rightarrow> Inr a)"
  using assms
  by (simp add: emuFlags_def emuMemory_def emuWriteStart_def emuReadStart_def Let_def
        split: sum.splits)

lemma emuReadEnd_cons:
  assumes "mReadStarts st (unat s) = v # vs" and "mHostReadStarts st (unat s) = hv # hvs"
  shows "\<exists>evs. emuReadEnd C F s ts h st res =
        Inr (st\<lparr>mReadStarts := popq (mReadStarts st) (unat s),
                mHostReadStarts := popq (mHostReadStarts st) (unat s)\<rparr>, res @ evs)
     \<and> map summary evs = (if emuPass F (mEmuTraceMsecOneCycle st) hv h
                          then [paired ''Read'' s v (ucast ts)] else [])"
proof (cases "emuPass F (mEmuTraceMsecOneCycle st) hv h")
  case True
  then show ?thesis
    using assms
    by (simp add: emuReadEnd_def frontq_def Let_def emuPass_def summary_def paired_def
          split: if_splits)
next
  case False
  then have "emuReadEnd C F s ts h st res =
        Inr (st\<lparr>mReadStarts := popq (mReadStarts st) (unat s),
                mHostReadStarts := popq (mHostReadStarts st) (unat s)\<rparr>, res @ [])"
    using assms
    by (simp add: emuReadEnd_def frontq_def Let_def emuPass_def split: if_splits)
  with False show ?thesis by (metis list.simps(8))
qed

lemma emuWriteEnd_cons:
  assumes "mWriteStarts st (unat s) = v # vs" and "mHostWriteStarts st (unat s) = hv # hvs"
  shows "\<exists>evs. emuWriteEnd C F s ts h st res =
        Inr (st\<lparr>mWriteStarts := popq (mWriteStarts st) (unat s),
                mHostWriteStarts := popq (mHostWriteStarts st) (unat s)\<rparr>, res @ evs)
     \<and> map summary evs = (if emuPass F (mEmuTraceMsecOneCycle st) hv h
                          then [paired ''Write'' s v (ucast ts)] else [])"
proof (cases "emuPass F (mEmuTraceMsecOneCycle st) hv h")
  case True
  then show ?thesis
    using assms
    by (simp add: emuWriteEnd_def frontq_def Let_def emuPass_def summary_def paired_def
          split: if_splits)
next
  case False
  then have "emuWriteEnd C F s ts h st res =
        Inr (st\<lparr>mWriteStarts := popq (mWriteStarts st) (unat s),
                mHostWriteStarts := popq (mHostWriteStarts st) (unat s)\<rparr>, res @ [])"
    using assms
    by (simp add: emuWriteEnd_def frontq_def Let_def emuPass_def split: if_splits)
  with False show ?thesis by (metis list.simps(8))
qed

lemma emu_read_start_at:
  assumes emu: "isHwEmu env"
    and ns: "HostTimestamp r \<noteq> ucast (prevHostTimestamp loc) \<or> Timestamp r \<noteq> 1"
    and r: "emuIsReadStart C s r"
  shows "\<exists>loc' st'. parseSample C F env ty i r (loc, st, res) = Inr (loc', st', res)
      \<and> emuClockOf ty loc' st' = emuClockStep C (emuClockOf ty loc st) r
      \<and> mReadStarts st' (unat s) =
           mReadStarts st (unat s) @ [ucast (fst (emuStamp C (emuClockOf ty loc st) r))]
      \<and> mHostReadStarts st' (unat s) =
           mHostReadStarts st (unat s) @ [snd (emuStamp C (emuClockOf ty loc st) r)]
      \<and> mEmuTraceMsecOneCycle st' = mEmuTraceMsecOneCycle st"
proof -
  obtain h start' where g: "getTimestampNsec C (mStartTimeNsec st) (HostTimestamp r) = (h, start')"
    by (rule prod.exhaust)
  have nd: "\<not> duplicateHostTimestamp loc r" using ns by (auto simp: duplicateHostTimestamp_def)
  from r have id: "TraceID r < 61" and s: "TraceID r div 2 = s"
    and f: "emuFlags C r = (False, False, True, False)" by (simp_all add: emuIsReadStart_def)
  show ?thesis
    by (simp add: parseSample_emu_mem [OF emu nd id g] emuMemory_read_start [OF f] s g
          emuClockOf_def emuClockStep_def emuStamp_def pushq_def)
qed

lemma emu_write_start_at:
  assumes emu: "isHwEmu env"
    and ns: "HostTimestamp r \<noteq> ucast (prevHostTimestamp loc) \<or> Timestamp r \<noteq> 1"
    and r: "emuIsWriteStart C s r"
  shows "\<exists>loc' st'. parseSample C F env ty i r (loc, st, res) = Inr (loc', st', res)
      \<and> emuClockOf ty loc' st' = emuClockStep C (emuClockOf ty loc st) r
      \<and> mWriteStarts st' (unat s) =
           mWriteStarts st (unat s) @ [ucast (fst (emuStamp C (emuClockOf ty loc st) r))]
      \<and> mHostWriteStarts st' (unat s) =
           mHostWriteStarts st (unat s) @ [snd (emuStamp C (emuClockOf ty loc st) r)]
      \<and> mEmuTraceMsecOneCycle st' = mEmuTraceMsecOneCycle st"
proof -
  obtain h start' where g: "getTimestampNsec C (mStartTimeNsec st) (HostTimestamp r) = (h, start')"
    by (rule prod.exhaust)
  have nd: "\<not> duplicateHostTimestamp loc r" using ns by (auto simp: duplicateHostTimestamp_def)
  from r have id: "TraceID r < 61" and s: "TraceID r div 2 = s"
    and f: "emuFlags C r = (True, False, False, False)" by (simp_all add: emuIsWriteStart_def)
  show ?thesis
    by (simp add: parseSample_emu_mem [OF emu nd id g] emuMemory_write_start [OF f] s g
          emuClockOf_def emuClockStep_def emuStamp_def pushq_def)
qed

lemma emu_read_end_at:
  assumes emu: "isHwEmu env"
    and ns: "HostTimestamp r \<noteq> ucast (prevHostTimestamp loc) \<or> Timestamp r \<noteq> 1"
    and r: "emuIsReadEnd C s r"
    and q: "mReadStarts st (unat s) = v # vs" and hq: "mHostReadStarts st (unat s) = hv # hvs"
  shows "\<exists>loc' st' evs. parseSample C F env ty i r (loc, st, res) = Inr (loc', st', res @ evs)
      \<and> map summary evs =
          (if emuPass F (mEmuTraceMsecOneCycle st) hv (snd (emuStamp C (emuClockOf ty loc st) r))
           then [paired ''Read'' s v (ucast (fst (emuStamp C (emuClockOf ty loc st) r)))] else [])
      \<and> emuClockOf ty loc' st' = emuClockStep C (emuClockOf ty loc st) r
      \<and> mReadStarts st' (unat s) = vs \<and> mHostReadStarts st' (unat s) = hvs
      \<and> mEmuTraceMsecOneCycle st' = mEmuTraceMsecOneCycle st"
proof -
  obtain h start' where g: "getTimestampNsec C (mStartTimeNsec st) (HostTimestamp r) = (h, start')"
    by (rule prod.exhaust)
  have nd: "\<not> duplicateHostTimestamp loc r" using ns by (auto simp: duplicateHostTimestamp_def)
  from r have id: "TraceID r < 61" and s: "TraceID r div 2 = s"
    and f: "emuFlags C r = (False, False, False, True)" by (simp_all add: emuIsReadEnd_def)
  define ts where "ts = emuTimestamp C (mPrevTimestamp st ty) r"
  define st1 where "st1 = st\<lparr>mPrevTimestamp := (mPrevTimestamp st)(ty := ts), mStartTimeNsec := start'\<rparr>"
  have q1: "mReadStarts st1 (unat s) = v # vs" "mHostReadStarts st1 (unat s) = hv # hvs"
    using q hq by (simp_all add: st1_def)
  have ne: "mReadStarts st1 (unat (TraceID r div 2)) \<noteq> []" using q1 s by simp
  from emuReadEnd_cons [OF q1, of C F ts h res]
  obtain evs where e: "emuReadEnd C F s ts h st1 res =
        Inr (st1\<lparr>mReadStarts := popq (mReadStarts st1) (unat s),
                mHostReadStarts := popq (mHostReadStarts st1) (unat s)\<rparr>, res @ evs)"
    "map summary evs = (if emuPass F (mEmuTraceMsecOneCycle st1) hv h
                          then [paired ''Read'' s v (ucast ts)] else [])" by blast
  have p: "parseSample C F env ty i r (loc, st, res) =
      Inr (loc\<lparr>prevHostTimestamp := ucast (HostTimestamp r)\<rparr>,
           st1\<lparr>mReadStarts := popq (mReadStarts st1) (unat s),
                mHostReadStarts := popq (mHostReadStarts st1) (unat s)\<rparr>, res @ evs)"
    unfolding parseSample_emu_mem [OF emu nd id g] ts_def [symmetric] st1_def [symmetric]
    using emuMemory_read_end [OF f ne, of F ts h res] e(1) s by simp
  have st: "emuStamp C (emuClockOf ty loc st) r = (ts, h)"
    by (simp add: emuStamp_def emuClockOf_def ts_def g)
  show ?thesis
    unfolding p st using e(2) q1
    by (simp add: emuClockOf_def emuClockStep_def st1_def popq_def ts_def g)
qed

lemma emu_write_end_at:
  assumes emu: "isHwEmu env"
    and ns: "HostTimestamp r \<noteq> ucast (prevHostTimestamp loc) \<or> Timestamp r \<noteq> 1"
    and r: "emuIsWriteEnd C s r"
    and q: "mWriteStarts st (unat s) = v # vs" and hq: "mHostWriteStarts st (unat s) = hv # hvs"
  shows "\<exists>loc' st' evs. parseSample C F env ty i r (loc, st, res) = Inr (loc', st', res @ evs)
      \<and> map summary evs =
          (if emuPass F (mEmuTraceMsecOneCycle st) hv (snd (emuStamp C (emuClockOf ty loc st) r))
           then [paired ''Write'' s v (ucast (fst (emuStamp C (emuClockOf ty loc st) r)))] else [])
      \<and> emuClockOf ty loc' st' = emuClockStep C (emuClockOf ty loc st) r
      \<and> mWriteStarts st' (unat s) = vs \<and> mHostWriteStarts st' (unat s) = hvs
      \<and> mEmuTraceMsecOneCycle st' = mEmuTraceMsecOneCycle st"
proof -
  obtain h start' where g: "getTimestampNsec C (mStartTimeNsec st) (HostTimestamp r) = (h, start')"
    by (rule prod.exhaust)
  have nd: "\<not> duplicateHostTimestamp loc r" using ns by (auto simp: duplicateHostTimestamp_def)
  from r have id: "TraceID r < 61" and s: "TraceID r div 2 = s"
    and f: "emuFlags C r = (False, True, False, False)" by (simp_all add: emuIsWriteEnd_def)
  define ts where "ts = emuTimestamp C (mPrevTimestamp st ty) r"
  define st1 where "st1 = st\<lparr>mPrevTimestamp := (mPrevTimestamp st)(ty := ts), mStartTimeNsec := start'\<rparr>"
  have q1: "mWriteStarts st1 (unat s) = v # vs" "mHostWriteStarts st1 (unat s) = hv # hvs"
    using q hq by (simp_all add: st1_def)
  have ne: "mWriteStarts st1 (unat (TraceID r div 2)) \<noteq> []" using q1 s by simp
  from emuWriteEnd_cons [OF q1, of C F ts h res]
  obtain evs where e: "emuWriteEnd C F s ts h st1 res =
        Inr (st1\<lparr>mWriteStarts := popq (mWriteStarts st1) (unat s),
                mHostWriteStarts := popq (mHostWriteStarts st1) (unat s)\<rparr>, res @ evs)"
    "map summary evs = (if emuPass F (mEmuTraceMsecOneCycle st1) hv h
                          then [paired ''Write'' s v (ucast ts)] else [])" by blast
  have p: "parseSample C F env ty i r (loc, st, res) =
      Inr (loc\<lparr>prevHostTimestamp := ucast (HostTimestamp r)\<rparr>,
           st1\<lparr>mWriteStarts := popq (mWriteStarts st1) (unat s),
                mHostWriteStarts := popq (mHostWriteStarts st1) (unat s)\<rparr>, res @ evs)"
    unfolding parseSample_emu_mem [OF emu nd id g] ts_def [symmetric] st1_def [symmetric]
    using emuMemory_write_end [OF f ne, of F ts h res] e(1) s by simp
  have st: "emuStamp C (emuClockOf ty loc st) r = (ts, h)"
    by (simp add: emuStamp_def emuClockOf_def ts_def g)
  show ?thesis
    unfolding p st using e(2) q1
    by (simp add: emuClockOf_def emuClockStep_def st1_def popq_def ts_def g)
qed

lemma emu_read_starts:
  assumes emu: "isHwEmu env"
  shows "emuNoSkip C (emuClockOf ty loc st) rs \<Longrightarrow> \<forall>r\<in>set rs. emuIsReadStart C s r
     \<Longrightarrow> \<exists>loc' st'. parseAll C F env ty i rs (loc, st, res) = Inr (loc', st', res)
         \<and> emuClockOf ty loc' st' = foldl (emuClockStep C) (emuClockOf ty loc st) rs
         \<and> mReadStarts st' (unat s) = mReadStarts st (unat s)
               @ map (\<lambda>p. ucast (fst p)) (emuStamps C (emuClockOf ty loc st) rs)
         \<and> mHostReadStarts st' (unat s) = mHostReadStarts st (unat s)
               @ map snd (emuStamps C (emuClockOf ty loc st) rs)
         \<and> mEmuTraceMsecOneCycle st' = mEmuTraceMsecOneCycle st"
proof (induction rs arbitrary: i loc st)
  case Nil
  then show ?case by simp
next
  case (Cons r rs)
  from Cons.prems(1) have ns: "HostTimestamp r \<noteq> ucast (prevHostTimestamp loc) \<or> Timestamp r \<noteq> 1"
    and nss: "emuNoSkip C (emuClockStep C (emuClockOf ty loc st) r) rs"
    by (simp_all add: emuClockOf_def)
  from Cons.prems(2) have r: "emuIsReadStart C s r" and rs: "\<forall>r\<in>set rs. emuIsReadStart C s r"
    by simp_all
  from emu_read_start_at [OF emu ns r, of F ty i st res]
  obtain l1 s1 where 1: "parseSample C F env ty i r (loc, st, res) = Inr (l1, s1, res)"
    "emuClockOf ty l1 s1 = emuClockStep C (emuClockOf ty loc st) r"
    "mReadStarts s1 (unat s) =
           mReadStarts st (unat s) @ [ucast (fst (emuStamp C (emuClockOf ty loc st) r))]"
    "mHostReadStarts s1 (unat s) =
           mHostReadStarts st (unat s) @ [snd (emuStamp C (emuClockOf ty loc st) r)]"
    "mEmuTraceMsecOneCycle s1 = mEmuTraceMsecOneCycle st" by blast
  from Cons.IH [OF nss [folded 1(2)] rs, of "Suc i"]
  obtain l2 s2 where 2: "parseAll C F env ty (Suc i) rs (l1, s1, res) = Inr (l2, s2, res)"
    "emuClockOf ty l2 s2 = foldl (emuClockStep C) (emuClockOf ty l1 s1) rs"
    "mReadStarts s2 (unat s) = mReadStarts s1 (unat s)
               @ map (\<lambda>p. ucast (fst p)) (emuStamps C (emuClockOf ty l1 s1) rs)"
    "mHostReadStarts s2 (unat s) = mHostReadStarts s1 (unat s)
               @ map snd (emuStamps C (emuClockOf ty l1 s1) rs)"
    "mEmuTraceMsecOneCycle s2 = mEmuTraceMsecOneCycle s1" by blast
  have "parseAll C F env ty i (r # rs) (loc, st, res) = Inr (l2, s2, res)" using 1(1) 2(1) by simp
  moreover have "emuClockOf ty l2 s2 = foldl (emuClockStep C) (emuClockOf ty loc st) (r # rs)"
    using 2(2) 1(2) by simp
  moreover have "mReadStarts s2 (unat s) = mReadStarts st (unat s)
               @ map (\<lambda>p. ucast (fst p)) (emuStamps C (emuClockOf ty loc st) (r # rs))"
    using 2(3) 1(2,3) by simp
  moreover have "mHostReadStarts s2 (unat s) = mHostReadStarts st (unat s)
               @ map snd (emuStamps C (emuClockOf ty loc st) (r # rs))"
    using 2(4) 1(2,4) by simp
  moreover have "mEmuTraceMsecOneCycle s2 = mEmuTraceMsecOneCycle st" using 1(5) 2(5) by simp
  ultimately show ?case by blast
qed

lemma emu_read_ends:
  assumes emu: "isHwEmu env"
  shows "emuNoSkip C (emuClockOf ty loc st) rs \<Longrightarrow> \<forall>r\<in>set rs. emuIsReadEnd C s r
     \<Longrightarrow> mReadStarts st (unat s) = map fst qs @ extra
     \<Longrightarrow> mHostReadStarts st (unat s) = map snd qs @ hextra
     \<Longrightarrow> length qs = length rs
     \<Longrightarrow> \<exists>loc' st' evs. parseAll C F env ty i rs (loc, st, res) = Inr (loc', st', res @ evs)
         \<and> map summary evs =
             map (\<lambda>p. paired ''Read'' s (fst (fst p)) (ucast (fst (snd p))))
               (filter (\<lambda>p. emuPass F (mEmuTraceMsecOneCycle st) (snd (fst p)) (snd (snd p)))
                  (zip qs (emuStamps C (emuClockOf ty loc st) rs)))
         \<and> mReadStarts st' (unat s) = extra \<and> mHostReadStarts st' (unat s) = hextra"
proof (induction rs arbitrary: i loc st res qs)
  case Nil
  then show ?case by simp
next
  case (Cons r rs)
  from Cons.prems(5) obtain v hv qs' where qs: "qs = (v, hv) # qs'" "length qs' = length rs"
    by (cases qs) auto
  from Cons.prems(1) have ns: "HostTimestamp r \<noteq> ucast (prevHostTimestamp loc) \<or> Timestamp r \<noteq> 1"
    and nss: "emuNoSkip C (emuClockStep C (emuClockOf ty loc st) r) rs"
    by (simp_all add: emuClockOf_def)
  from Cons.prems(2) have r: "emuIsReadEnd C s r" and rs: "\<forall>r\<in>set rs. emuIsReadEnd C s r"
    by simp_all
  have q: "mReadStarts st (unat s) = v # (map fst qs' @ extra)"
    "mHostReadStarts st (unat s) = hv # (map snd qs' @ hextra)"
    using Cons.prems(3,4) qs(1) by simp_all
  from emu_read_end_at [OF emu ns r q, of F ty i res]
  obtain l1 s1 e1 where 1: "parseSample C F env ty i r (loc, st, res) = Inr (l1, s1, res @ e1)"
    "map summary e1 =
          (if emuPass F (mEmuTraceMsecOneCycle st) hv (snd (emuStamp C (emuClockOf ty loc st) r))
           then [paired ''Read'' s v (ucast (fst (emuStamp C (emuClockOf ty loc st) r)))] else [])"
    "emuClockOf ty l1 s1 = emuClockStep C (emuClockOf ty loc st) r"
    "mReadStarts s1 (unat s) = map fst qs' @ extra" "mHostReadStarts s1 (unat s) = map snd qs' @ hextra"
    "mEmuTraceMsecOneCycle s1 = mEmuTraceMsecOneCycle st" by blast
  from Cons.IH [OF nss [folded 1(3)] rs 1(4,5) qs(2), of "Suc i" "res @ e1"]
  obtain l2 s2 e2 where 2: "parseAll C F env ty (Suc i) rs (l1, s1, res @ e1) = Inr (l2, s2, (res @ e1) @ e2)"
    "map summary e2 =
             map (\<lambda>p. paired ''Read'' s (fst (fst p)) (ucast (fst (snd p))))
               (filter (\<lambda>p. emuPass F (mEmuTraceMsecOneCycle s1) (snd (fst p)) (snd (snd p)))
                  (zip qs' (emuStamps C (emuClockOf ty l1 s1) rs)))"
    "mReadStarts s2 (unat s) = extra" "mHostReadStarts s2 (unat s) = hextra" by blast
  have "parseAll C F env ty i (r # rs) (loc, st, res) = Inr (l2, s2, res @ (e1 @ e2))"
    using 1(1) 2(1) by simp
  moreover have "map summary (e1 @ e2) =
             map (\<lambda>p. paired ''Read'' s (fst (fst p)) (ucast (fst (snd p))))
               (filter (\<lambda>p. emuPass F (mEmuTraceMsecOneCycle st) (snd (fst p)) (snd (snd p)))
                  (zip qs (emuStamps C (emuClockOf ty loc st) (r # rs))))"
    using 1(2,3,6) 2(2) qs(1) by simp
  ultimately show ?case using 2(3,4) by blast
qed

lemma emu_read_fifo:
  assumes emu: "isHwEmu env"
    and ns: "emuNoSkip C (emuClockOf ty loc st) (starts @ ends)"
    and starts: "\<forall>r\<in>set starts. emuIsReadStart C s r"
    and ends: "\<forall>r\<in>set ends. emuIsReadEnd C s r"
    and len: "length starts = length ends"
    and empty: "mReadStarts st (unat s) = []" "mHostReadStarts st (unat s) = []"
  shows "\<exists>loc' st' evs. parseAll C F env ty i (starts @ ends) (loc, st, res) = Inr (loc', st', res @ evs)
     \<and> map summary evs =
         map (\<lambda>p. paired ''Read'' s (ucast (fst (fst p))) (ucast (fst (snd p))))
           (filter (\<lambda>p. emuPass F (mEmuTraceMsecOneCycle st) (snd (fst p)) (snd (snd p)))
              (zip (take (length starts) (emuStamps C (emuClockOf ty loc st) (starts @ ends)))
                   (drop (length starts) (emuStamps C (emuClockOf ty loc st) (starts @ ends)))))
     \<and> mReadStarts st' (unat s) = [] \<and> mHostReadStarts st' (unat s) = []"
proof -
  define c where "c = emuClockOf ty loc st"
  define ss where "ss = emuStamps C c starts"
  define c1 where "c1 = foldl (emuClockStep C) c starts"
  define es where "es = emuStamps C c1 ends"
  have all: "emuStamps C c (starts @ ends) = ss @ es"
    by (simp add: emuStamps_append ss_def es_def c1_def)
  have n1: "emuNoSkip C c starts" and n2: "emuNoSkip C c1 ends"
    using ns by (simp_all add: emuNoSkip_append c_def c1_def)
  from emu_read_starts [OF emu n1 [unfolded c_def] starts, of F i res]
  obtain l1 s1 where 1: "parseAll C F env ty i starts (loc, st, res) = Inr (l1, s1, res)"
    "emuClockOf ty l1 s1 = c1"
    "mReadStarts s1 (unat s) = map (\<lambda>p. ucast (fst p)) ss"
    "mHostReadStarts s1 (unat s) = map snd ss"
    "mEmuTraceMsecOneCycle s1 = mEmuTraceMsecOneCycle st"
    using empty by (auto simp: c_def c1_def ss_def)
  define qs :: "(64 word \<times> 64 word) list" where "qs = map (\<lambda>p. (ucast (fst p), snd p)) ss"
  have q: "mReadStarts s1 (unat s) = map fst qs @ []" "mHostReadStarts s1 (unat s) = map snd qs @ []"
    using 1(3,4) by (simp_all add: qs_def comp_def)
  have l: "length qs = length ends" using len by (simp add: qs_def ss_def)
  from emu_read_ends [OF emu n2 [folded 1(2)] ends q l, of F "i + length starts" res]
  obtain l2 s2 evs where 2: "parseAll C F env ty (i + length starts) ends (l1, s1, res) = Inr (l2, s2, res @ evs)"
    "map summary evs =
             map (\<lambda>p. paired ''Read'' s (fst (fst p)) (ucast (fst (snd p))))
               (filter (\<lambda>p. emuPass F (mEmuTraceMsecOneCycle s1) (snd (fst p)) (snd (snd p)))
                  (zip qs (emuStamps C (emuClockOf ty l1 s1) ends)))"
    "mReadStarts s2 (unat s) = []" "mHostReadStarts s2 (unat s) = []" by blast
  have p: "parseAll C F env ty i (starts @ ends) (loc, st, res) = Inr (l2, s2, res @ evs)"
    using 1(1) 2(1) by (simp add: parseAll_append)
  have z: "zip qs es = map (\<lambda>p. ((ucast (fst (fst p)), snd (fst p)), snd p)) (zip ss es)"
    by (simp add: qs_def zip_map1 case_prod_unfold)
  have "map summary evs =
         map (\<lambda>p. paired ''Read'' s (ucast (fst (fst p))) (ucast (fst (snd p))))
           (filter (\<lambda>p. emuPass F (mEmuTraceMsecOneCycle st) (snd (fst p)) (snd (snd p))) (zip ss es))"
    using 2(2) unfolding 1(2) 1(5) es_def [symmetric] z
    by (simp add: filter_map comp_def)
  moreover have "take (length starts) (ss @ es) = ss" "drop (length starts) (ss @ es) = es"
    by (simp_all add: ss_def)
  ultimately show ?thesis
    using p 2(3,4) unfolding c_def [symmetric] all by auto
qed

lemma emu_write_starts:
  assumes emu: "isHwEmu env"
  shows "emuNoSkip C (emuClockOf ty loc st) rs \<Longrightarrow> \<forall>r\<in>set rs. emuIsWriteStart C s r
     \<Longrightarrow> \<exists>loc' st'. parseAll C F env ty i rs (loc, st, res) = Inr (loc', st', res)
         \<and> emuClockOf ty loc' st' = foldl (emuClockStep C) (emuClockOf ty loc st) rs
         \<and> mWriteStarts st' (unat s) = mWriteStarts st (unat s)
               @ map (\<lambda>p. ucast (fst p)) (emuStamps C (emuClockOf ty loc st) rs)
         \<and> mHostWriteStarts st' (unat s) = mHostWriteStarts st (unat s)
               @ map snd (emuStamps C (emuClockOf ty loc st) rs)
         \<and> mEmuTraceMsecOneCycle st' = mEmuTraceMsecOneCycle st"
proof (induction rs arbitrary: i loc st)
  case Nil
  then show ?case by simp
next
  case (Cons r rs)
  from Cons.prems(1) have ns: "HostTimestamp r \<noteq> ucast (prevHostTimestamp loc) \<or> Timestamp r \<noteq> 1"
    and nss: "emuNoSkip C (emuClockStep C (emuClockOf ty loc st) r) rs"
    by (simp_all add: emuClockOf_def)
  from Cons.prems(2) have r: "emuIsWriteStart C s r" and rs: "\<forall>r\<in>set rs. emuIsWriteStart C s r"
    by simp_all
  from emu_write_start_at [OF emu ns r, of F ty i st res]
  obtain l1 s1 where 1: "parseSample C F env ty i r (loc, st, res) = Inr (l1, s1, res)"
    "emuClockOf ty l1 s1 = emuClockStep C (emuClockOf ty loc st) r"
    "mWriteStarts s1 (unat s) =
           mWriteStarts st (unat s) @ [ucast (fst (emuStamp C (emuClockOf ty loc st) r))]"
    "mHostWriteStarts s1 (unat s) =
           mHostWriteStarts st (unat s) @ [snd (emuStamp C (emuClockOf ty loc st) r)]"
    "mEmuTraceMsecOneCycle s1 = mEmuTraceMsecOneCycle st" by blast
  from Cons.IH [OF nss [folded 1(2)] rs, of "Suc i"]
  obtain l2 s2 where 2: "parseAll C F env ty (Suc i) rs (l1, s1, res) = Inr (l2, s2, res)"
    "emuClockOf ty l2 s2 = foldl (emuClockStep C) (emuClockOf ty l1 s1) rs"
    "mWriteStarts s2 (unat s) = mWriteStarts s1 (unat s)
               @ map (\<lambda>p. ucast (fst p)) (emuStamps C (emuClockOf ty l1 s1) rs)"
    "mHostWriteStarts s2 (unat s) = mHostWriteStarts s1 (unat s)
               @ map snd (emuStamps C (emuClockOf ty l1 s1) rs)"
    "mEmuTraceMsecOneCycle s2 = mEmuTraceMsecOneCycle s1" by blast
  have "parseAll C F env ty i (r # rs) (loc, st, res) = Inr (l2, s2, res)" using 1(1) 2(1) by simp
  moreover have "emuClockOf ty l2 s2 = foldl (emuClockStep C) (emuClockOf ty loc st) (r # rs)"
    using 2(2) 1(2) by simp
  moreover have "mWriteStarts s2 (unat s) = mWriteStarts st (unat s)
               @ map (\<lambda>p. ucast (fst p)) (emuStamps C (emuClockOf ty loc st) (r # rs))"
    using 2(3) 1(2,3) by simp
  moreover have "mHostWriteStarts s2 (unat s) = mHostWriteStarts st (unat s)
               @ map snd (emuStamps C (emuClockOf ty loc st) (r # rs))"
    using 2(4) 1(2,4) by simp
  moreover have "mEmuTraceMsecOneCycle s2 = mEmuTraceMsecOneCycle st" using 1(5) 2(5) by simp
  ultimately show ?case by blast
qed

lemma emu_write_ends:
  assumes emu: "isHwEmu env"
  shows "emuNoSkip C (emuClockOf ty loc st) rs \<Longrightarrow> \<forall>r\<in>set rs. emuIsWriteEnd C s r
     \<Longrightarrow> mWriteStarts st (unat s) = map fst qs @ extra
     \<Longrightarrow> mHostWriteStarts st (unat s) = map snd qs @ hextra
     \<Longrightarrow> length qs = length rs
     \<Longrightarrow> \<exists>loc' st' evs. parseAll C F env ty i rs (loc, st, res) = Inr (loc', st', res @ evs)
         \<and> map summary evs =
             map (\<lambda>p. paired ''Write'' s (fst (fst p)) (ucast (fst (snd p))))
               (filter (\<lambda>p. emuPass F (mEmuTraceMsecOneCycle st) (snd (fst p)) (snd (snd p)))
                  (zip qs (emuStamps C (emuClockOf ty loc st) rs)))
         \<and> mWriteStarts st' (unat s) = extra \<and> mHostWriteStarts st' (unat s) = hextra"
proof (induction rs arbitrary: i loc st res qs)
  case Nil
  then show ?case by simp
next
  case (Cons r rs)
  from Cons.prems(5) obtain v hv qs' where qs: "qs = (v, hv) # qs'" "length qs' = length rs"
    by (cases qs) auto
  from Cons.prems(1) have ns: "HostTimestamp r \<noteq> ucast (prevHostTimestamp loc) \<or> Timestamp r \<noteq> 1"
    and nss: "emuNoSkip C (emuClockStep C (emuClockOf ty loc st) r) rs"
    by (simp_all add: emuClockOf_def)
  from Cons.prems(2) have r: "emuIsWriteEnd C s r" and rs: "\<forall>r\<in>set rs. emuIsWriteEnd C s r"
    by simp_all
  have q: "mWriteStarts st (unat s) = v # (map fst qs' @ extra)"
    "mHostWriteStarts st (unat s) = hv # (map snd qs' @ hextra)"
    using Cons.prems(3,4) qs(1) by simp_all
  from emu_write_end_at [OF emu ns r q, of F ty i res]
  obtain l1 s1 e1 where 1: "parseSample C F env ty i r (loc, st, res) = Inr (l1, s1, res @ e1)"
    "map summary e1 =
          (if emuPass F (mEmuTraceMsecOneCycle st) hv (snd (emuStamp C (emuClockOf ty loc st) r))
           then [paired ''Write'' s v (ucast (fst (emuStamp C (emuClockOf ty loc st) r)))] else [])"
    "emuClockOf ty l1 s1 = emuClockStep C (emuClockOf ty loc st) r"
    "mWriteStarts s1 (unat s) = map fst qs' @ extra" "mHostWriteStarts s1 (unat s) = map snd qs' @ hextra"
    "mEmuTraceMsecOneCycle s1 = mEmuTraceMsecOneCycle st" by blast
  from Cons.IH [OF nss [folded 1(3)] rs 1(4,5) qs(2), of "Suc i" "res @ e1"]
  obtain l2 s2 e2 where 2: "parseAll C F env ty (Suc i) rs (l1, s1, res @ e1) = Inr (l2, s2, (res @ e1) @ e2)"
    "map summary e2 =
             map (\<lambda>p. paired ''Write'' s (fst (fst p)) (ucast (fst (snd p))))
               (filter (\<lambda>p. emuPass F (mEmuTraceMsecOneCycle s1) (snd (fst p)) (snd (snd p)))
                  (zip qs' (emuStamps C (emuClockOf ty l1 s1) rs)))"
    "mWriteStarts s2 (unat s) = extra" "mHostWriteStarts s2 (unat s) = hextra" by blast
  have "parseAll C F env ty i (r # rs) (loc, st, res) = Inr (l2, s2, res @ (e1 @ e2))"
    using 1(1) 2(1) by simp
  moreover have "map summary (e1 @ e2) =
             map (\<lambda>p. paired ''Write'' s (fst (fst p)) (ucast (fst (snd p))))
               (filter (\<lambda>p. emuPass F (mEmuTraceMsecOneCycle st) (snd (fst p)) (snd (snd p)))
                  (zip qs (emuStamps C (emuClockOf ty loc st) (r # rs))))"
    using 1(2,3,6) 2(2) qs(1) by simp
  ultimately show ?case using 2(3,4) by blast
qed

lemma emu_write_fifo:
  assumes emu: "isHwEmu env"
    and ns: "emuNoSkip C (emuClockOf ty loc st) (starts @ ends)"
    and starts: "\<forall>r\<in>set starts. emuIsWriteStart C s r"
    and ends: "\<forall>r\<in>set ends. emuIsWriteEnd C s r"
    and len: "length starts = length ends"
    and empty: "mWriteStarts st (unat s) = []" "mHostWriteStarts st (unat s) = []"
  shows "\<exists>loc' st' evs. parseAll C F env ty i (starts @ ends) (loc, st, res) = Inr (loc', st', res @ evs)
     \<and> map summary evs =
         map (\<lambda>p. paired ''Write'' s (ucast (fst (fst p))) (ucast (fst (snd p))))
           (filter (\<lambda>p. emuPass F (mEmuTraceMsecOneCycle st) (snd (fst p)) (snd (snd p)))
              (zip (take (length starts) (emuStamps C (emuClockOf ty loc st) (starts @ ends)))
                   (drop (length starts) (emuStamps C (emuClockOf ty loc st) (starts @ ends)))))
     \<and> mWriteStarts st' (unat s) = [] \<and> mHostWriteStarts st' (unat s) = []"
proof -
  define c where "c = emuClockOf ty loc st"
  define ss where "ss = emuStamps C c starts"
  define c1 where "c1 = foldl (emuClockStep C) c starts"
  define es where "es = emuStamps C c1 ends"
  have all: "emuStamps C c (starts @ ends) = ss @ es"
    by (simp add: emuStamps_append ss_def es_def c1_def)
  have n1: "emuNoSkip C c starts" and n2: "emuNoSkip C c1 ends"
    using ns by (simp_all add: emuNoSkip_append c_def c1_def)
  from emu_write_starts [OF emu n1 [unfolded c_def] starts, of F i res]
  obtain l1 s1 where 1: "parseAll C F env ty i starts (loc, st, res) = Inr (l1, s1, res)"
    "emuClockOf ty l1 s1 = c1"
    "mWriteStarts s1 (unat s) = map (\<lambda>p. ucast (fst p)) ss"
    "mHostWriteStarts s1 (unat s) = map snd ss"
    "mEmuTraceMsecOneCycle s1 = mEmuTraceMsecOneCycle st"
    using empty by (auto simp: c_def c1_def ss_def)
  define qs :: "(64 word \<times> 64 word) list" where "qs = map (\<lambda>p. (ucast (fst p), snd p)) ss"
  have q: "mWriteStarts s1 (unat s) = map fst qs @ []" "mHostWriteStarts s1 (unat s) = map snd qs @ []"
    using 1(3,4) by (simp_all add: qs_def comp_def)
  have l: "length qs = length ends" using len by (simp add: qs_def ss_def)
  from emu_write_ends [OF emu n2 [folded 1(2)] ends q l, of F "i + length starts" res]
  obtain l2 s2 evs where 2: "parseAll C F env ty (i + length starts) ends (l1, s1, res) = Inr (l2, s2, res @ evs)"
    "map summary evs =
             map (\<lambda>p. paired ''Write'' s (fst (fst p)) (ucast (fst (snd p))))
               (filter (\<lambda>p. emuPass F (mEmuTraceMsecOneCycle s1) (snd (fst p)) (snd (snd p)))
                  (zip qs (emuStamps C (emuClockOf ty l1 s1) ends)))"
    "mWriteStarts s2 (unat s) = []" "mHostWriteStarts s2 (unat s) = []" by blast
  have p: "parseAll C F env ty i (starts @ ends) (loc, st, res) = Inr (l2, s2, res @ evs)"
    using 1(1) 2(1) by (simp add: parseAll_append)
  have z: "zip qs es = map (\<lambda>p. ((ucast (fst (fst p)), snd (fst p)), snd p)) (zip ss es)"
    by (simp add: qs_def zip_map1 case_prod_unfold)
  have "map summary evs =
         map (\<lambda>p. paired ''Write'' s (ucast (fst (fst p))) (ucast (fst (snd p))))
           (filter (\<lambda>p. emuPass F (mEmuTraceMsecOneCycle st) (snd (fst p)) (snd (snd p))) (zip ss es))"
    using 2(2) unfolding 1(2) 1(5) es_def [symmetric] z
    by (simp add: filter_map comp_def)
  moreover have "take (length starts) (ss @ es) = ss" "drop (length starts) (ss @ es) = es"
    by (simp_all add: ss_def)
  ultimately show ?thesis
    using p 2(3,4) unfolding c_def [symmetric] all by auto
qed

subsection \<open>The order of the records an emulation-mode batch adds\<close>

lemma parseAll_emu_prefix:
  assumes emu: "isHwEmu env"
  shows "parseAll C F env ty i traces (loc, st, res) = Inr (loc', st', res')
     \<Longrightarrow> \<exists>outs. length outs = length traces \<and> res' = res @ concat outs
          \<and> (\<forall>k\<le>length traces. \<exists>loc1 st1.
                parseAll C F env ty i (take k traces) (loc, st, res)
                  = Inr (loc1, st1, res @ concat (take k outs)))"
proof (induction traces arbitrary: i loc st res)
  case Nil
  then show ?case by simp
next
  case (Cons t ts)
  from Cons.prems obtain l1 s1 r1 where
    1: "parseSample C F env ty i t (loc, st, res) = Inr (l1, s1, r1)"
    and 2: "parseAll C F env ty (Suc i) ts (l1, s1, r1) = Inr (loc', st', res')"
    by (auto split: sum.splits)
  from parseSample_emu [OF emu 1] obtain new where n: "r1 = res @ new"
    by (auto simp: emuEmits_def)
  from Cons.IH [OF 2] obtain outs where o: "length outs = length ts" "res' = r1 @ concat outs"
    and p: "\<forall>k\<le>length ts. \<exists>loc1 st1.
                parseAll C F env ty (Suc i) (take k ts) (l1, s1, r1)
                  = Inr (loc1, st1, r1 @ concat (take k outs))" by blast
  have "\<exists>loc1 st1. parseAll C F env ty i (take k (t # ts)) (loc, st, res)
                  = Inr (loc1, st1, res @ concat (take k (new # outs)))"
    if k: "k \<le> length (t # ts)" for k
  proof (cases k)
    case 0
    then show ?thesis by simp
  next
    case (Suc k')
    with k have "k' \<le> length ts" by simp
    with p obtain loc1 st1 where "parseAll C F env ty (Suc i) (take k' ts) (l1, s1, r1)
                  = Inr (loc1, st1, r1 @ concat (take k' outs))" by blast
    then show ?thesis using Suc 1 n by simp
  qed
  moreover have "length (new # outs) = length (t # ts)" using o by simp
  moreover have "res' = res @ concat (new # outs)" using o n by simp
  ultimately show ?case by blast
qed

lemma emu_kernel_end:
  assumes emu: "isHwEmu env" and nd: "\<not> duplicateHostTimestamp loc r"
    and id: "64 \<le> TraceID r" "TraceID r \<le> 94"
    and ev: "ucast (EventFlags r) AND XSAM_TRACE_CU_MASK C \<noteq> 0"
    and started: "mAccelMonStartedEvents st (unat (TraceID r - 64)) AND XSAM_TRACE_CU_MASK C \<noteq> 0"
  shows "\<exists>loc' st' k. parseSample C F env ty i r (loc, st, res) = Inr (loc', st', res @ [k])
      \<and> Type k = ''Kernel''"
proof -
  define ts where "ts = emuTimestamp C (mPrevTimestamp st ty) r"
  define st1 where "st1 = st\<lparr>mPrevTimestamp := (mPrevTimestamp st)(ty := ts)\<rparr>"
  obtain h start' where g: "getTimestampNsec C (mStartTimeNsec st) (HostTimestamp r) = (h, start')"
    by (rule prod.exhaust)
  define st2 where "st2 = st1\<lparr>mStartTimeNsec := start'\<rparr>"
  define loc1 where "loc1 = loc\<lparr>prevHostTimestamp := ucast (HostTimestamp r)\<rparr>"
  have n61: "\<not> TraceID r < 61" using id(1) by (simp add: word_less_nat_alt word_le_nat_alt)
  have eq: "parseSample C F env ty i r (loc, st, res) =
      (case emuAccel C F r ts h (kernelTrace loc1, st2, res) of
         (kt, st3, res3) \<Rightarrow> Inr (loc1\<lparr>kernelTrace := kt\<rparr>, st3, res3))"
    using emu g nd n61 id
    by (simp add: parseSample_def Let_def ts_def [symmetric] st1_def [symmetric]
          st2_def [symmetric] loc1_def [symmetric] split: prod.splits)
  have s2: "mAccelMonStartedEvents st2 = mAccelMonStartedEvents st"
    by (simp add: st2_def st1_def)
  have "\<exists>kt st3 k. emuAccel C F r ts h (kernelTrace loc1, st2, res) = (kt, st3, res @ [k])
      \<and> Type k = ''Kernel''"
    using ev started by (simp add: emuAccel_def Let_def s2)
  then show ?thesis unfolding eq by auto
qed

subsection \<open>The decode path of one record\<close>

lemma parseSample_emu_cu:
  assumes emu: "isHwEmu env" and nd: "\<not> duplicateHostTimestamp loc r"
    and id: "64 \<le> TraceID r" "TraceID r \<le> 94"
    and g: "getTimestampNsec C (mStartTimeNsec st) (HostTimestamp r) = (h, start')"
  shows "parseSample C F env ty i r (loc, st, res) =
     (case emuAccel C F r (emuTimestamp C (mPrevTimestamp st ty) r) h
             (kernelTrace loc,
              st\<lparr>mPrevTimestamp := (mPrevTimestamp st)(ty := emuTimestamp C (mPrevTimestamp st ty) r),
                 mStartTimeNsec := start'\<rparr>, res) of
        (kt, st3, res3) \<Rightarrow>
          Inr (loc\<lparr>prevHostTimestamp := ucast (HostTimestamp r), kernelTrace := kt\<rparr>, st3, res3))"
proof -
  have n61: "\<not> TraceID r < 61" using id(1) by (simp add: word_less_nat_alt word_le_nat_alt)
  show ?thesis
    using emu nd id n61 g by (simp add: parseSample_def Let_def split: prod.splits)
qed

lemma parseSample_emu_skip:
  assumes emu: "isHwEmu env" and nd: "\<not> duplicateHostTimestamp loc r"
    and id: "\<not> TraceID r < 61" "\<not> (64 \<le> TraceID r \<and> TraceID r \<le> 94)"
    and g: "getTimestampNsec C (mStartTimeNsec st) (HostTimestamp r) = (h, start')"
  shows "parseSample C F env ty i r (loc, st, res) =
     Inr (loc\<lparr>prevHostTimestamp := ucast (HostTimestamp r)\<rparr>,
          st\<lparr>mPrevTimestamp := (mPrevTimestamp st)(ty := emuTimestamp C (mPrevTimestamp st ty) r),
             mStartTimeNsec := start'\<rparr>, res)"
  by (simp add: parseSample_def Let_def emu nd id g)

lemma parseSample_hw_sam:
  assumes hw: "\<not> isHwEmu env" and i: "i \<noteq> 0"
    and id: "64 \<le> TraceID r" "TraceID r \<le> 544"
    and st1: "st1 = (if i = 1 then trainClock F env ty r (y1 loc) (x1 loc) st else st)"
  shows "parseSample C F env ty i r (loc, st, res) =
     (case hwAccel C F ty r ((TraceID r - 64) div 16) (hwTimestamp C r) (kernelTrace loc, st1, res) of
        (kt, st', res') \<Rightarrow> Inr (loc\<lparr>kernelTrace := kt\<rparr>, st', res'))"
  using hw i id
  by (simp add: parseSample_def hwDecode_def Let_def st1 split: prod.splits)

lemma parseSample_hw_skip:
  assumes hw: "\<not> isHwEmu env" and i: "i \<noteq> 0"
    and id: "\<not> (64 \<le> TraceID r \<and> TraceID r \<le> 544)" "\<not> (2 \<le> TraceID r \<and> TraceID r \<le> 61)"
  shows "parseSample C F env ty i r (loc, st, res) =
     Inr (loc, if i = 1 then trainClock F env ty r (y1 loc) (x1 loc) st else st, res)"
  by (simp add: parseSample_def Let_def hw i id)

lemma sameSlots_trainClock: "sameSlots st (trainClock F env ty r y x st)"
  by (simp add: sameSlots_def trainClock_def trainDeviceHostTimestamps_def Let_def)

lemma sameSlots_refl: "sameSlots st st"
  by (simp add: sameSlots_def)

lemma sameSlots_clock:
  "sameSlots st (st\<lparr>mPrevTimestamp := p, mStartTimeNsec := s\<rparr>)"
  "sameSlots st (st\<lparr>mPrevTimestamp := p\<rparr>)"
  by (simp_all add: sameSlots_def)

subsection \<open>Running the decoder on concrete batches\<close>

lemmas model_defs = logTrace_def parseSample_def duplicateHostTimestamp_def hwDecode_def hwMemory_def hwEnd_def hwAccel_def hwCategory_def
  emuMemory_def emuAccel_def emuWriteEnd_def emuReadEnd_def emuWriteStart_def emuReadStart_def
  emuTimestamp_def hwTimestamp_def trainClock_def trainDeviceHostTimestamps_def convertDeviceToHostTimestamp_def
  clearStarted_def initLocals_def getBit_def pushq_def popq_def frontq_def

lemmas example_defs = example_config_def exact_ops_def hw_env_def emu_env_def constructed_def hwSample_def trainSample_def emuSample_def
  DeviceTrace_zero_def relativeTimestampNsec_def dsub_def dsign_def

lemma upt_31: "[0..<31] = [0,1,2,3,4,5,6,7,8,9,10,11,12,13,14,15,16,17,18,19,20,21,22,23,24,25,26,27,28,29,30]"
  by code_simp

lemma logTrace_cleared:
  assumes ne: "traceVector \<noteq> []" and cap: "mNumTraceEvents st < mMaxTraceEvents st"
    and run: "logTrace C F env dev ty traceVector st res = Inr (st', res')"
  shows "mNumTraceEvents st' = mNumTraceEvents st + of_nat (length traceVector)"
    and "mMaxTraceEvents st' = mMaxTraceEvents st"
    and "\<forall>i<XSAM_MAX_NUMBER_SLOTS C. mAccelMonStartedEvents st' i = 0"
proof -
  have "mNumTraceEvents st' = mNumTraceEvents st + of_nat (length traceVector)
      \<and> mMaxTraceEvents st' = mMaxTraceEvents st
      \<and> (\<forall>i<XSAM_MAX_NUMBER_SLOTS C. mAccelMonStartedEvents st' i = 0)"
  proof (cases "isHwEmu env")
    case True
    from logTrace_emu [OF True ne cap run] show ?thesis by simp
  next
    case False
    from logTrace_hw [OF False ne cap, of C F dev ty res] run show ?thesis by auto
  qed
  then show "mNumTraceEvents st' = mNumTraceEvents st + of_nat (length traceVector)"
    and "mMaxTraceEvents st' = mMaxTraceEvents st"
    and "\<forall>i<XSAM_MAX_NUMBER_SLOTS C. mAccelMonStartedEvents st' i = 0" by simp_all
qed


lemma logTrace_entry:
  "traceVector = [] \<or> mMaxTraceEvents st \<le> mNumTraceEvents st
     \<Longrightarrow> logTrace C F env deviceName ty traceVector st resultVector = Inr (st, resultVector)"
  by (cases traceVector) (simp_all add: logTrace_def)

lemma logTrace_counter:
  assumes run: "logTrace C F env dev ty traceVector st res = Inr (st', res')"
  shows "mMaxTraceEvents st' = mMaxTraceEvents st
     \<and> (mNumTraceEvents st' = mNumTraceEvents st
        \<or> (mNumTraceEvents st < mMaxTraceEvents st
           \<and> mNumTraceEvents st' = mNumTraceEvents st + of_nat (length traceVector)))"
proof (cases "traceVector = [] \<or> mMaxTraceEvents st \<le> mNumTraceEvents st")
  case True
  from logTrace_entry [OF True, of C F env dev ty res] run show ?thesis by simp
next
  case False
  then have ne: "traceVector \<noteq> []" and cap: "mNumTraceEvents st < mMaxTraceEvents st" by auto
  from logTrace_cleared(1,2) [OF ne cap run] cap show ?thesis by simp
qed

lemma counter_step:
  fixes n m :: "32 word"
  assumes "n < m" and "len \<le> B" and "unat m + B \<le> 2 ^ 32"
  shows "unat (n + of_nat len) < unat m + B"
proof -
  have "unat n < unat m" using assms(1) by (simp add: word_less_nat_alt)
  moreover have "unat (n + of_nat len) \<le> unat n + len"
  proof -
    have "unat (n + of_nat len) = (unat n + unat (of_nat len :: 32 word)) mod 2 ^ 32"
      by (simp add: unat_word_ariths)
    also have "\<dots> \<le> unat n + unat (of_nat len :: 32 word)" by (rule mod_less_eq_dividend)
    also have "unat (of_nat len :: 32 word) \<le> len" by (simp add: unat_of_nat)
    finally show ?thesis by simp
  qed
  ultimately show ?thesis using assms(2) by linarith
qed

section \<open>The claims\<close>


text \<open>
  C1. As stated for every N read-starts followed by N read-ends the claim fails. In
  hardware mode an end record whose \<^verbatim>\<open>Reserved\<close> field is 1 is given its own
  timestamp as start time and leaves the queued start where it is: a read-start at
  device time 10 followed by such a read-end at 15 gives start 15, end 15, burst 1, not
  start 10 and burst 6. Trace ids 0 and 1 (slot 0) are outside the ranges the hardware
  decoder knows, so a read-start and a read-end on slot 0 add nothing. The first
  record of a hardware batch is consumed for calibration, so a batch that is only a
  read-start and a read-end gives start 15, end 15. A start left in the queue by an
  earlier call is paired first, in either mode. In emulation mode a pair whose host
  end time is before its host start time is not added, a start whose host timestamp
  is 0xFFFFFFFF with device timestamp 1 at the head of the batch is skipped as a
  repeated host timestamp, and a read-start record that also carries the write-last
  flag is left by \<^verbatim>\<open>continue\<close> at its write-end (write queue empty) before its read
  half is looked at.
\<close>

theorem reserved_end_not_paired:
  "map_sum id (map summary \<circ> snd)
     (logTrace example_config exact_ops hw_env ''dev'' XCL_PERF_MON_MEMORY
        [trainSample 100 0, trainSample 200 100, hwSample XCL_PERF_MON_START_EVENT 2 10 0,
         hwSample XCL_PERF_MON_END_EVENT 2 15 1]
        constructed [])
   = Inr [(''Read'', 1, 15, 15, 1)]
   \<and> paired ''Read'' 1 10 15 = (''Read'', 1, 10, 15, 6)
   \<and> map_sum id (map summary \<circ> snd)
     (logTrace example_config exact_ops hw_env ''dev'' XCL_PERF_MON_MEMORY
        [trainSample 100 0, trainSample 200 100, hwSample XCL_PERF_MON_START_EVENT 0 10 0,
         hwSample XCL_PERF_MON_END_EVENT 0 15 0]
        constructed [])
   = Inr []
   \<and> map_sum id (map summary \<circ> snd)
     (logTrace example_config exact_ops hw_env ''dev'' XCL_PERF_MON_MEMORY
        [hwSample XCL_PERF_MON_START_EVENT 2 10 0, hwSample XCL_PERF_MON_END_EVENT 2 15 0]
        constructed [])
   = Inr [(''Read'', 1, 15, 15, 1)]
   \<and> map_sum id (map summary \<circ> snd)
     (logTrace example_config exact_ops hw_env ''dev'' XCL_PERF_MON_MEMORY
        [trainSample 100 0, trainSample 200 100, hwSample XCL_PERF_MON_START_EVENT 2 10 0,
         hwSample XCL_PERF_MON_END_EVENT 2 15 0]
        (constructed\<lparr>mReadStarts := (\<lambda>_. [3])\<rparr>) [])
   = Inr [(''Read'', 1, 3, 15, 13)]
   \<and> map_sum id (map summary \<circ> snd)
     (logTrace example_config exact_ops emu_env ''dev'' XCL_PERF_MON_MEMORY
        [emuSample 2 32 5 9000, emuSample 2 64 5 8000] constructed [])
   = Inr []
   \<and> map_sum id (map summary \<circ> snd)
     (logTrace example_config exact_ops emu_env ''dev'' XCL_PERF_MON_MEMORY
        [emuSample 2 32 1 0xFFFFFFFF, emuSample 2 64 5 0x100000000] constructed [])
   = Inr []
   \<and> map_sum id (map summary \<circ> snd)
     (logTrace example_config exact_ops emu_env ''dev'' XCL_PERF_MON_MEMORY
        [emuSample 2 32 5 2000, emuSample 2 64 5 3000]
        (constructed\<lparr>mReadStarts := (\<lambda>_. [3]), mHostReadStarts := (\<lambda>_. [0])\<rparr>) [])
   = Inr [(''Read'', 1, 3, 10, 8)]
   \<and> map_sum id (map summary \<circ> snd)
     (logTrace example_config exact_ops emu_env ''dev'' XCL_PERF_MON_MEMORY
        [emuSample 2 36 5 2000, emuSample 2 64 5 3000] constructed [])
   = Inr []"
  by (simp add: model_defs example_defs Let_def approximateCuEnds_idle summary_def paired_def)

text \<open>
  C1, amended. Hardware mode, records behind the first of the batch, trace ids 2 to 61
  (slot \<open>s\<close> is the id divided by 2; the id is a read id when \<^verbatim>\<open>IS_READ\<close> holds of it,
  a write id when \<^verbatim>\<open>IS_READ\<close> does not and \<^verbatim>\<open>IS_WRITE\<close> does), start queue of \<open>s\<close>
  empty before: N read-starts followed by N read-ends on \<open>s\<close>, none with the
  \<^verbatim>\<open>Reserved\<close> field at 1, add exactly N Read records behind the old vector, in order,
  the i-th with the device time of the i-th start, the device time of the i-th end and
  burst length end - start + 1. The same holds for writes. A hardware read-end or
  write-end with \<^verbatim>\<open>Reserved\<close> at 1 adds one record with start = end = its own device
  time and burst length 1, and leaves the read and write start queues as they are.
  Emulation mode, trace ids below 61, a start record carrying the read-first flag and
  an end record the read-last flag, each without the other three flags, no record
  skipped as a repeated host timestamp (\<open>emuNoSkip\<close>), the read start queue of \<open>s\<close>
  and its host-time twin empty before: the i-th start is paired with the i-th end, and
  the records added are, in order, the pairs that pass the test of lines 240-247 and
  278-285 (\<open>emuPass\<close>), each with the device times the clock part gave its start and
  its end and burst length end - start + 1; the same holds for writes, with the
  write-first and write-last flags and the write queues. The test is on the host times
  \<^verbatim>\<open>getTimestampNsec\<close> returned for the start and the end, divided by 1e6: with S the
  first and E the second, E increased by \<^verbatim>\<open>mEmuTraceMsecOneCycle\<close> (its value before
  these records) when E = S, the pair passes when E >= S. The other pairs are consumed
  and add nothing.
\<close>

theorem fifo_pairing:
  "(\<not> isHwEmu env \<and> i \<noteq> 0
      \<and> (\<forall>r\<in>set starts. hwRead C s r \<and> EventType r = XCL_PERF_MON_START_EVENT)
      \<and> (\<forall>r\<in>set ends. hwRead C s r \<and> EventType r = XCL_PERF_MON_END_EVENT \<and> Reserved r \<noteq> 1)
      \<and> length starts = length ends \<and> mReadStarts st (unat s) = []
    \<longrightarrow> (\<exists>loc' st' evs.
          parseAll C F env ty i (starts @ ends) (loc, st, res) = Inr (loc', st', res @ evs)
        \<and> map summary evs =
            map2 (\<lambda>a b. paired ''Read'' s (ucast (hwTimestamp C a)) (ucast (hwTimestamp C b)))
              starts ends))
 \<and> (\<not> isHwEmu env \<and> i \<noteq> 0
      \<and> (\<forall>r\<in>set starts. hwWrite C s r \<and> EventType r = XCL_PERF_MON_START_EVENT)
      \<and> (\<forall>r\<in>set ends. hwWrite C s r \<and> EventType r = XCL_PERF_MON_END_EVENT \<and> Reserved r \<noteq> 1)
      \<and> length starts = length ends \<and> mWriteStarts st (unat s) = []
    \<longrightarrow> (\<exists>loc' st' evs.
          parseAll C F env ty i (starts @ ends) (loc, st, res) = Inr (loc', st', res @ evs)
        \<and> map summary evs =
            map2 (\<lambda>a b. paired ''Write'' s (ucast (hwTimestamp C a)) (ucast (hwTimestamp C b)))
              starts ends))
 \<and> (isHwEmu env \<and> emuNoSkip C (emuClockOf ty loc st) (starts @ ends)
      \<and> (\<forall>r\<in>set starts. emuIsReadStart C s r) \<and> (\<forall>r\<in>set ends. emuIsReadEnd C s r)
      \<and> length starts = length ends
      \<and> mReadStarts st (unat s) = [] \<and> mHostReadStarts st (unat s) = []
    \<longrightarrow> (\<exists>loc' st' evs.
          parseAll C F env ty i (starts @ ends) (loc, st, res) = Inr (loc', st', res @ evs)
        \<and> map summary evs =
            map (\<lambda>p. paired ''Read'' s (ucast (fst (fst p))) (ucast (fst (snd p))))
              (filter (\<lambda>p. emuPass F (mEmuTraceMsecOneCycle st) (snd (fst p)) (snd (snd p)))
                 (zip (take (length starts) (emuStamps C (emuClockOf ty loc st) (starts @ ends)))
                      (drop (length starts) (emuStamps C (emuClockOf ty loc st) (starts @ ends)))))))
 \<and> (isHwEmu env \<and> emuNoSkip C (emuClockOf ty loc st) (starts @ ends)
      \<and> (\<forall>r\<in>set starts. emuIsWriteStart C s r) \<and> (\<forall>r\<in>set ends. emuIsWriteEnd C s r)
      \<and> length starts = length ends
      \<and> mWriteStarts st (unat s) = [] \<and> mHostWriteStarts st (unat s) = []
    \<longrightarrow> (\<exists>loc' st' evs.
          parseAll C F env ty i (starts @ ends) (loc, st, res) = Inr (loc', st', res @ evs)
        \<and> map summary evs =
            map (\<lambda>p. paired ''Write'' s (ucast (fst (fst p))) (ucast (fst (snd p))))
              (filter (\<lambda>p. emuPass F (mEmuTraceMsecOneCycle st) (snd (fst p)) (snd (snd p)))
                 (zip (take (length starts) (emuStamps C (emuClockOf ty loc st) (starts @ ends)))
                      (drop (length starts) (emuStamps C (emuClockOf ty loc st) (starts @ ends)))))))
 \<and> (\<not> isHwEmu env \<and> i \<noteq> 0 \<and> hwRead C s r
      \<and> EventType r = XCL_PERF_MON_END_EVENT \<and> Reserved r = 1
    \<longrightarrow> (\<exists>loc' st' e. parseSample C F env ty i r (loc, st, res) = Inr (loc', st', res @ [e])
          \<and> summary e = (''Read'', s, ucast (hwTimestamp C r), ucast (hwTimestamp C r), 1)
          \<and> mReadStarts st' = mReadStarts st \<and> mWriteStarts st' = mWriteStarts st))
 \<and> (\<not> isHwEmu env \<and> i \<noteq> 0 \<and> hwWrite C s r
      \<and> EventType r = XCL_PERF_MON_END_EVENT \<and> Reserved r = 1
    \<longrightarrow> (\<exists>loc' st' e. parseSample C F env ty i r (loc, st, res) = Inr (loc', st', res @ [e])
          \<and> summary e = (''Write'', s, ucast (hwTimestamp C r), ucast (hwTimestamp C r), 1)
          \<and> mReadStarts st' = mReadStarts st \<and> mWriteStarts st' = mWriteStarts st))"
proof (intro conjI impI)
  assume "\<not> isHwEmu env \<and> i \<noteq> 0
      \<and> (\<forall>r\<in>set starts. hwRead C s r \<and> EventType r = XCL_PERF_MON_START_EVENT)
      \<and> (\<forall>r\<in>set ends. hwRead C s r \<and> EventType r = XCL_PERF_MON_END_EVENT \<and> Reserved r \<noteq> 1)
      \<and> length starts = length ends \<and> mReadStarts st (unat s) = []"
  then have a: "\<not> isHwEmu env" "i \<noteq> 0"
    "\<forall>r\<in>set starts. hwRead C s r \<and> EventType r = XCL_PERF_MON_START_EVENT"
    "\<forall>r\<in>set ends. hwRead C s r \<and> EventType r = XCL_PERF_MON_END_EVENT \<and> Reserved r \<noteq> 1"
    "length starts = length ends" "mReadStarts st (unat s) = []" by simp_all
  from hw_read_fifo [OF a, of F ty loc res]
  show "\<exists>loc' st' evs.
          parseAll C F env ty i (starts @ ends) (loc, st, res) = Inr (loc', st', res @ evs)
        \<and> map summary evs =
            map2 (\<lambda>a b. paired ''Read'' s (ucast (hwTimestamp C a)) (ucast (hwTimestamp C b)))
              starts ends" by blast
next
  assume "\<not> isHwEmu env \<and> i \<noteq> 0
      \<and> (\<forall>r\<in>set starts. hwWrite C s r \<and> EventType r = XCL_PERF_MON_START_EVENT)
      \<and> (\<forall>r\<in>set ends. hwWrite C s r \<and> EventType r = XCL_PERF_MON_END_EVENT \<and> Reserved r \<noteq> 1)
      \<and> length starts = length ends \<and> mWriteStarts st (unat s) = []"
  then have a: "\<not> isHwEmu env" "i \<noteq> 0"
    "\<forall>r\<in>set starts. hwWrite C s r \<and> EventType r = XCL_PERF_MON_START_EVENT"
    "\<forall>r\<in>set ends. hwWrite C s r \<and> EventType r = XCL_PERF_MON_END_EVENT \<and> Reserved r \<noteq> 1"
    "length starts = length ends" "mWriteStarts st (unat s) = []" by simp_all
  from hw_write_fifo [OF a, of F ty loc res]
  show "\<exists>loc' st' evs.
          parseAll C F env ty i (starts @ ends) (loc, st, res) = Inr (loc', st', res @ evs)
        \<and> map summary evs =
            map2 (\<lambda>a b. paired ''Write'' s (ucast (hwTimestamp C a)) (ucast (hwTimestamp C b)))
              starts ends" by blast
next
  assume "isHwEmu env \<and> emuNoSkip C (emuClockOf ty loc st) (starts @ ends)
      \<and> (\<forall>r\<in>set starts. emuIsReadStart C s r) \<and> (\<forall>r\<in>set ends. emuIsReadEnd C s r)
      \<and> length starts = length ends
      \<and> mReadStarts st (unat s) = [] \<and> mHostReadStarts st (unat s) = []"
  then have a: "isHwEmu env" "emuNoSkip C (emuClockOf ty loc st) (starts @ ends)"
    "\<forall>r\<in>set starts. emuIsReadStart C s r" "\<forall>r\<in>set ends. emuIsReadEnd C s r"
    "length starts = length ends"
    "mReadStarts st (unat s) = []" "mHostReadStarts st (unat s) = []" by simp_all
  from emu_read_fifo [OF a, of F i res]
  show "\<exists>loc' st' evs.
          parseAll C F env ty i (starts @ ends) (loc, st, res) = Inr (loc', st', res @ evs)
        \<and> map summary evs =
            map (\<lambda>p. paired ''Read'' s (ucast (fst (fst p))) (ucast (fst (snd p))))
              (filter (\<lambda>p. emuPass F (mEmuTraceMsecOneCycle st) (snd (fst p)) (snd (snd p)))
                 (zip (take (length starts) (emuStamps C (emuClockOf ty loc st) (starts @ ends)))
                      (drop (length starts) (emuStamps C (emuClockOf ty loc st) (starts @ ends)))))"
    by blast
next
  assume "isHwEmu env \<and> emuNoSkip C (emuClockOf ty loc st) (starts @ ends)
      \<and> (\<forall>r\<in>set starts. emuIsWriteStart C s r) \<and> (\<forall>r\<in>set ends. emuIsWriteEnd C s r)
      \<and> length starts = length ends
      \<and> mWriteStarts st (unat s) = [] \<and> mHostWriteStarts st (unat s) = []"
  then have a: "isHwEmu env" "emuNoSkip C (emuClockOf ty loc st) (starts @ ends)"
    "\<forall>r\<in>set starts. emuIsWriteStart C s r" "\<forall>r\<in>set ends. emuIsWriteEnd C s r"
    "length starts = length ends"
    "mWriteStarts st (unat s) = []" "mHostWriteStarts st (unat s) = []" by simp_all
  from emu_write_fifo [OF a, of F i res]
  show "\<exists>loc' st' evs.
          parseAll C F env ty i (starts @ ends) (loc, st, res) = Inr (loc', st', res @ evs)
        \<and> map summary evs =
            map (\<lambda>p. paired ''Write'' s (ucast (fst (fst p))) (ucast (fst (snd p))))
              (filter (\<lambda>p. emuPass F (mEmuTraceMsecOneCycle st) (snd (fst p)) (snd (snd p)))
                 (zip (take (length starts) (emuStamps C (emuClockOf ty loc st) (starts @ ends)))
                      (drop (length starts) (emuStamps C (emuClockOf ty loc st) (starts @ ends)))))"
    by blast
next
  assume a: "\<not> isHwEmu env \<and> i \<noteq> 0 \<and> hwRead C s r
      \<and> EventType r = XCL_PERF_MON_END_EVENT \<and> Reserved r = 1"
  then have h: "\<not> isHwEmu env" "i \<noteq> 0" "2 \<le> TraceID r" "TraceID r \<le> 61"
    "IS_READ C (TraceID r)" "EventType r = XCL_PERF_MON_END_EVENT"
    and s: "TraceID r div 2 = s" and rsv: "Reserved r = 1"
    by (simp_all add: hwRead_def)
  from hw_read_end [OF h, of F ty loc st res] obtain loc' st' e where
    e: "parseSample C F env ty i r (loc, st, res) = Inr (loc', st', res @ [e])"
      "Type e = ''Read''" "SlotNum e = TraceID r div 2" "EndTime e = ucast (hwTimestamp C r)"
      "StartTime e = (if Reserved r = 1 then ucast (hwTimestamp C r)
                        else case mReadStarts st (unat (TraceID r div 2)) of
                               [] \<Rightarrow> ucast (hwTimestamp C r) | v # vs \<Rightarrow> v)"
      "BurstLength e = EndTime e - StartTime e + 1"
      "mReadStarts st' = (if Reserved r = 1 then mReadStarts st
                        else case mReadStarts st (unat (TraceID r div 2)) of [] \<Rightarrow> mReadStarts st
                             | v # vs \<Rightarrow> (mReadStarts st)(unat (TraceID r div 2) := vs))"
      "mWriteStarts st' = mWriteStarts st" by blast
  have "summary e = (''Read'', s, ucast (hwTimestamp C r), ucast (hwTimestamp C r), 1)"
    using e(2-6) s rsv by (simp add: summary_def)
  moreover have "mReadStarts st' = mReadStarts st" using e(7) rsv by simp
  ultimately show "\<exists>loc' st' e. parseSample C F env ty i r (loc, st, res) = Inr (loc', st', res @ [e])
          \<and> summary e = (''Read'', s, ucast (hwTimestamp C r), ucast (hwTimestamp C r), 1)
          \<and> mReadStarts st' = mReadStarts st \<and> mWriteStarts st' = mWriteStarts st"
    using e(1,8) by blast
next
  assume a: "\<not> isHwEmu env \<and> i \<noteq> 0 \<and> hwWrite C s r
      \<and> EventType r = XCL_PERF_MON_END_EVENT \<and> Reserved r = 1"
  then have h: "\<not> isHwEmu env" "i \<noteq> 0" "2 \<le> TraceID r" "TraceID r \<le> 61"
    "\<not> IS_READ C (TraceID r)" "IS_WRITE C (TraceID r)" "EventType r = XCL_PERF_MON_END_EVENT"
    and s: "TraceID r div 2 = s" and rsv: "Reserved r = 1"
    by (simp_all add: hwWrite_def)
  from hw_write_end [OF h, of F ty loc st res] obtain loc' st' e where
    e: "parseSample C F env ty i r (loc, st, res) = Inr (loc', st', res @ [e])"
      "Type e = ''Write''" "SlotNum e = TraceID r div 2" "EndTime e = ucast (hwTimestamp C r)"
      "StartTime e = (if Reserved r = 1 then ucast (hwTimestamp C r)
                        else case mWriteStarts st (unat (TraceID r div 2)) of
                               [] \<Rightarrow> ucast (hwTimestamp C r) | v # vs \<Rightarrow> v)"
      "BurstLength e = EndTime e - StartTime e + 1"
      "mWriteStarts st' = (if Reserved r = 1 then mWriteStarts st
                        else case mWriteStarts st (unat (TraceID r div 2)) of [] \<Rightarrow> mWriteStarts st
                             | v # vs \<Rightarrow> (mWriteStarts st)(unat (TraceID r div 2) := vs))"
      "mReadStarts st' = mReadStarts st" by blast
  have "summary e = (''Write'', s, ucast (hwTimestamp C r), ucast (hwTimestamp C r), 1)"
    using e(2-6) s rsv by (simp add: summary_def)
  moreover have "mWriteStarts st' = mWriteStarts st" using e(7) rsv by simp
  ultimately show "\<exists>loc' st' e. parseSample C F env ty i r (loc, st, res) = Inr (loc', st', res @ [e])
          \<and> summary e = (''Write'', s, ucast (hwTimestamp C r), ucast (hwTimestamp C r), 1)
          \<and> mReadStarts st' = mReadStarts st \<and> mWriteStarts st' = mWriteStarts st"
    using e(1,8) by blast
qed

lemmas pairing_defs = hwRead_def hwWrite_def emuIsReadStart_def emuIsReadEnd_def
  emuIsWriteStart_def emuIsWriteEnd_def emuFlags_def getBit_def emuClockOf_def emuClockStep_def
  emuStamp_def emuPass_def paired_def hwTimestamp_def emuTimestamp_def initLocals_def

theorem fifo_pairing_witness:
  "map_sum id (\<lambda>(loc', st', res'). map summary res')
     (parseAll example_config exact_ops hw_env XCL_PERF_MON_MEMORY 2
        [hwSample XCL_PERF_MON_START_EVENT 2 10 0, hwSample XCL_PERF_MON_START_EVENT 2 11 0,
         hwSample XCL_PERF_MON_END_EVENT 2 15 0, hwSample XCL_PERF_MON_END_EVENT 2 18 0]
        (initLocals example_config exact_ops, constructed, []))
     = Inr [(''Read'', 1, 10, 15, 6), (''Read'', 1, 11, 18, 8)]
   \<and> map_sum id (\<lambda>(loc', st', res'). map summary res')
     (parseAll example_config exact_ops hw_env XCL_PERF_MON_MEMORY 2
        [hwSample XCL_PERF_MON_START_EVENT 3 10 0, hwSample XCL_PERF_MON_START_EVENT 3 11 0,
         hwSample XCL_PERF_MON_END_EVENT 3 15 0, hwSample XCL_PERF_MON_END_EVENT 3 18 0]
        (initLocals example_config exact_ops, constructed, []))
     = Inr [(''Write'', 1, 10, 15, 6), (''Write'', 1, 11, 18, 8)]
   \<and> map_sum id (\<lambda>(loc', st', res'). map summary res')
     (parseAll example_config exact_ops emu_env XCL_PERF_MON_MEMORY 0
        [emuSample 2 32 5 2000, emuSample 2 32 5 2500,
         emuSample 2 64 5 3000, emuSample 2 64 5 2400]
        (initLocals example_config exact_ops, constructed, []))
     = Inr [(''Read'', 1, 5, 15, 11)]
   \<and> map_sum id (\<lambda>(loc', st', res'). map summary res')
     (parseAll example_config exact_ops emu_env XCL_PERF_MON_MEMORY 0
        [emuSample 2 2 5 2000, emuSample 2 2 5 2500,
         emuSample 2 4 5 3000, emuSample 2 4 5 2400]
        (initLocals example_config exact_ops, constructed, []))
     = Inr [(''Write'', 1, 5, 15, 11)]
   \<and> map_sum id (\<lambda>(loc', st', res'). (map summary res', mReadStarts st' 1))
     (parseSample example_config exact_ops hw_env XCL_PERF_MON_MEMORY 2
        (hwSample XCL_PERF_MON_END_EVENT 2 15 1)
        (initLocals example_config exact_ops, constructed\<lparr>mReadStarts := (\<lambda>_. [10])\<rparr>, []))
     = Inr ([(''Read'', 1, 15, 15, 1)], [10])
   \<and> map_sum id (\<lambda>(loc', st', res'). (map summary res', mWriteStarts st' 1))
     (parseSample example_config exact_ops hw_env XCL_PERF_MON_MEMORY 2
        (hwSample XCL_PERF_MON_END_EVENT 3 15 1)
        (initLocals example_config exact_ops, constructed\<lparr>mWriteStarts := (\<lambda>_. [10])\<rparr>, []))
     = Inr ([(''Write'', 1, 15, 15, 1)], [10])
   \<and> map_sum id (\<lambda>(loc', st', res'). map summary res')
     (parseAll example_config exact_ops emu_env XCL_PERF_MON_MEMORY 0
        [emuSample 2 32 5 4000, emuSample 2 64 5 4000]
        (initLocals example_config exact_ops, constructed, []))
     = Inr [(''Read'', 1, 5, 10, 6)]
   \<and> map_sum id (\<lambda>(loc', st', res'). map summary res')
     (parseAll example_config exact_ops emu_env XCL_PERF_MON_MEMORY 0
        [emuSample 2 32 5 4000, emuSample 2 64 5 4000]
        (initLocals example_config exact_ops,
         constructed\<lparr>mEmuTraceMsecOneCycle := Fin (- 1)\<rparr>, []))
     = Inr []"
proof -
  let ?a = "(initLocals example_config exact_ops, constructed, [])"
  let ?l = "initLocals example_config exact_ops"
  have r: "\<exists>loc' st' evs. parseAll example_config exact_ops hw_env XCL_PERF_MON_MEMORY 2
        ([hwSample XCL_PERF_MON_START_EVENT 2 10 0, hwSample XCL_PERF_MON_START_EVENT 2 11 0] @
         [hwSample XCL_PERF_MON_END_EVENT 2 15 0, hwSample XCL_PERF_MON_END_EVENT 2 18 0]) ?a
        = Inr (loc', st', [] @ evs)
      \<and> map summary evs = [(''Read'', 1, 10, 15, 6), (''Read'', 1, 11, 18, 8)]"
    using fifo_pairing [of hw_env 2
        "[hwSample XCL_PERF_MON_START_EVENT 2 10 0, hwSample XCL_PERF_MON_START_EVENT 2 11 0]"
        example_config 1
        "[hwSample XCL_PERF_MON_END_EVENT 2 15 0, hwSample XCL_PERF_MON_END_EVENT 2 18 0]"
        constructed exact_ops XCL_PERF_MON_MEMORY ?l "[]", THEN conjunct1]
    by (simp add: example_defs pairing_defs)
  have w: "\<exists>loc' st' evs. parseAll example_config exact_ops hw_env XCL_PERF_MON_MEMORY 2
        ([hwSample XCL_PERF_MON_START_EVENT 3 10 0, hwSample XCL_PERF_MON_START_EVENT 3 11 0] @
         [hwSample XCL_PERF_MON_END_EVENT 3 15 0, hwSample XCL_PERF_MON_END_EVENT 3 18 0]) ?a
        = Inr (loc', st', [] @ evs)
      \<and> map summary evs = [(''Write'', 1, 10, 15, 6), (''Write'', 1, 11, 18, 8)]"
    using fifo_pairing [of hw_env 2
        "[hwSample XCL_PERF_MON_START_EVENT 3 10 0, hwSample XCL_PERF_MON_START_EVENT 3 11 0]"
        example_config 1
        "[hwSample XCL_PERF_MON_END_EVENT 3 15 0, hwSample XCL_PERF_MON_END_EVENT 3 18 0]"
        constructed exact_ops XCL_PERF_MON_MEMORY ?l "[]", THEN conjunct2, THEN conjunct1]
    by (simp add: example_defs pairing_defs)
  have er: "\<exists>loc' st' evs. parseAll example_config exact_ops emu_env XCL_PERF_MON_MEMORY 0
        ([emuSample 2 32 5 2000, emuSample 2 32 5 2500] @
         [emuSample 2 64 5 3000, emuSample 2 64 5 2400]) ?a
        = Inr (loc', st', [] @ evs)
      \<and> map summary evs = [(''Read'', 1, 5, 15, 11)]"
    using fifo_pairing [of emu_env 0
        "[emuSample 2 32 5 2000, emuSample 2 32 5 2500]"
        example_config 1
        "[emuSample 2 64 5 3000, emuSample 2 64 5 2400]"
        constructed exact_ops XCL_PERF_MON_MEMORY ?l "[]",
        THEN conjunct2, THEN conjunct2, THEN conjunct1]
    by (simp add: example_defs pairing_defs)
  have ew: "\<exists>loc' st' evs. parseAll example_config exact_ops emu_env XCL_PERF_MON_MEMORY 0
        ([emuSample 2 2 5 2000, emuSample 2 2 5 2500] @
         [emuSample 2 4 5 3000, emuSample 2 4 5 2400]) ?a
        = Inr (loc', st', [] @ evs)
      \<and> map summary evs = [(''Write'', 1, 5, 15, 11)]"
    using fifo_pairing [of emu_env 0
        "[emuSample 2 2 5 2000, emuSample 2 2 5 2500]"
        example_config 1
        "[emuSample 2 4 5 3000, emuSample 2 4 5 2400]"
        constructed exact_ops XCL_PERF_MON_MEMORY ?l "[]",
        THEN conjunct2, THEN conjunct2, THEN conjunct2, THEN conjunct1]
    by (simp add: example_defs pairing_defs)
  have t15: "hwTimestamp example_config (hwSample XCL_PERF_MON_END_EVENT 2 15 1) = 15"
    "hwTimestamp example_config (hwSample XCL_PERF_MON_END_EVENT 3 15 1) = 15"
    by (simp_all add: hwTimestamp_def hwSample_def)
  have hr: "\<not> isHwEmu hw_env \<and> (2::nat) \<noteq> 0
      \<and> hwRead example_config 1 (hwSample XCL_PERF_MON_END_EVENT 2 15 1)
      \<and> EventType (hwSample XCL_PERF_MON_END_EVENT 2 15 1) = XCL_PERF_MON_END_EVENT
      \<and> Reserved (hwSample XCL_PERF_MON_END_EVENT 2 15 1) = 1"
    by (simp add: hw_env_def hwSample_def hwRead_def example_config_def)
  have hw: "\<not> isHwEmu hw_env \<and> (2::nat) \<noteq> 0
      \<and> hwWrite example_config 1 (hwSample XCL_PERF_MON_END_EVENT 3 15 1)
      \<and> EventType (hwSample XCL_PERF_MON_END_EVENT 3 15 1) = XCL_PERF_MON_END_EVENT
      \<and> Reserved (hwSample XCL_PERF_MON_END_EVENT 3 15 1) = 1"
    by (simp add: hw_env_def hwSample_def hwWrite_def example_config_def)
  from fifo_pairing [of hw_env 2 _ example_config 1 _
        "constructed\<lparr>mReadStarts := (\<lambda>_. [10])\<rparr>" exact_ops XCL_PERF_MON_MEMORY ?l "[]"
        "hwSample XCL_PERF_MON_END_EVENT 2 15 1",
        THEN conjunct2, THEN conjunct2, THEN conjunct2, THEN conjunct2, THEN conjunct1,
        rule_format, OF hr]
  obtain l1 s1 e1 where rr: "parseSample example_config exact_ops hw_env XCL_PERF_MON_MEMORY 2
        (hwSample XCL_PERF_MON_END_EVENT 2 15 1)
        (?l, constructed\<lparr>mReadStarts := (\<lambda>_. [10])\<rparr>, []) = Inr (l1, s1, [] @ [e1])"
      "summary e1 = (''Read'', 1, ucast (hwTimestamp example_config (hwSample XCL_PERF_MON_END_EVENT 2 15 1)),
         ucast (hwTimestamp example_config (hwSample XCL_PERF_MON_END_EVENT 2 15 1)), 1)"
      "mReadStarts s1 = mReadStarts (constructed\<lparr>mReadStarts := (\<lambda>_. [10])\<rparr>)" by blast
  from fifo_pairing [of hw_env 2 _ example_config 1 _
        "constructed\<lparr>mWriteStarts := (\<lambda>_. [10])\<rparr>" exact_ops XCL_PERF_MON_MEMORY ?l "[]"
        "hwSample XCL_PERF_MON_END_EVENT 3 15 1",
        THEN conjunct2, THEN conjunct2, THEN conjunct2, THEN conjunct2, THEN conjunct2,
        rule_format, OF hw]
  obtain l2 s2 e2 where rw: "parseSample example_config exact_ops hw_env XCL_PERF_MON_MEMORY 2
        (hwSample XCL_PERF_MON_END_EVENT 3 15 1)
        (?l, constructed\<lparr>mWriteStarts := (\<lambda>_. [10])\<rparr>, []) = Inr (l2, s2, [] @ [e2])"
      "summary e2 = (''Write'', 1, ucast (hwTimestamp example_config (hwSample XCL_PERF_MON_END_EVENT 3 15 1)),
         ucast (hwTimestamp example_config (hwSample XCL_PERF_MON_END_EVENT 3 15 1)), 1)"
      "mWriteStarts s2 = mWriteStarts (constructed\<lparr>mWriteStarts := (\<lambda>_. [10])\<rparr>)" by blast
  have c5: "map_sum id (\<lambda>(loc', st', res'). (map summary res', mReadStarts st' 1))
     (parseSample example_config exact_ops hw_env XCL_PERF_MON_MEMORY 2
        (hwSample XCL_PERF_MON_END_EVENT 2 15 1)
        (?l, constructed\<lparr>mReadStarts := (\<lambda>_. [10])\<rparr>, []))
     = Inr ([(''Read'', 1, 15, 15, 1)], [10])"
    using rr by (simp add: t15)
  have c6: "map_sum id (\<lambda>(loc', st', res'). (map summary res', mWriteStarts st' 1))
     (parseSample example_config exact_ops hw_env XCL_PERF_MON_MEMORY 2
        (hwSample XCL_PERF_MON_END_EVENT 3 15 1)
        (?l, constructed\<lparr>mWriteStarts := (\<lambda>_. [10])\<rparr>, []))
     = Inr ([(''Write'', 1, 15, 15, 1)], [10])"
    using rw by (simp add: t15)
  have c1: "map_sum id (\<lambda>(loc', st', res'). map summary res')
     (parseAll example_config exact_ops hw_env XCL_PERF_MON_MEMORY 2
        [hwSample XCL_PERF_MON_START_EVENT 2 10 0, hwSample XCL_PERF_MON_START_EVENT 2 11 0,
         hwSample XCL_PERF_MON_END_EVENT 2 15 0, hwSample XCL_PERF_MON_END_EVENT 2 18 0]
        (initLocals example_config exact_ops, constructed, []))
     = Inr [(''Read'', 1, 10, 15, 6), (''Read'', 1, 11, 18, 8)]"
    using r by auto
  have c2: "map_sum id (\<lambda>(loc', st', res'). map summary res')
     (parseAll example_config exact_ops hw_env XCL_PERF_MON_MEMORY 2
        [hwSample XCL_PERF_MON_START_EVENT 3 10 0, hwSample XCL_PERF_MON_START_EVENT 3 11 0,
         hwSample XCL_PERF_MON_END_EVENT 3 15 0, hwSample XCL_PERF_MON_END_EVENT 3 18 0]
        (initLocals example_config exact_ops, constructed, []))
     = Inr [(''Write'', 1, 10, 15, 6), (''Write'', 1, 11, 18, 8)]"
    using w by auto
  have c3: "map_sum id (\<lambda>(loc', st', res'). map summary res')
     (parseAll example_config exact_ops emu_env XCL_PERF_MON_MEMORY 0
        [emuSample 2 32 5 2000, emuSample 2 32 5 2500,
         emuSample 2 64 5 3000, emuSample 2 64 5 2400]
        (initLocals example_config exact_ops, constructed, []))
     = Inr [(''Read'', 1, 5, 15, 11)]"
    using er by auto
  have c4: "map_sum id (\<lambda>(loc', st', res'). map summary res')
     (parseAll example_config exact_ops emu_env XCL_PERF_MON_MEMORY 0
        [emuSample 2 2 5 2000, emuSample 2 2 5 2500,
         emuSample 2 4 5 3000, emuSample 2 4 5 2400]
        (initLocals example_config exact_ops, constructed, []))
     = Inr [(''Write'', 1, 5, 15, 11)]"
    using ew by auto
  have p0: "\<exists>loc' st' evs. parseAll example_config exact_ops emu_env XCL_PERF_MON_MEMORY 0
        ([emuSample 2 32 5 4000] @ [emuSample 2 64 5 4000]) ?a
        = Inr (loc', st', [] @ evs)
      \<and> map summary evs = [(''Read'', 1, 5, 10, 6)]"
    using fifo_pairing [of emu_env 0 "[emuSample 2 32 5 4000]" example_config 1
        "[emuSample 2 64 5 4000]" constructed exact_ops XCL_PERF_MON_MEMORY ?l "[]",
        THEN conjunct2, THEN conjunct2, THEN conjunct1]
    by (simp add: example_defs pairing_defs)
  have p1: "\<exists>loc' st' evs. parseAll example_config exact_ops emu_env XCL_PERF_MON_MEMORY 0
        ([emuSample 2 32 5 4000] @ [emuSample 2 64 5 4000])
        (?l, constructed\<lparr>mEmuTraceMsecOneCycle := Fin (- 1)\<rparr>, [])
        = Inr (loc', st', [] @ evs)
      \<and> map summary evs = []"
    using fifo_pairing [of emu_env 0 "[emuSample 2 32 5 4000]" example_config 1
        "[emuSample 2 64 5 4000]" "constructed\<lparr>mEmuTraceMsecOneCycle := Fin (- 1)\<rparr>"
        exact_ops XCL_PERF_MON_MEMORY ?l "[]",
        THEN conjunct2, THEN conjunct2, THEN conjunct1]
    by (simp add: example_defs pairing_defs)
  have c7: "map_sum id (\<lambda>(loc', st', res'). map summary res')
     (parseAll example_config exact_ops emu_env XCL_PERF_MON_MEMORY 0
        [emuSample 2 32 5 4000, emuSample 2 64 5 4000] ?a)
     = Inr [(''Read'', 1, 5, 10, 6)]"
    using p0 by auto
  have c8: "map_sum id (\<lambda>(loc', st', res'). map summary res')
     (parseAll example_config exact_ops emu_env XCL_PERF_MON_MEMORY 0
        [emuSample 2 32 5 4000, emuSample 2 64 5 4000]
        (?l, constructed\<lparr>mEmuTraceMsecOneCycle := Fin (- 1)\<rparr>, []))
     = Inr []"
    using p1 by auto
  from c1 c2 c3 c4 c5 c6 c7 c8 show ?thesis by blast
qed

text \<open>
  C7. A call to \<^verbatim>\<open>logTrace\<close> whose batch is empty, or which is made when the
  processed-event counter has reached the cap, is a no-op: the result vector and the
  whole engine state come back unchanged.
\<close>

theorem logTrace_noop:
  "traceVector = [] \<or> mMaxTraceEvents st \<le> mNumTraceEvents st
     \<Longrightarrow> logTrace C F env deviceName ty traceVector st resultVector = Inr (st, resultVector)"
  by (auto simp: logTrace_def split: list.splits)

theorem logTrace_noop_witness:
  "mMaxTraceEvents (constructed\<lparr>mNumTraceEvents := 0x40000\<rparr>)
      \<le> mNumTraceEvents (constructed\<lparr>mNumTraceEvents := 0x40000\<rparr>)
   \<and> logTrace example_config exact_ops hw_env ''dev'' XCL_PERF_MON_MEMORY
        [trainSample 100 0, trainSample 200 100, hwSample XCL_PERF_MON_END_EVENT 2 20 0]
        (constructed\<lparr>mNumTraceEvents := 0x40000\<rparr>) []
      = Inr (constructed\<lparr>mNumTraceEvents := 0x40000\<rparr>, [])
   \<and> logTrace example_config exact_ops emu_env ''dev'' XCL_PERF_MON_MEMORY [] constructed []
      = Inr (constructed, [])"
proof -
  have h: "mMaxTraceEvents (constructed\<lparr>mNumTraceEvents := 0x40000\<rparr>)
      \<le> mNumTraceEvents (constructed\<lparr>mNumTraceEvents := 0x40000\<rparr>)"
    by (simp add: constructed_def)
  show ?thesis
    using h logTrace_noop [of "[trainSample 100 0, trainSample 200 100, hwSample XCL_PERF_MON_END_EVENT 2 20 0]"
        "constructed\<lparr>mNumTraceEvents := 0x40000\<rparr>" example_config exact_ops hw_env "''dev''"
        XCL_PERF_MON_MEMORY "[]"]
      logTrace_noop [of "[]" constructed example_config exact_ops emu_env "''dev''" XCL_PERF_MON_MEMORY "[]"]
    by simp
qed


text \<open>
  C10. The post-pass for incomplete compute units is idempotent: at the end of every call
  that passes the entry check the started-events bitmask of every compute-unit slot is
  zero, and running the post-pass again on the resulting state adds nothing to the
  result vector.
\<close>

theorem postpass_idempotent:
  assumes "traceVector \<noteq> []" and "mNumTraceEvents st < mMaxTraceEvents st"
    and "logTrace C F env deviceName ty traceVector st resultVector = Inr (st', res')"
  shows "(\<forall>i<XSAM_MAX_NUMBER_SLOTS C. mAccelMonStartedEvents st' i = 0)
     \<and> approximateCuEnds C F env2 deviceName2 ty2 st' kt res' = res'"
proof -
  have z: "\<forall>i<XSAM_MAX_NUMBER_SLOTS C. mAccelMonStartedEvents st' i = 0"
    by (rule logTrace_cleared(3) [OF assms])
  then have "approximateCuEnds C F env2 deviceName2 ty2 st' kt res' = res'"
    by (simp add: approximateCuEnds_idle)
  with z show ?thesis by simp
qed


theorem postpass_idempotent_witness:
  "[trainSample 100 0, trainSample 200 100, hwSample XCL_PERF_MON_OTHER_EVENT 65 30 0] \<noteq> []
   \<and> mNumTraceEvents constructed < mMaxTraceEvents constructed
   \<and> (case logTrace example_config exact_ops hw_env ''dev'' XCL_PERF_MON_MEMORY
             [trainSample 100 0, trainSample 200 100, hwSample XCL_PERF_MON_OTHER_EVENT 65 30 0]
             constructed [] of
         Inl e \<Rightarrow> False
       | Inr (st', res') \<Rightarrow>
           map Type res' = [''Kernel''] \<and> mAccelMonStartedEvents st' 0 = 0
           \<and> approximateCuEnds example_config exact_ops hw_env ''dev'' XCL_PERF_MON_MEMORY
                st' DeviceTrace_zero res' = res')"
proof -
  let ?tv = "[trainSample 100 0, trainSample 200 100, hwSample XCL_PERF_MON_OTHER_EVENT 65 30 0]"
  let ?run = "logTrace example_config exact_ops hw_env ''dev'' XCL_PERF_MON_MEMORY ?tv constructed []"
  have ne: "?tv \<noteq> []" by simp
  have cap: "mNumTraceEvents constructed < mMaxTraceEvents constructed"
    by (simp add: constructed_def)
  have "map_sum id (\<lambda>(st', res'). map Type res') ?run = Inr [''Kernel'']"
    by (simp add: model_defs example_defs Let_def approximateCuEnds_def approxCu_def
          approxPort_def upt_31)
  then obtain st' res' where r: "?run = Inr (st', res')" and t: "map Type res' = [''Kernel'']"
    by (cases ?run) auto
  have n: "(0::nat) < XSAM_MAX_NUMBER_SLOTS example_config" by (simp add: example_config_def)
  from postpass_idempotent [OF ne cap r, of hw_env "''dev''" XCL_PERF_MON_MEMORY DeviceTrace_zero]
  show ?thesis using ne cap r t n by simp
qed

text \<open>
  C6. As stated (the processed-event counter never exceeds the cap) the claim fails:
  the cap is tested once, at entry, and a call that passes adds the whole batch. An
  engine whose counter is one below the cap takes a batch of two records and ends
  above the cap.
\<close>

theorem counter_exceeds_cap:
  "(case logTrace example_config exact_ops hw_env ''dev'' XCL_PERF_MON_MEMORY
          [trainSample 100 0, trainSample 200 100]
          (constructed\<lparr>mNumTraceEvents := 0x3FFFF\<rparr>) [] of
      Inl e \<Rightarrow> False
    | Inr (st', res') \<Rightarrow>
        mMaxTraceEvents st' = 0x40000 \<and> mNumTraceEvents st' = 0x40001
        \<and> mMaxTraceEvents st' < mNumTraceEvents st')"
proof -
  let ?st = "constructed\<lparr>mNumTraceEvents := 0x3FFFF\<rparr>"
  have hw: "\<not> isHwEmu hw_env" by (simp add: hw_env_def)
  have cap: "mNumTraceEvents ?st < mMaxTraceEvents ?st" by (simp add: constructed_def)
  from logTrace_hw [OF hw _ cap, of "[trainSample 100 0, trainSample 200 100]"
      example_config exact_ops "''dev''" XCL_PERF_MON_MEMORY "[]"]
  obtain st' res' where "logTrace example_config exact_ops hw_env ''dev'' XCL_PERF_MON_MEMORY
          [trainSample 100 0, trainSample 200 100] ?st [] = Inr (st', res')"
    "mNumTraceEvents st' = mNumTraceEvents ?st + of_nat (length [trainSample 100 0, trainSample 200 100])"
    "mMaxTraceEvents st' = mMaxTraceEvents ?st" by auto
  then show ?thesis by (simp add: constructed_def)
qed

text \<open>
  C6, amended. Over every sequence of calls whose batches hold at most \<open>B\<close> records
  (with cap + \<open>B\<close> within 32 bits), the cap never changes and the counter stays
  below cap + \<open>B\<close>: it can pass the cap, by less than one batch.
\<close>

theorem counter_bound:
  assumes "\<forall>c\<in>set calls. length (snd (snd (snd c))) \<le> B"
    and "unat (mMaxTraceEvents st) + B \<le> 2 ^ 32"
    and "unat (mNumTraceEvents st) < unat (mMaxTraceEvents st) + B"
    and "logTraces C F calls st res = Inr (st', res')"
  shows "mMaxTraceEvents st' = mMaxTraceEvents st
     \<and> unat (mNumTraceEvents st') < unat (mMaxTraceEvents st) + B"
  using assms
proof (induction calls arbitrary: st res)
  case Nil
  then show ?case by simp
next
  case (Cons c cs)
  obtain env dev ty tv where c: "c = (env, dev, ty, tv)" by (cases c)
  from Cons.prems(4) c obtain s1 r1 where
    1: "logTrace C F env dev ty tv st res = Inr (s1, r1)"
    and 2: "logTraces C F cs s1 r1 = Inr (st', res')"
    by (auto split: sum.splits)
  have len: "length tv \<le> B" using Cons.prems(1) c by simp
  from logTrace_counter [OF 1] have m: "mMaxTraceEvents s1 = mMaxTraceEvents st"
    and n: "mNumTraceEvents s1 = mNumTraceEvents st
        \<or> (mNumTraceEvents st < mMaxTraceEvents st
           \<and> mNumTraceEvents s1 = mNumTraceEvents st + of_nat (length tv))" by simp_all
  have b: "unat (mNumTraceEvents s1) < unat (mMaxTraceEvents s1) + B"
    using n Cons.prems(2,3) len m counter_step [of "mNumTraceEvents st" "mMaxTraceEvents st" "length tv" B]
    by auto
  have "mMaxTraceEvents st' = mMaxTraceEvents s1
     \<and> unat (mNumTraceEvents st') < unat (mMaxTraceEvents s1) + B"
    by (rule Cons.IH [OF _ _ b 2]) (use Cons.prems(1,2) m in auto)
  then show ?case using m by simp
qed

theorem counter_bound_witness:
  "(case logTraces example_config exact_ops
          [(hw_env, ''dev'', XCL_PERF_MON_MEMORY, [trainSample 100 0, trainSample 200 100]),
           (hw_env, ''dev'', XCL_PERF_MON_MEMORY, [trainSample 100 0, trainSample 200 100])]
          (constructed\<lparr>mNumTraceEvents := 0x3FFFF\<rparr>) [] of
      Inl e \<Rightarrow> False
    | Inr (st', res') \<Rightarrow>
        mMaxTraceEvents st' = 0x40000 \<and> unat (mNumTraceEvents st') < 0x40000 + 2)"
proof -
  let ?st = "constructed\<lparr>mNumTraceEvents := 0x3FFFF\<rparr>"
  let ?tv = "[trainSample 100 0, trainSample 200 100]"
  let ?calls = "[(hw_env, ''dev'', XCL_PERF_MON_MEMORY, ?tv), (hw_env, ''dev'', XCL_PERF_MON_MEMORY, ?tv)]"
  have hw: "\<not> isHwEmu hw_env" by (simp add: hw_env_def)
  have cap: "mNumTraceEvents ?st < mMaxTraceEvents ?st" by (simp add: constructed_def)
  from logTrace_hw [OF hw _ cap, of ?tv example_config exact_ops "''dev''" XCL_PERF_MON_MEMORY "[]"]
  obtain s1 r1 where 1: "logTrace example_config exact_ops hw_env ''dev'' XCL_PERF_MON_MEMORY ?tv ?st []
      = Inr (s1, r1)"
    and n1: "mNumTraceEvents s1 = mNumTraceEvents ?st + of_nat (length ?tv)"
    and m1: "mMaxTraceEvents s1 = mMaxTraceEvents ?st" by auto
  have full: "mMaxTraceEvents s1 \<le> mNumTraceEvents s1" using n1 m1 by (simp add: constructed_def)
  have 2: "logTrace example_config exact_ops hw_env ''dev'' XCL_PERF_MON_MEMORY ?tv s1 r1 = Inr (s1, r1)"
    by (rule logTrace_entry) (simp add: full)
  have run: "logTraces example_config exact_ops ?calls ?st [] = Inr (s1, r1)"
    using 1 2 by simp
  have h1: "\<forall>c\<in>set ?calls. length (snd (snd (snd c))) \<le> 2" by simp
  have h2: "unat (mMaxTraceEvents ?st) + 2 \<le> 2 ^ 32" by (simp add: constructed_def)
  have h3: "unat (mNumTraceEvents ?st) < unat (mMaxTraceEvents ?st) + 2" by (simp add: constructed_def)
  from counter_bound [OF h1 h2 h3 run]
  show ?thesis using run by (simp add: constructed_def)
qed

text \<open>
  C4. As stated for both decode modes the claim fails: in emulation mode a completed
  Kernel interval is added with \<^verbatim>\<open>push_back\<close> like every other record, so it
  follows a memory record that was completed before it.
\<close>

theorem emu_kernel_after_memory:
  "map_sum id (map Type \<circ> snd)
     (logTrace example_config exact_ops emu_env ''dev'' XCL_PERF_MON_MEMORY
        [emuSample 64 1 5 1000, emuSample 2 32 5 2000, emuSample 2 64 5 3000, emuSample 64 1 5 4000]
        constructed [])
   = Inr [''Read'', ''Kernel'']"
  by (simp add: model_defs example_defs Let_def)

text \<open>
  C4, amended. In hardware mode the result vector after a call is the old vector
  with records of type Kernel in front of it and records of other types behind it, so
  every Kernel interval of the batch precedes every stall and memory record of the
  batch. In emulation mode nothing is put in front: the records a call adds stand
  behind the old vector in the order of the trace records that complete them. The
  additions are groups, and when the call passes the entry check there is one group
  per trace record, in batch order, and for every k the loop run on the first k trace
  records (from \<open>emuLoopEntry\<close>) has added exactly the first k groups. In one pass of
  the loop body, an emulation record with trace id from 64 to 94 that is not skipped
  as a repeated host timestamp, carries the compute-unit flag and finds its compute
  unit started adds exactly one record, of type Kernel, at the back.
\<close>

theorem insertion_order:
  "(\<not> isHwEmu env \<longrightarrow>
      (\<exists>st' ks os. logTrace C F env deviceName ty traceVector st resultVector
            = Inr (st', ks @ resultVector @ os)
         \<and> (\<forall>k\<in>set ks. Type k = ''Kernel'') \<and> (\<forall>b\<in>set os. Type b \<noteq> ''Kernel'')))
   \<and> (isHwEmu env \<longrightarrow>
      (\<forall>st' res'. logTrace C F env deviceName ty traceVector st resultVector = Inr (st', res')
         \<longrightarrow> (\<exists>outs. res' = resultVector @ concat outs
               \<and> (traceVector \<noteq> [] \<and> mNumTraceEvents st < mMaxTraceEvents st
                    \<longrightarrow> length outs = length traceVector
                      \<and> (\<forall>k\<le>length traceVector. \<exists>loc1 st1.
                            parseAll C F env ty 0 (take k traceVector)
                              (initLocals C F, emuLoopEntry C traceVector st, resultVector)
                            = Inr (loc1, st1, resultVector @ concat (take k outs)))))))
   \<and> (isHwEmu env \<and> \<not> duplicateHostTimestamp loc r \<and> 64 \<le> TraceID r \<and> TraceID r \<le> 94
        \<and> ucast (EventFlags r) AND XSAM_TRACE_CU_MASK C \<noteq> 0
        \<and> mAccelMonStartedEvents st (unat (TraceID r - 64)) AND XSAM_TRACE_CU_MASK C \<noteq> 0
      \<longrightarrow> (\<exists>loc' st' k. parseSample C F env ty i r (loc, st, res) = Inr (loc', st', res @ [k])
            \<and> Type k = ''Kernel''))"
proof (intro conjI)
  show "\<not> isHwEmu env \<longrightarrow>
      (\<exists>st' ks os. logTrace C F env deviceName ty traceVector st resultVector
            = Inr (st', ks @ resultVector @ os)
         \<and> (\<forall>k\<in>set ks. Type k = ''Kernel'') \<and> (\<forall>b\<in>set os. Type b \<noteq> ''Kernel''))"
  proof (cases "traceVector = [] \<or> mMaxTraceEvents st \<le> mNumTraceEvents st")
    case True
    have "logTrace C F env deviceName ty traceVector st resultVector = Inr (st, [] @ resultVector @ [])"
      using logTrace_entry [OF True, of C F env deviceName ty resultVector] by simp
    then have "\<exists>st' ks os. logTrace C F env deviceName ty traceVector st resultVector
            = Inr (st', ks @ resultVector @ os)
         \<and> (\<forall>k\<in>set ks. Type k = ''Kernel'') \<and> (\<forall>b\<in>set os. Type b \<noteq> ''Kernel'')"
      by (metis empty_iff list.set(1))
    then show ?thesis by simp
  next
    case False
    then have ne: "traceVector \<noteq> []" and cap: "mNumTraceEvents st < mMaxTraceEvents st" by auto
    show ?thesis
    proof
      assume hw: "\<not> isHwEmu env"
      from logTrace_hw [OF hw ne cap, of C F deviceName ty resultVector]
      obtain st' res' where r: "logTrace C F env deviceName ty traceVector st resultVector = Inr (st', res')"
        and e: "hwEmits F st' ty resultVector res'" by blast
      from e obtain ks os where "res' = ks @ resultVector @ os"
        "\<forall>k\<in>set ks. Type k = ''Kernel''" "\<forall>b\<in>set os. Type b \<noteq> ''Kernel''"
        unfolding hwEmits_def by blast
      with r show "\<exists>st' ks os. logTrace C F env deviceName ty traceVector st resultVector
            = Inr (st', ks @ resultVector @ os)
         \<and> (\<forall>k\<in>set ks. Type k = ''Kernel'') \<and> (\<forall>b\<in>set os. Type b \<noteq> ''Kernel'')" by blast
    qed
  qed
next
  show "isHwEmu env \<longrightarrow>
      (\<forall>st' res'. logTrace C F env deviceName ty traceVector st resultVector = Inr (st', res')
         \<longrightarrow> (\<exists>outs. res' = resultVector @ concat outs
               \<and> (traceVector \<noteq> [] \<and> mNumTraceEvents st < mMaxTraceEvents st
                    \<longrightarrow> length outs = length traceVector
                      \<and> (\<forall>k\<le>length traceVector. \<exists>loc1 st1.
                            parseAll C F env ty 0 (take k traceVector)
                              (initLocals C F, emuLoopEntry C traceVector st, resultVector)
                            = Inr (loc1, st1, resultVector @ concat (take k outs))))))"
  proof (intro impI allI)
    fix st' res'
    assume emu: "isHwEmu env"
      and run: "logTrace C F env deviceName ty traceVector st resultVector = Inr (st', res')"
    show "\<exists>outs. res' = resultVector @ concat outs
               \<and> (traceVector \<noteq> [] \<and> mNumTraceEvents st < mMaxTraceEvents st
                    \<longrightarrow> length outs = length traceVector
                      \<and> (\<forall>k\<le>length traceVector. \<exists>loc1 st1.
                            parseAll C F env ty 0 (take k traceVector)
                              (initLocals C F, emuLoopEntry C traceVector st, resultVector)
                            = Inr (loc1, st1, resultVector @ concat (take k outs))))"
    proof (cases "traceVector = [] \<or> mMaxTraceEvents st \<le> mNumTraceEvents st")
      case True
      from logTrace_entry [OF True, of C F env deviceName ty resultVector] run
      have "res' = resultVector @ concat []" by simp
      moreover have "\<not> (traceVector \<noteq> [] \<and> mNumTraceEvents st < mMaxTraceEvents st)"
        using True by auto
      ultimately show ?thesis by blast
    next
      case False
      then have ne: "traceVector \<noteq> []" and cap: "mNumTraceEvents st < mMaxTraceEvents st" by auto
      from run emu obtain loc3 st3 where
        p: "parseAll C F env ty 0 traceVector
              (initLocals C F, emuLoopEntry C traceVector st, resultVector) = Inr (loc3, st3, res')"
        by (auto simp: logTrace_run [OF ne cap] emuLoopEntry_def split: sum.splits)
      from parseAll_emu_prefix [OF emu p] show ?thesis by blast
    qed
  qed
next
  show "isHwEmu env \<and> \<not> duplicateHostTimestamp loc r \<and> 64 \<le> TraceID r \<and> TraceID r \<le> 94
        \<and> ucast (EventFlags r) AND XSAM_TRACE_CU_MASK C \<noteq> 0
        \<and> mAccelMonStartedEvents st (unat (TraceID r - 64)) AND XSAM_TRACE_CU_MASK C \<noteq> 0
      \<longrightarrow> (\<exists>loc' st' k. parseSample C F env ty i r (loc, st, res) = Inr (loc', st', res @ [k])
            \<and> Type k = ''Kernel'')"
    using emu_kernel_end [of env loc r C st F ty i res] by blast
qed

theorem insertion_order_witness:
  "\<not> isHwEmu hw_env \<and> isHwEmu emu_env
   \<and> map_sum id (map (\<lambda>e. (Type e, StartTime e, EndTime e)) \<circ> snd)
       (logTrace example_config exact_ops hw_env ''dev'' XCL_PERF_MON_MEMORY
          [trainSample 100 0, trainSample 200 100, hwSample XCL_PERF_MON_END_EVENT 2 20 0,
           hwSample XCL_PERF_MON_OTHER_EVENT 65 30 0, hwSample XCL_PERF_MON_OTHER_EVENT 65 40 0]
          constructed [])
     = Inr [(''Kernel'', 30, 40), (''Read'', 20, 20)]
   \<and> map_sum id (map (\<lambda>e. (Type e, StartTime e, EndTime e)) \<circ> snd)
       (logTrace example_config exact_ops emu_env ''dev'' XCL_PERF_MON_MEMORY
          [emuSample 64 1 5 1000, emuSample 2 32 5 2000, emuSample 2 64 5 3000,
           emuSample 3 2 5 3500, emuSample 3 4 5 3600, emuSample 64 1 5 4000]
          constructed [])
     = Inr [(''Read'', 10, 15), (''Write'', 20, 25), (''Kernel'', 5, 30)]
   \<and> map_sum id (\<lambda>(loc1, st1, res1). map Type res1)
       (parseAll example_config exact_ops emu_env XCL_PERF_MON_MEMORY 0
          (take 3 [emuSample 64 1 5 1000, emuSample 2 32 5 2000, emuSample 2 64 5 3000,
                   emuSample 3 2 5 3500, emuSample 3 4 5 3600, emuSample 64 1 5 4000])
          (initLocals example_config exact_ops,
           emuLoopEntry example_config
             [emuSample 64 1 5 1000, emuSample 2 32 5 2000, emuSample 2 64 5 3000,
              emuSample 3 2 5 3500, emuSample 3 4 5 3600, emuSample 64 1 5 4000] constructed,
           []))
     = Inr [''Read'']
   \<and> map_sum id (\<lambda>(loc1, st1, res1). map Type res1)
       (parseAll example_config exact_ops emu_env XCL_PERF_MON_MEMORY 0
          (take 5 [emuSample 64 1 5 1000, emuSample 2 32 5 2000, emuSample 2 64 5 3000,
                   emuSample 3 2 5 3500, emuSample 3 4 5 3600, emuSample 64 1 5 4000])
          (initLocals example_config exact_ops,
           emuLoopEntry example_config
             [emuSample 64 1 5 1000, emuSample 2 32 5 2000, emuSample 2 64 5 3000,
              emuSample 3 2 5 3500, emuSample 3 4 5 3600, emuSample 64 1 5 4000] constructed,
           []))
     = Inr [''Read'', ''Write'']
   \<and> map_sum id (\<lambda>(loc1, st1, res1). map Type res1)
       (parseSample example_config exact_ops emu_env XCL_PERF_MON_MEMORY 3 (emuSample 64 1 5 4000)
          (initLocals example_config exact_ops,
           constructed\<lparr>mAccelMonStartedEvents := (\<lambda>_. 1)\<rparr>, [DeviceTrace_zero\<lparr>Type := ''Read''\<rparr>]))
     = Inr [''Read'', ''Kernel'']"
proof -
  let ?hwb = "[trainSample 100 0, trainSample 200 100, hwSample XCL_PERF_MON_END_EVENT 2 20 0,
           hwSample XCL_PERF_MON_OTHER_EVENT 65 30 0, hwSample XCL_PERF_MON_OTHER_EVENT 65 40 0]"
  let ?emb = "[emuSample 64 1 5 1000, emuSample 2 32 5 2000, emuSample 2 64 5 3000,
           emuSample 3 2 5 3500, emuSample 3 4 5 3600, emuSample 64 1 5 4000]"
  let ?hw = "logTrace example_config exact_ops hw_env ''dev'' XCL_PERF_MON_MEMORY ?hwb constructed []"
  let ?emu = "logTrace example_config exact_ops emu_env ''dev'' XCL_PERF_MON_MEMORY ?emb constructed []"
  have hw: "\<not> isHwEmu hw_env" by (simp add: hw_env_def)
  have emu: "isHwEmu emu_env" by (simp add: emu_env_def)
  have r1: "map_sum id (map (\<lambda>e. (Type e, StartTime e, EndTime e)) \<circ> snd) ?hw
     = Inr [(''Kernel'', 30, 40), (''Read'', 20, 20)]"
    by (simp add: model_defs example_defs Let_def approximateCuEnds_idle)
  have r2: "map_sum id (map (\<lambda>e. (Type e, StartTime e, EndTime e)) \<circ> snd) ?emu
     = Inr [(''Read'', 10, 15), (''Write'', 20, 25), (''Kernel'', 5, 30)]"
    by (simp add: model_defs example_defs Let_def)
  have r3: "map_sum id (\<lambda>(loc1, st1, res1). map Type res1)
       (parseAll example_config exact_ops emu_env XCL_PERF_MON_MEMORY 0 (take 3 ?emb)
          (initLocals example_config exact_ops, emuLoopEntry example_config ?emb constructed, []))
     = Inr [''Read'']"
    by (simp add: model_defs example_defs Let_def emuLoopEntry_def counted_def)
  have r4: "map_sum id (\<lambda>(loc1, st1, res1). map Type res1)
       (parseAll example_config exact_ops emu_env XCL_PERF_MON_MEMORY 0 (take 5 ?emb)
          (initLocals example_config exact_ops, emuLoopEntry example_config ?emb constructed, []))
     = Inr [''Read'', ''Write'']"
    by (simp add: model_defs example_defs Let_def emuLoopEntry_def counted_def)
  from r2 obtain st' res' where e: "?emu = Inr (st', res')" by (cases ?emu) auto
  have ne: "?emb \<noteq> [] \<and> mNumTraceEvents constructed < mMaxTraceEvents constructed"
    by (simp add: constructed_def)
  note t1 = insertion_order [of hw_env example_config exact_ops "''dev''" XCL_PERF_MON_MEMORY
      ?hwb constructed "[]", THEN conjunct1, rule_format, OF hw]
  note t2 = insertion_order [of emu_env example_config exact_ops "''dev''" XCL_PERF_MON_MEMORY
      ?emb constructed "[]", THEN conjunct2, THEN conjunct1, rule_format, OF emu e]
  from t2 ne obtain outs where "res' = [] @ concat outs" "length outs = length ?emb" by blast
  have hk: "isHwEmu emu_env
      \<and> \<not> duplicateHostTimestamp (initLocals example_config exact_ops) (emuSample 64 1 5 4000)
      \<and> 64 \<le> TraceID (emuSample 64 1 5 4000) \<and> TraceID (emuSample 64 1 5 4000) \<le> 94
      \<and> ucast (EventFlags (emuSample 64 1 5 4000)) AND XSAM_TRACE_CU_MASK example_config \<noteq> 0
      \<and> mAccelMonStartedEvents (constructed\<lparr>mAccelMonStartedEvents := (\<lambda>_. 1)\<rparr>)
            (unat (TraceID (emuSample 64 1 5 4000) - 64)) AND XSAM_TRACE_CU_MASK example_config \<noteq> 0"
    by (simp add: emu_env_def duplicateHostTimestamp_def initLocals_def emuSample_def
          example_config_def)
  from insertion_order [of emu_env example_config exact_ops _ XCL_PERF_MON_MEMORY _
      "constructed\<lparr>mAccelMonStartedEvents := (\<lambda>_. 1)\<rparr>" _
      "initLocals example_config exact_ops" "emuSample 64 1 5 4000" 3 "[DeviceTrace_zero\<lparr>Type := ''Read''\<rparr>]",
      THEN conjunct2, THEN conjunct2, rule_format, OF hk]
  obtain l5 s5 k5 where "parseSample example_config exact_ops emu_env XCL_PERF_MON_MEMORY 3
      (emuSample 64 1 5 4000)
      (initLocals example_config exact_ops,
       constructed\<lparr>mAccelMonStartedEvents := (\<lambda>_. 1)\<rparr>, [DeviceTrace_zero\<lparr>Type := ''Read''\<rparr>])
      = Inr (l5, s5, [DeviceTrace_zero\<lparr>Type := ''Read''\<rparr>] @ [k5])" "Type k5 = ''Kernel''" by blast
  then have r5: "map_sum id (\<lambda>(loc1, st1, res1). map Type res1)
       (parseSample example_config exact_ops emu_env XCL_PERF_MON_MEMORY 3 (emuSample 64 1 5 4000)
          (initLocals example_config exact_ops,
           constructed\<lparr>mAccelMonStartedEvents := (\<lambda>_. 1)\<rparr>, [DeviceTrace_zero\<lparr>Type := ''Read''\<rparr>]))
     = Inr [''Read'', ''Kernel'']"
    by (simp add: DeviceTrace_zero_def)
  with t1 show ?thesis using hw emu r1 r2 r3 r4 by blast
qed

text \<open>
  C5. As stated for both modes and every kind the claim fails: only the emulation-mode
  Read and Write paths compare the host times of a record before adding it. A record
  whose start carries the later time is added with End below Start by the hardware
  paths for Read, Write, Kernel and stall records, and by the emulation path for
  Kernel records.
\<close>

theorem end_before_start_placed:
  "map_sum id (map (\<lambda>e. (Type e, StartTime e, EndTime e, Start e, End e, dge (End e) (Start e))) \<circ> snd)
     (logTrace example_config exact_ops hw_env ''dev'' XCL_PERF_MON_MEMORY
        [trainSample 100 0, trainSample 200 100, hwSample XCL_PERF_MON_START_EVENT 2 15 0,
         hwSample XCL_PERF_MON_END_EVENT 2 10 0]
        constructed [])
   = Inr [(''Read'', 15, 10, Fin (515 / 1000000), Fin (510 / 1000000), False)]
   \<and> map_sum id (map (\<lambda>e. (Type e, StartTime e, EndTime e, Start e, End e, dge (End e) (Start e))) \<circ> snd)
     (logTrace example_config exact_ops hw_env ''dev'' XCL_PERF_MON_MEMORY
        [trainSample 100 0, trainSample 200 100, hwSample XCL_PERF_MON_START_EVENT 3 15 0,
         hwSample XCL_PERF_MON_END_EVENT 3 10 0]
        constructed [])
   = Inr [(''Write'', 15, 10, Fin (515 / 1000000), Fin (510 / 1000000), False)]
   \<and> map_sum id (map (\<lambda>e. (Type e, StartTime e, EndTime e, Start e, End e, dge (End e) (Start e))) \<circ> snd)
     (logTrace example_config exact_ops hw_env ''dev'' XCL_PERF_MON_MEMORY
        [trainSample 100 0, trainSample 200 100, hwSample XCL_PERF_MON_OTHER_EVENT 65 40 0,
         hwSample XCL_PERF_MON_OTHER_EVENT 65 30 0]
        constructed [])
   = Inr [(''Kernel'', 40, 30, Fin (540 / 1000000), Fin (530 / 1000000), False)]
   \<and> map_sum id (map (\<lambda>e. (Type e, StartTime e, EndTime e, Start e, End e, dge (End e) (Start e))) \<circ> snd)
     (logTrace example_config exact_ops hw_env ''dev'' XCL_PERF_MON_MEMORY
        [trainSample 100 0, trainSample 200 100, hwSample XCL_PERF_MON_OTHER_EVENT 66 40 0,
         hwSample XCL_PERF_MON_OTHER_EVENT 66 30 0]
        constructed [])
   = Inr [(''Intra-Kernel Dataflow Stall'', 40, 30, Fin (540 / 1000000), Fin (530 / 1000000), False)]
   \<and> map_sum id (map (\<lambda>e. (Type e, StartTime e, EndTime e, Start e, End e, dge (End e) (Start e))) \<circ> snd)
     (logTrace example_config exact_ops hw_env ''dev'' XCL_PERF_MON_MEMORY
        [trainSample 100 0, trainSample 200 100, hwSample XCL_PERF_MON_OTHER_EVENT 68 40 0,
         hwSample XCL_PERF_MON_OTHER_EVENT 68 30 0]
        constructed [])
   = Inr [(''Inter-Kernel Pipe Stall'', 40, 30, Fin (540 / 1000000), Fin (530 / 1000000), False)]
   \<and> map_sum id (map (\<lambda>e. (Type e, StartTime e, EndTime e, Start e, End e, dge (End e) (Start e))) \<circ> snd)
     (logTrace example_config exact_ops hw_env ''dev'' XCL_PERF_MON_MEMORY
        [trainSample 100 0, trainSample 200 100, hwSample XCL_PERF_MON_OTHER_EVENT 72 40 0,
         hwSample XCL_PERF_MON_OTHER_EVENT 72 30 0]
        constructed [])
   = Inr [(''External Memory Stall'', 40, 30, Fin (540 / 1000000), Fin (530 / 1000000), False)]
   \<and> map_sum id (map (\<lambda>e. (Type e, StartTime e, EndTime e, Start e, End e, dge (End e) (Start e))) \<circ> snd)
     (logTrace example_config exact_ops emu_env ''dev'' XCL_PERF_MON_MEMORY
        [emuSample 64 1 5 5000, emuSample 64 1 5 3000]
        constructed [])
   = Inr [(''Kernel'', 5, 10, Fin (2000 / 1000000), Fin 0, False)]"
  by (simp add: model_defs example_defs Let_def approximateCuEnds_idle)

text \<open>
  C5, amended. In emulation mode every Read and Write record that a call adds to the
  result vector satisfies End >= Start in the comparison of the doubles; a candidate
  that fails the comparison is not added.
\<close>

theorem emu_memory_end_ge_start:
  assumes "isHwEmu env"
    and "logTrace C F env deviceName ty traceVector st resultVector = Inr (st', res')"
  shows "\<exists>new. res' = resultVector @ new
     \<and> (\<forall>e\<in>set new. Type e = ''Read'' \<or> Type e = ''Write'' \<longrightarrow> fge F (End e) (Start e))"
proof (cases "traceVector = [] \<or> mMaxTraceEvents st \<le> mNumTraceEvents st")
  case True
  from logTrace_entry [OF True, of C F env deviceName ty resultVector] assms(2)
  have "res' = resultVector @ []" by simp
  then show ?thesis by (metis empty_iff list.set(1))
next
  case False
  then have ne: "traceVector \<noteq> []" and cap: "mNumTraceEvents st < mMaxTraceEvents st" by auto
  from logTrace_emu [OF assms(1) ne cap assms(2)] have "emuEmits F resultVector res'" by simp
  then obtain new where n: "res' = resultVector @ new"
    "\<forall>e\<in>set new. Type e = ''Kernel''
            \<or> ((Type e = ''Read'' \<or> Type e = ''Write'') \<and> fge F (End e) (Start e))"
    unfolding emuEmits_def by blast
  have "\<forall>e\<in>set new. Type e = ''Read'' \<or> Type e = ''Write'' \<longrightarrow> fge F (End e) (Start e)"
    using n(2) by auto
  with n(1) show ?thesis by blast
qed

theorem emu_memory_end_ge_start_witness:
  "isHwEmu emu_env
   \<and> map_sum id (map (\<lambda>e. (Type e, StartTime e, EndTime e, Start e, End e, dge (End e) (Start e))) \<circ> snd)
       (logTrace example_config exact_ops emu_env ''dev'' XCL_PERF_MON_MEMORY
          [emuSample 2 32 5 2000, emuSample 2 64 5 3000, emuSample 2 32 5 9000, emuSample 2 64 5 8000]
          constructed [])
     = Inr [(''Read'', 5, 10, Fin 0, Fin (1000 / 1000000), True)]"
proof -
  let ?emu = "logTrace example_config exact_ops emu_env ''dev'' XCL_PERF_MON_MEMORY
          [emuSample 2 32 5 2000, emuSample 2 64 5 3000, emuSample 2 32 5 9000, emuSample 2 64 5 8000]
          constructed []"
  have emu: "isHwEmu emu_env" by (simp add: emu_env_def)
  have r: "map_sum id (map (\<lambda>e. (Type e, StartTime e, EndTime e, Start e, End e, dge (End e) (Start e))) \<circ> snd) ?emu
     = Inr [(''Read'', 5, 10, Fin 0, Fin (1000 / 1000000), True)]"
    by (simp add: model_defs example_defs Let_def)
  then obtain st' res' where e: "?emu = Inr (st', res')" by (cases ?emu) auto
  from emu_memory_end_ge_start [OF emu e] show ?thesis using emu r by blast
qed

text \<open>
  C2. As stated for every batch with at least two records the claim fails: a call
  made when the event counter has reached the cap returns at the entry check and
  trains nothing. With the counter at the cap, the batch with the calibration pair
  (100, 1000), (200, 1100) leaves the slope and offset the constructor set, 1000 / 300
  and 0, not 1 and 900, and adds no record.
\<close>

theorem no_training_at_cap:
  "mNumTraceEvents (constructed\<lparr>mNumTraceEvents := 0x40000\<rparr>)
     = mMaxTraceEvents (constructed\<lparr>mNumTraceEvents := 0x40000\<rparr>)
   \<and> map_sum id (\<lambda>(st', res').
        (mTrainSlope st' XCL_PERF_MON_MEMORY, mTrainOffset st' XCL_PERF_MON_MEMORY,
         convertDeviceToHostTimestamp exact_ops st' 300 XCL_PERF_MON_MEMORY, map summary res'))
       (logTrace example_config exact_ops hw_env ''dev'' XCL_PERF_MON_MEMORY
          [trainSample 100 0, trainSample 200 100, hwSample XCL_PERF_MON_END_EVENT 2 300 0]
          (constructed\<lparr>mNumTraceEvents := 0x40000\<rparr>) [])
     = Inr (Fin (1000 / 300), Fin 0, Fin (1 / 1000), [])"
  by (simp add: model_defs example_defs Let_def convertDeviceToHostTimestamp_def)

text \<open>
  C2, amended. In hardware mode a call that passes the entry check (event counter
  below the cap) on a batch with at least two records sets
  slope = (y2 - y1) / (x2 - x1) and offset = y2 - slope * x2 from the device timestamps
  \<open>x\<close> and the host timestamps plus 1000 \<open>y\<close> of its first two records; after the
  call every device time converts as slope * t / 1e6 + (offset - programStart) / 1e6,
  and the host times of every record the call added are these conversions of its
  device times. The witness is the calibration pair (100, 1000), (200, 1100): slope 1,
  offset 900, and 300 converts to 300 / 1e6 + (900 - programStart) / 1e6.
\<close>

theorem clock_training:
  assumes "\<not> isHwEmu env" and "mNumTraceEvents st < mMaxTraceEvents st"
  shows "\<exists>st' ks os.
      logTrace C F env deviceName ty (r0 # r1 # rest) st resultVector = Inr (st', ks @ resultVector @ os)
    \<and> (let y1v = fadd F (of_u64 F (HostTimestamp r0)) (of_u64 F 1000);
            x1v = of_u64 F (Timestamp r0);
            y2 = fadd F (of_u64 F (HostTimestamp r1)) (of_u64 F 1000);
            x2 = of_u64 F (Timestamp r1);
            slope = fdiv F (fsub F y2 y1v) (fsub F x2 x1v);
            offset = fsub F y2 (fmul F slope x2);
            programStart = of_u64 F (clockNow env - time_ns env)
        in mTrainSlope st' ty = slope \<and> mTrainOffset st' ty = offset
         \<and> mTrainProgramStart st' ty = programStart
         \<and> (\<forall>t. convertDeviceToHostTimestamp F st' t ty =
                fadd F (fdiv F (fmul F slope (of_u64 F t)) (d1e6 F))
                       (fdiv F (fsub F offset programStart) (d1e6 F)))
         \<and> (\<forall>e\<in>set (ks @ os).
                Start e = convertDeviceToHostTimestamp F st' (StartTime e) ty
              \<and> End e = convertDeviceToHostTimestamp F st' (EndTime e) ty))"
proof -
  from logTrace_hw [OF assms(1) _ assms(2), of "r0 # r1 # rest" C F deviceName ty resultVector]
  obtain st' res' where r: "logTrace C F env deviceName ty (r0 # r1 # rest) st resultVector = Inr (st', res')"
    and c: "sameClock (hwTrained F env ty (r0 # r1 # rest) st) st'"
    and e: "hwEmits F st' ty resultVector res'" by auto
  from e obtain ks os where res': "res' = ks @ resultVector @ os"
    and k: "\<forall>k\<in>set ks. hostOf F st' ty k" and b: "\<forall>b\<in>set os. hostOf F st' ty b"
    unfolding hwEmits_def by blast
  have ho: "\<forall>e\<in>set (ks @ os).
                Start e = convertDeviceToHostTimestamp F st' (StartTime e) ty
              \<and> End e = convertDeviceToHostTimestamp F st' (EndTime e) ty"
    using k b by (auto simp: hostOf_def)
  define y1v where "y1v = fadd F (of_u64 F (HostTimestamp r0)) (of_u64 F 1000)"
  define x1v where "x1v = of_u64 F (Timestamp r0)"
  define y2 where "y2 = fadd F (of_u64 F (HostTimestamp r1)) (of_u64 F 1000)"
  define x2 where "x2 = of_u64 F (Timestamp r1)"
  define slope where "slope = fdiv F (fsub F y2 y1v) (fsub F x2 x1v)"
  define offset where "offset = fsub F y2 (fmul F slope x2)"
  define programStart where "programStart = of_u64 F (clockNow env - time_ns env)"
  have t: "mTrainSlope (hwTrained F env ty (r0 # r1 # rest) st) ty = slope"
    "mTrainOffset (hwTrained F env ty (r0 # r1 # rest) st) ty = offset"
    "mTrainProgramStart (hwTrained F env ty (r0 # r1 # rest) st) ty = programStart"
    by (simp_all add: hwTrained_def trainClock_def trainDeviceHostTimestamps_def Let_def
          slope_def offset_def programStart_def y1v_def x1v_def y2_def x2_def)
  have s: "mTrainSlope st' ty = slope" "mTrainOffset st' ty = offset"
    "mTrainProgramStart st' ty = programStart"
    using c t by (simp_all add: sameClock_def)
  have conv: "\<forall>t. convertDeviceToHostTimestamp F st' t ty =
                fadd F (fdiv F (fmul F slope (of_u64 F t)) (d1e6 F))
                       (fdiv F (fsub F offset programStart) (d1e6 F))"
    by (simp add: convertDeviceToHostTimestamp_def s)
  show ?thesis
    unfolding Let_def y1v_def [symmetric] x1v_def [symmetric] y2_def [symmetric] x2_def [symmetric]
      slope_def [symmetric] offset_def [symmetric] programStart_def [symmetric]
    using r res' s conv ho by blast
qed

theorem clock_training_witness:
  "\<not> isHwEmu hw_env \<and> mNumTraceEvents constructed < mMaxTraceEvents constructed
   \<and> map_sum id (\<lambda>(st', res').
        (mTrainSlope st' XCL_PERF_MON_MEMORY, mTrainOffset st' XCL_PERF_MON_MEMORY,
         mTrainProgramStart st' XCL_PERF_MON_MEMORY,
         convertDeviceToHostTimestamp exact_ops st' 300 XCL_PERF_MON_MEMORY,
         map (\<lambda>e. (StartTime e, EndTime e, Start e, End e)) res'))
       (logTrace example_config exact_ops hw_env ''dev'' XCL_PERF_MON_MEMORY
          (trainSample 100 0 # trainSample 200 100 # [hwSample XCL_PERF_MON_END_EVENT 2 300 0])
          constructed [])
     = Inr (Fin 1, Fin 900, Fin 400, Fin (300 / 1000000 + (900 - 400) / 1000000),
            [(300, 300, Fin (300 / 1000000 + (900 - 400) / 1000000),
              Fin (300 / 1000000 + (900 - 400) / 1000000))])"
proof -
  have hw: "\<not> isHwEmu hw_env" by (simp add: hw_env_def)
  have cap: "mNumTraceEvents constructed < mMaxTraceEvents constructed" by (simp add: constructed_def)
  have r: "map_sum id (\<lambda>(st', res').
        (mTrainSlope st' XCL_PERF_MON_MEMORY, mTrainOffset st' XCL_PERF_MON_MEMORY,
         mTrainProgramStart st' XCL_PERF_MON_MEMORY,
         convertDeviceToHostTimestamp exact_ops st' 300 XCL_PERF_MON_MEMORY,
         map (\<lambda>e. (StartTime e, EndTime e, Start e, End e)) res'))
       (logTrace example_config exact_ops hw_env ''dev'' XCL_PERF_MON_MEMORY
          (trainSample 100 0 # trainSample 200 100 # [hwSample XCL_PERF_MON_END_EVENT 2 300 0])
          constructed [])
     = Inr (Fin 1, Fin 900, Fin 400, Fin (300 / 1000000 + (900 - 400) / 1000000),
            [(300, 300, Fin (300 / 1000000 + (900 - 400) / 1000000),
              Fin (300 / 1000000 + (900 - 400) / 1000000))])"
    by (simp add: model_defs example_defs Let_def approximateCuEnds_idle)
  from clock_training [OF hw cap, of example_config exact_ops "''dev''" XCL_PERF_MON_MEMORY
      "trainSample 100 0" "trainSample 200 100" "[hwSample XCL_PERF_MON_END_EVENT 2 300 0]" "[]"]
  show ?thesis using hw cap r by blast
qed

text \<open>
  C8. The claim asks for a guard on a calibration pair with equal device timestamps.
  The code has none: the quotient is taken with divisor zero, the slope becomes
  infinite, the offset minus infinity, and every converted timestamp of the batch is
  not a number.
\<close>

theorem degenerate_pair_divides_by_zero:
  "map_sum id (\<lambda>(st', res').
        (mTrainSlope st' XCL_PERF_MON_MEMORY, mTrainOffset st' XCL_PERF_MON_MEMORY,
         map (\<lambda>e. (StartTime e, EndTime e, Start e, End e)) res'))
     (logTrace example_config exact_ops hw_env ''dev'' XCL_PERF_MON_MEMORY
        [trainSample 100 0, trainSample 100 100, hwSample XCL_PERF_MON_END_EVENT 2 300 0]
        constructed [])
   = Inr (PInf, NInf, [(300, 300, NaN, NaN)])"
  by (simp add: model_defs example_defs Let_def approximateCuEnds_idle)

text \<open>
  C3. As stated for every end event on a memory slot the claim fails in hardware
  mode: the first record of a batch is consumed for clock calibration, and trace ids
  0 and 1 (slot 0) are outside the ranges the hardware decoder knows. A read-end on an
  empty queue at index 0, or on id 0 behind the calibration pair, and a write-end on
  id 1, add no record.
\<close>

theorem hw_end_not_emitted:
  "mReadStarts constructed 1 = [] \<and> mReadStarts constructed 0 = []
   \<and> mWriteStarts constructed 0 = []
   \<and> map_sum id (map summary \<circ> snd)
        (logTrace example_config exact_ops hw_env ''dev'' XCL_PERF_MON_MEMORY
           [hwSample XCL_PERF_MON_END_EVENT 2 20 0] constructed []) = Inr []
   \<and> map_sum id (map summary \<circ> snd)
        (logTrace example_config exact_ops hw_env ''dev'' XCL_PERF_MON_MEMORY
           [trainSample 100 0, trainSample 200 100, hwSample XCL_PERF_MON_END_EVENT 0 20 0]
           constructed []) = Inr []
   \<and> map_sum id (map summary \<circ> snd)
        (logTrace example_config exact_ops hw_env ''dev'' XCL_PERF_MON_MEMORY
           [trainSample 100 0, trainSample 200 100, hwSample XCL_PERF_MON_END_EVENT 1 20 0]
           constructed []) = Inr []"
  by (simp add: model_defs example_defs Let_def approximateCuEnds_idle word_le_nat_alt)

text \<open>
  C3, amended. An end event on a memory slot whose start queue is empty, in one pass
  of the loop body \<open>parseSample\<close>. Emulation mode, trace id below 61: a record with
  the write-last flag and without the write-first flag leaves the result vector as it
  was; a record with the read-last flag and without the read-first flag adds no Read
  record (the only record it can add is the Write of its own write-end; the host write
  queue of the slot is taken to be non-empty whenever the write queue is); the loop
  goes on with the next record. Hardware mode, at any index but 0 and for a trace id
  from 2 to 61: the decoder adds one record, Read or Write by the id, with
  StartTime = EndTime = the current device timestamp and BurstLength = 1. Hardware
  mode, at index 0 or for trace id 0 or 1: the record adds nothing.
\<close>

theorem unmatched_end:
  "(isHwEmu env \<and> TraceID r < 61
      \<and> getBit (EventFlags r) (XAPM_WRITE_LAST C) \<noteq> 0
      \<and> getBit (EventFlags r) (XAPM_WRITE_FIRST C) = 0
      \<and> mWriteStarts st (unat (TraceID r div 2)) = []
    \<longrightarrow> (\<exists>loc' st'. parseSample C F env ty i r (loc, st, res) = Inr (loc', st', res)))
 \<and> (isHwEmu env \<and> TraceID r < 61
      \<and> getBit (EventFlags r) (XAPM_READ_LAST C) \<noteq> 0
      \<and> getBit (EventFlags r) (XAPM_READ_FIRST C) = 0
      \<and> mReadStarts st (unat (TraceID r div 2)) = []
      \<and> (mWriteStarts st (unat (TraceID r div 2)) \<noteq> []
            \<longrightarrow> mHostWriteStarts st (unat (TraceID r div 2)) \<noteq> [])
    \<longrightarrow> (\<exists>loc' st' ws. parseSample C F env ty i r (loc, st, res) = Inr (loc', st', res @ ws)
          \<and> (\<forall>w\<in>set ws. Type w = ''Write'')))
 \<and> (\<not> isHwEmu env \<and> i \<noteq> 0 \<and> 2 \<le> TraceID r \<and> TraceID r \<le> 61
      \<and> IS_READ C (TraceID r) \<and> EventType r = XCL_PERF_MON_END_EVENT
      \<and> mReadStarts st (unat (TraceID r div 2)) = []
    \<longrightarrow> (\<exists>loc' st' e. parseSample C F env ty i r (loc, st, res) = Inr (loc', st', res @ [e])
          \<and> Type e = ''Read'' \<and> SlotNum e = TraceID r div 2
          \<and> StartTime e = ucast (hwTimestamp C r) \<and> EndTime e = ucast (hwTimestamp C r)
          \<and> BurstLength e = 1))
 \<and> (\<not> isHwEmu env \<and> i \<noteq> 0 \<and> 2 \<le> TraceID r \<and> TraceID r \<le> 61
      \<and> \<not> IS_READ C (TraceID r) \<and> IS_WRITE C (TraceID r)
      \<and> EventType r = XCL_PERF_MON_END_EVENT
      \<and> mWriteStarts st (unat (TraceID r div 2)) = []
    \<longrightarrow> (\<exists>loc' st' e. parseSample C F env ty i r (loc, st, res) = Inr (loc', st', res @ [e])
          \<and> Type e = ''Write'' \<and> SlotNum e = TraceID r div 2
          \<and> StartTime e = ucast (hwTimestamp C r) \<and> EndTime e = ucast (hwTimestamp C r)
          \<and> BurstLength e = 1))
 \<and> (\<not> isHwEmu env \<and> (i = 0 \<or> TraceID r < 2)
    \<longrightarrow> (\<exists>loc' st'. parseSample C F env ty i r (loc, st, res) = Inr (loc', st', res)))"
proof (intro conjI impI)
  assume "isHwEmu env \<and> TraceID r < 61
      \<and> getBit (EventFlags r) (XAPM_WRITE_LAST C) \<noteq> 0
      \<and> getBit (EventFlags r) (XAPM_WRITE_FIRST C) = 0
      \<and> mWriteStarts st (unat (TraceID r div 2)) = []"
  then show "\<exists>loc' st'. parseSample C F env ty i r (loc, st, res) = Inr (loc', st', res)"
    using emu_write_end_dropped by blast
next
  assume "isHwEmu env \<and> TraceID r < 61
      \<and> getBit (EventFlags r) (XAPM_READ_LAST C) \<noteq> 0
      \<and> getBit (EventFlags r) (XAPM_READ_FIRST C) = 0
      \<and> mReadStarts st (unat (TraceID r div 2)) = []
      \<and> (mWriteStarts st (unat (TraceID r div 2)) \<noteq> []
            \<longrightarrow> mHostWriteStarts st (unat (TraceID r div 2)) \<noteq> [])"
  then show "\<exists>loc' st' ws. parseSample C F env ty i r (loc, st, res) = Inr (loc', st', res @ ws)
          \<and> (\<forall>w\<in>set ws. Type w = ''Write'')"
    using emu_read_end_dropped [of env r C st F ty i loc res] by blast
next
  assume a: "\<not> isHwEmu env \<and> i \<noteq> 0 \<and> 2 \<le> TraceID r \<and> TraceID r \<le> 61
      \<and> IS_READ C (TraceID r) \<and> EventType r = XCL_PERF_MON_END_EVENT
      \<and> mReadStarts st (unat (TraceID r div 2)) = []"
  then have "\<exists>loc' st' e. parseSample C F env ty i r (loc, st, res) = Inr (loc', st', res @ [e])
      \<and> Type e = ''Read'' \<and> SlotNum e = TraceID r div 2 \<and> EndTime e = ucast (hwTimestamp C r)
      \<and> StartTime e = (if Reserved r = 1 then ucast (hwTimestamp C r)
                        else case mReadStarts st (unat (TraceID r div 2)) of
                               [] \<Rightarrow> ucast (hwTimestamp C r) | v # vs \<Rightarrow> v)
      \<and> BurstLength e = EndTime e - StartTime e + 1
      \<and> mReadStarts st' = (if Reserved r = 1 then mReadStarts st
                        else case mReadStarts st (unat (TraceID r div 2)) of [] \<Rightarrow> mReadStarts st
                             | v # vs \<Rightarrow> (mReadStarts st)(unat (TraceID r div 2) := vs))
      \<and> mWriteStarts st' = mWriteStarts st"
    by (intro hw_read_end) simp_all
  then obtain loc' st' e where
    e: "parseSample C F env ty i r (loc, st, res) = Inr (loc', st', res @ [e])"
      "Type e = ''Read''" "SlotNum e = TraceID r div 2" "EndTime e = ucast (hwTimestamp C r)"
      "StartTime e = (if Reserved r = 1 then ucast (hwTimestamp C r)
                        else case mReadStarts st (unat (TraceID r div 2)) of
                               [] \<Rightarrow> ucast (hwTimestamp C r) | v # vs \<Rightarrow> v)"
      "BurstLength e = EndTime e - StartTime e + 1" by blast
  have "StartTime e = ucast (hwTimestamp C r)" using e(5) a by simp
  moreover from this have "BurstLength e = 1" using e(4,6) by simp
  ultimately show "\<exists>loc' st' e. parseSample C F env ty i r (loc, st, res) = Inr (loc', st', res @ [e])
          \<and> Type e = ''Read'' \<and> SlotNum e = TraceID r div 2
          \<and> StartTime e = ucast (hwTimestamp C r) \<and> EndTime e = ucast (hwTimestamp C r)
          \<and> BurstLength e = 1" using e(1-4) by blast
next
  assume a: "\<not> isHwEmu env \<and> i \<noteq> 0 \<and> 2 \<le> TraceID r \<and> TraceID r \<le> 61
      \<and> \<not> IS_READ C (TraceID r) \<and> IS_WRITE C (TraceID r)
      \<and> EventType r = XCL_PERF_MON_END_EVENT
      \<and> mWriteStarts st (unat (TraceID r div 2)) = []"
  then have "\<exists>loc' st' e. parseSample C F env ty i r (loc, st, res) = Inr (loc', st', res @ [e])
      \<and> Type e = ''Write'' \<and> SlotNum e = TraceID r div 2 \<and> EndTime e = ucast (hwTimestamp C r)
      \<and> StartTime e = (if Reserved r = 1 then ucast (hwTimestamp C r)
                        else case mWriteStarts st (unat (TraceID r div 2)) of
                               [] \<Rightarrow> ucast (hwTimestamp C r) | v # vs \<Rightarrow> v)
      \<and> BurstLength e = EndTime e - StartTime e + 1
      \<and> mWriteStarts st' = (if Reserved r = 1 then mWriteStarts st
                        else case mWriteStarts st (unat (TraceID r div 2)) of [] \<Rightarrow> mWriteStarts st
                             | v # vs \<Rightarrow> (mWriteStarts st)(unat (TraceID r div 2) := vs))
      \<and> mReadStarts st' = mReadStarts st"
    by (intro hw_write_end) simp_all
  then obtain loc' st' e where
    e: "parseSample C F env ty i r (loc, st, res) = Inr (loc', st', res @ [e])"
      "Type e = ''Write''" "SlotNum e = TraceID r div 2" "EndTime e = ucast (hwTimestamp C r)"
      "StartTime e = (if Reserved r = 1 then ucast (hwTimestamp C r)
                        else case mWriteStarts st (unat (TraceID r div 2)) of
                               [] \<Rightarrow> ucast (hwTimestamp C r) | v # vs \<Rightarrow> v)"
      "BurstLength e = EndTime e - StartTime e + 1" by blast
  have "StartTime e = ucast (hwTimestamp C r)" using e(5) a by simp
  moreover from this have "BurstLength e = 1" using e(4,6) by simp
  ultimately show "\<exists>loc' st' e. parseSample C F env ty i r (loc, st, res) = Inr (loc', st', res @ [e])
          \<and> Type e = ''Write'' \<and> SlotNum e = TraceID r div 2
          \<and> StartTime e = ucast (hwTimestamp C r) \<and> EndTime e = ucast (hwTimestamp C r)
          \<and> BurstLength e = 1" using e(1-4) by blast
next
  assume a: "\<not> isHwEmu env \<and> (i = 0 \<or> TraceID r < 2)"
  show "\<exists>loc' st'. parseSample C F env ty i r (loc, st, res) = Inr (loc', st', res)"
  proof (cases "i = 0")
    case True
    with a show ?thesis by (simp add: parseSample_hw0)
  next
    case False
    with a have id: "TraceID r < 2" by simp
    then have n: "\<not> (64 \<le> TraceID r \<and> TraceID r \<le> 544)"
      "\<not> (2 \<le> TraceID r \<and> TraceID r \<le> 61)"
      by (auto simp: word_less_nat_alt word_le_nat_alt)
    from a have hw: "\<not> isHwEmu env" by simp
    show ?thesis unfolding parseSample_hw_skip [OF hw False n] by simp
  qed
qed

theorem unmatched_end_witness:
  "isHwEmu emu_env \<and> \<not> isHwEmu hw_env
   \<and> map_sum id (\<lambda>(loc', st', res'). map Type res')
        (parseSample example_config exact_ops emu_env XCL_PERF_MON_MEMORY 2 (emuSample 3 4 5 3000)
           (initLocals example_config exact_ops, constructed, [])) = Inr []
   \<and> map_sum id (\<lambda>(loc', st', res'). map Type res')
        (parseSample example_config exact_ops emu_env XCL_PERF_MON_MEMORY 2 (emuSample 2 64 5 3000)
           (initLocals example_config exact_ops, constructed, [])) = Inr []
   \<and> map_sum id (\<lambda>(loc', st', res'). map (\<lambda>e. (Type e, SlotNum e, StartTime e, EndTime e, BurstLength e)) res')
        (parseSample example_config exact_ops hw_env XCL_PERF_MON_MEMORY 2
           (hwSample XCL_PERF_MON_END_EVENT 2 20 0)
           (initLocals example_config exact_ops, constructed, [])) = Inr [(''Read'', 1, 20, 20, 1)]
   \<and> map_sum id (\<lambda>(loc', st', res'). map (\<lambda>e. (Type e, SlotNum e, StartTime e, EndTime e, BurstLength e)) res')
        (parseSample example_config exact_ops hw_env XCL_PERF_MON_MEMORY 2
           (hwSample XCL_PERF_MON_END_EVENT 3 20 0)
           (initLocals example_config exact_ops, constructed, [])) = Inr [(''Write'', 1, 20, 20, 1)]
   \<and> map_sum id (map (\<lambda>e. (Type e, SlotNum e, StartTime e, EndTime e, BurstLength e)) \<circ> snd)
        (logTrace example_config exact_ops hw_env ''dev'' XCL_PERF_MON_MEMORY
           [trainSample 100 0, trainSample 200 100, hwSample XCL_PERF_MON_END_EVENT 2 20 0]
           constructed []) = Inr [(''Read'', 1, 20, 20, 1)]
   \<and> map_sum id (\<lambda>(loc', st', res'). map Type res')
        (parseSample example_config exact_ops hw_env XCL_PERF_MON_MEMORY 0
           (hwSample XCL_PERF_MON_END_EVENT 2 20 0)
           (initLocals example_config exact_ops, constructed, [])) = Inr []
   \<and> map_sum id (\<lambda>(loc', st', res'). map Type res')
        (parseSample example_config exact_ops hw_env XCL_PERF_MON_MEMORY 2
           (hwSample XCL_PERF_MON_END_EVENT 1 20 0)
           (initLocals example_config exact_ops, constructed, [])) = Inr []"
proof -
  let ?a = "(initLocals example_config exact_ops, constructed, [])"
  have emu: "isHwEmu emu_env" by (simp add: emu_env_def)
  have hw: "\<not> isHwEmu hw_env" by (simp add: hw_env_def)
  have w: "\<exists>loc' st'. parseSample example_config exact_ops emu_env XCL_PERF_MON_MEMORY 2
      (emuSample 3 4 5 3000) ?a = Inr (loc', st', [])"
    using unmatched_end [of emu_env "emuSample 3 4 5 3000" example_config constructed exact_ops
        XCL_PERF_MON_MEMORY 2 "initLocals example_config exact_ops" "[]", THEN conjunct1]
    by (simp add: example_defs getBit_def)
  have r: "\<exists>loc' st' ws. parseSample example_config exact_ops emu_env XCL_PERF_MON_MEMORY 2
      (emuSample 2 64 5 3000) ?a = Inr (loc', st', [] @ ws) \<and> (\<forall>w\<in>set ws. Type w = ''Write'')"
    using unmatched_end [of emu_env "emuSample 2 64 5 3000" example_config constructed exact_ops
        XCL_PERF_MON_MEMORY 2 "initLocals example_config exact_ops" "[]", THEN conjunct2, THEN conjunct1]
    by (simp add: example_defs getBit_def)
  have hr: "\<exists>loc' st' e. parseSample example_config exact_ops hw_env XCL_PERF_MON_MEMORY 2
      (hwSample XCL_PERF_MON_END_EVENT 2 20 0) ?a = Inr (loc', st', [] @ [e])
      \<and> Type e = ''Read'' \<and> SlotNum e = TraceID (hwSample XCL_PERF_MON_END_EVENT 2 20 0) div 2
      \<and> StartTime e = ucast (hwTimestamp example_config (hwSample XCL_PERF_MON_END_EVENT 2 20 0))
      \<and> EndTime e = ucast (hwTimestamp example_config (hwSample XCL_PERF_MON_END_EVENT 2 20 0))
      \<and> BurstLength e = 1"
    using unmatched_end [of hw_env "hwSample XCL_PERF_MON_END_EVENT 2 20 0" example_config constructed exact_ops
        XCL_PERF_MON_MEMORY 2 "initLocals example_config exact_ops" "[]",
        THEN conjunct2, THEN conjunct2, THEN conjunct1]
    by (simp add: example_defs)
  have hwr: "\<exists>loc' st' e. parseSample example_config exact_ops hw_env XCL_PERF_MON_MEMORY 2
      (hwSample XCL_PERF_MON_END_EVENT 3 20 0) ?a = Inr (loc', st', [] @ [e])
      \<and> Type e = ''Write'' \<and> SlotNum e = TraceID (hwSample XCL_PERF_MON_END_EVENT 3 20 0) div 2
      \<and> StartTime e = ucast (hwTimestamp example_config (hwSample XCL_PERF_MON_END_EVENT 3 20 0))
      \<and> EndTime e = ucast (hwTimestamp example_config (hwSample XCL_PERF_MON_END_EVENT 3 20 0))
      \<and> BurstLength e = 1"
    using unmatched_end [of hw_env "hwSample XCL_PERF_MON_END_EVENT 3 20 0" example_config constructed exact_ops
        XCL_PERF_MON_MEMORY 2 "initLocals example_config exact_ops" "[]",
        THEN conjunct2, THEN conjunct2, THEN conjunct2, THEN conjunct1]
    by (simp add: example_defs)
  have e1: "map_sum id (\<lambda>(loc', st', res'). map Type res')
        (parseSample example_config exact_ops emu_env XCL_PERF_MON_MEMORY 2 (emuSample 3 4 5 3000) ?a) = Inr []"
    using w by auto
  have e2: "map_sum id (\<lambda>(loc', st', res'). map Type res')
        (parseSample example_config exact_ops emu_env XCL_PERF_MON_MEMORY 2 (emuSample 2 64 5 3000) ?a) = Inr []"
    by (simp add: model_defs example_defs Let_def)
  have e3: "map_sum id (\<lambda>(loc', st', res'). map (\<lambda>e. (Type e, SlotNum e, StartTime e, EndTime e, BurstLength e)) res')
        (parseSample example_config exact_ops hw_env XCL_PERF_MON_MEMORY 2
           (hwSample XCL_PERF_MON_END_EVENT 2 20 0) ?a) = Inr [(''Read'', 1, 20, 20, 1)]"
    using hr by (auto simp: example_defs hwTimestamp_def)
  have e4: "map_sum id (\<lambda>(loc', st', res'). map (\<lambda>e. (Type e, SlotNum e, StartTime e, EndTime e, BurstLength e)) res')
        (parseSample example_config exact_ops hw_env XCL_PERF_MON_MEMORY 2
           (hwSample XCL_PERF_MON_END_EVENT 3 20 0) ?a) = Inr [(''Write'', 1, 20, 20, 1)]"
    using hwr by (auto simp: example_defs hwTimestamp_def)
  have e5: "map_sum id (map (\<lambda>e. (Type e, SlotNum e, StartTime e, EndTime e, BurstLength e)) \<circ> snd)
        (logTrace example_config exact_ops hw_env ''dev'' XCL_PERF_MON_MEMORY
           [trainSample 100 0, trainSample 200 100, hwSample XCL_PERF_MON_END_EVENT 2 20 0]
           constructed []) = Inr [(''Read'', 1, 20, 20, 1)]"
    by (simp add: model_defs example_defs Let_def approximateCuEnds_idle)
  have s0: "\<exists>loc' st'. parseSample example_config exact_ops hw_env XCL_PERF_MON_MEMORY 0
      (hwSample XCL_PERF_MON_END_EVENT 2 20 0) ?a = Inr (loc', st', [])"
    using unmatched_end [of hw_env "hwSample XCL_PERF_MON_END_EVENT 2 20 0" example_config constructed exact_ops
        XCL_PERF_MON_MEMORY 0 "initLocals example_config exact_ops" "[]",
        THEN conjunct2, THEN conjunct2, THEN conjunct2, THEN conjunct2]
    by (simp add: example_defs)
  have s1: "\<exists>loc' st'. parseSample example_config exact_ops hw_env XCL_PERF_MON_MEMORY 2
      (hwSample XCL_PERF_MON_END_EVENT 1 20 0) ?a = Inr (loc', st', [])"
    using unmatched_end [of hw_env "hwSample XCL_PERF_MON_END_EVENT 1 20 0" example_config constructed exact_ops
        XCL_PERF_MON_MEMORY 2 "initLocals example_config exact_ops" "[]",
        THEN conjunct2, THEN conjunct2, THEN conjunct2, THEN conjunct2]
    by (simp add: example_defs)
  have e6: "map_sum id (\<lambda>(loc', st', res'). map Type res')
        (parseSample example_config exact_ops hw_env XCL_PERF_MON_MEMORY 0
           (hwSample XCL_PERF_MON_END_EVENT 2 20 0) ?a) = Inr []"
    using s0 by auto
  have e7: "map_sum id (\<lambda>(loc', st', res'). map Type res')
        (parseSample example_config exact_ops hw_env XCL_PERF_MON_MEMORY 2
           (hwSample XCL_PERF_MON_END_EVENT 1 20 0) ?a) = Inr []"
    using s1 by auto
  show ?thesis using emu hw e1 e2 e3 e4 e5 e6 e7 r by blast
qed

text \<open>
  C9. As stated (two skip rules, the known id ranges being those of the record
  format: 2 to 61, 64 to 544 and 64 to 94) the claim fails.
  The first record of a hardware batch is consumed by \<^verbatim>\<open>continue\<close> for clock
  calibration whatever it holds: a read-end with id 2 at index 0 adds nothing, though
  the memory-slot matcher would have added a Read record. In emulation mode id 61 is
  not decoded (id 60 is), and ids above 94 are not decoded (a record pair on id 100 adds
  nothing, the same pair on id 90 adds a Kernel record). The repeated-host-timestamp
  test compares with a 32-bit copy of the previous host timestamp, so a record with
  host timestamp 5 and device timestamp 1 behind a record with host timestamp
  0x100000005 is consumed although its host timestamp is new.
\<close>

theorem consumed_without_decoding:
  "map_sum id (\<lambda>(loc', st', res'). (map Type res', mPerfMonLastTranx st' 1))
        (parseSample example_config exact_ops hw_env XCL_PERF_MON_MEMORY 0
           (hwSample XCL_PERF_MON_END_EVENT 2 20 0)
           (initLocals example_config exact_ops, constructed, [])) = Inr ([], 0)
   \<and> (\<lambda>(st', res'). (map Type res', mPerfMonLastTranx st' 1))
        (hwMemory example_config exact_ops XCL_PERF_MON_MEMORY (hwSample XCL_PERF_MON_END_EVENT 2 20 0)
           1 20 (constructed, [])) = ([''Read''], 20)
   \<and> map_sum id (map Type \<circ> snd)
        (logTrace example_config exact_ops hw_env ''dev'' XCL_PERF_MON_MEMORY
           [hwSample XCL_PERF_MON_END_EVENT 2 20 0] constructed []) = Inr []
   \<and> map_sum id (\<lambda>(st', res'). (mReadStarts st' 30, mReadStarts st' 1))
        (logTrace example_config exact_ops emu_env ''dev'' XCL_PERF_MON_MEMORY
           [emuSample 61 32 5 2000, emuSample 2 32 5 3000] constructed []) = Inr ([], [10])
   \<and> map_sum id (\<lambda>(st', res'). (mReadStarts st' 30, mReadStarts st' 1))
        (logTrace example_config exact_ops emu_env ''dev'' XCL_PERF_MON_MEMORY
           [emuSample 60 32 5 2000, emuSample 2 32 5 3000] constructed []) = Inr ([5], [10])
   \<and> map_sum id (map Type \<circ> snd)
        (logTrace example_config exact_ops emu_env ''dev'' XCL_PERF_MON_MEMORY
           [emuSample 100 1 5 2000, emuSample 100 1 5 3000] constructed []) = Inr []
   \<and> map_sum id (map Type \<circ> snd)
        (logTrace example_config exact_ops emu_env ''dev'' XCL_PERF_MON_MEMORY
           [emuSample 90 1 5 2000, emuSample 90 1 5 3000] constructed []) = Inr [''Kernel'']
   \<and> HostTimestamp (emuSample 2 32 1 5) \<noteq> HostTimestamp (emuSample 2 32 7 0x100000005)
   \<and> map_sum id (\<lambda>(st', res'). mReadStarts st' 1)
        (logTrace example_config exact_ops emu_env ''dev'' XCL_PERF_MON_MEMORY
           [emuSample 2 32 7 0x100000005, emuSample 2 32 1 5] constructed []) = Inr [7]
   \<and> map_sum id (\<lambda>(st', res'). mReadStarts st' 1)
        (logTrace example_config exact_ops emu_env ''dev'' XCL_PERF_MON_MEMORY
           [emuSample 2 32 7 0x100000005, emuSample 2 32 1 6] constructed []) = Inr [7, 8]"
  by (simp add: model_defs example_defs Let_def approximateCuEnds_idle clearStarted_def emuMemory_def emuAccel_def emuWriteStart_def emuReadStart_def emuTimestamp_def hwTimestamp_def getBit_def pushq_def relativeTimestampNsec_def)

text \<open>
  C9, amended. One pass of the loop body handles a record in exactly one of these
  ways. Emulation mode: if the host timestamp equals \<^verbatim>\<open>prevHostTimestamp\<close> (a 32-bit
  value) and the device timestamp is 1, the record is consumed; otherwise a trace id
  below 61 goes once to the memory-slot matcher \<open>emuMemory\<close>, a trace id from 64 to 94
  goes once to the compute-unit tracker \<open>emuAccel\<close>, and ids 61, 62, 63 and above 94
  are consumed; in the three latter cases \<^verbatim>\<open>prevHostTimestamp\<close> becomes the host
  timestamp cut to 32 bits. Hardware mode: the record at index 0 is consumed; at any
  other index a trace id from 2 to 61 goes once to the memory-slot matcher \<open>hwMemory\<close>
  with slot id / 2, a trace id from 64 to 544 goes once to the compute-unit tracker
  \<open>hwAccel\<close> with slot (id - 64) / 16, and ids 0, 1, 62, 63 and above 544 are consumed.
  The decode path runs on the state the clock part left. A consumed record leaves the
  result vector, every per-slot array and the pending kernel record as they were.
\<close>

theorem routing:
  "(isHwEmu env \<and> \<not> (HostTimestamp r = ucast (prevHostTimestamp loc) \<and> Timestamp r = 1)
      \<and> TraceID r < 61
     \<longrightarrow> parseSample C F env ty i r (loc, st, res) =
          (case getTimestampNsec C (mStartTimeNsec st) (HostTimestamp r) of
             (h, start') \<Rightarrow>
               (case emuMemory C F r (emuTimestamp C (mPrevTimestamp st ty) r) h
                       (st\<lparr>mPrevTimestamp := (mPrevTimestamp st)
                              (ty := emuTimestamp C (mPrevTimestamp st ty) r),
                           mStartTimeNsec := start'\<rparr>) res of
                  Inl e \<Rightarrow> Inl e
                | Inr (st', res') \<Rightarrow>
                    Inr (loc\<lparr>prevHostTimestamp := ucast (HostTimestamp r)\<rparr>, st', res'))))
 \<and> (isHwEmu env \<and> \<not> (HostTimestamp r = ucast (prevHostTimestamp loc) \<and> Timestamp r = 1)
      \<and> 64 \<le> TraceID r \<and> TraceID r \<le> 94
     \<longrightarrow> parseSample C F env ty i r (loc, st, res) =
          (case getTimestampNsec C (mStartTimeNsec st) (HostTimestamp r) of
             (h, start') \<Rightarrow>
               (case emuAccel C F r (emuTimestamp C (mPrevTimestamp st ty) r) h
                       (kernelTrace loc,
                        st\<lparr>mPrevTimestamp := (mPrevTimestamp st)
                              (ty := emuTimestamp C (mPrevTimestamp st ty) r),
                           mStartTimeNsec := start'\<rparr>, res) of
                  (kt, st', res') \<Rightarrow>
                    Inr (loc\<lparr>prevHostTimestamp := ucast (HostTimestamp r), kernelTrace := kt\<rparr>,
                         st', res'))))
 \<and> (\<not> isHwEmu env \<and> i \<noteq> 0 \<and> 2 \<le> TraceID r \<and> TraceID r \<le> 61
     \<longrightarrow> parseSample C F env ty i r (loc, st, res) =
          (case hwMemory C F ty r (TraceID r div 2) (hwTimestamp C r)
                  (if i = 1 then trainClock F env ty r (y1 loc) (x1 loc) st else st, res) of
             (st', res') \<Rightarrow> Inr (loc, st', res')))
 \<and> (\<not> isHwEmu env \<and> i \<noteq> 0 \<and> 64 \<le> TraceID r \<and> TraceID r \<le> 544
     \<longrightarrow> parseSample C F env ty i r (loc, st, res) =
          (case hwAccel C F ty r ((TraceID r - 64) div 16) (hwTimestamp C r)
                  (kernelTrace loc,
                   if i = 1 then trainClock F env ty r (y1 loc) (x1 loc) st else st, res) of
             (kt, st', res') \<Rightarrow> Inr (loc\<lparr>kernelTrace := kt\<rparr>, st', res')))
 \<and> ((isHwEmu env
        \<and> ((HostTimestamp r = ucast (prevHostTimestamp loc) \<and> Timestamp r = 1)
            \<or> (61 \<le> TraceID r \<and> TraceID r < 64) \<or> 94 < TraceID r))
      \<or> (\<not> isHwEmu env
        \<and> (i = 0 \<or> TraceID r < 2 \<or> (61 < TraceID r \<and> TraceID r < 64) \<or> 544 < TraceID r))
     \<longrightarrow> (\<exists>loc' st'. parseSample C F env ty i r (loc, st, res) = Inr (loc', st', res)
           \<and> kernelTrace loc' = kernelTrace loc \<and> sameSlots st st'
           \<and> prevHostTimestamp loc' =
                (if isHwEmu env
                    \<and> \<not> (HostTimestamp r = ucast (prevHostTimestamp loc) \<and> Timestamp r = 1)
                 then ucast (HostTimestamp r) else prevHostTimestamp loc)))"
proof -
  obtain h start' where g: "getTimestampNsec C (mStartTimeNsec st) (HostTimestamp r) = (h, start')"
    by (rule prod.exhaust)
  define st1 where "st1 = (if i = 1 then trainClock F env ty r (y1 loc) (x1 loc) st else st)"
  have d: "duplicateHostTimestamp loc r
      = (HostTimestamp r = ucast (prevHostTimestamp loc) \<and> Timestamp r = 1)"
    by (simp add: duplicateHostTimestamp_def)
  have c1: "parseSample C F env ty i r (loc, st, res) =
          (case getTimestampNsec C (mStartTimeNsec st) (HostTimestamp r) of
             (h, start') \<Rightarrow>
               (case emuMemory C F r (emuTimestamp C (mPrevTimestamp st ty) r) h
                       (st\<lparr>mPrevTimestamp := (mPrevTimestamp st)
                              (ty := emuTimestamp C (mPrevTimestamp st ty) r),
                           mStartTimeNsec := start'\<rparr>) res of
                  Inl e \<Rightarrow> Inl e
                | Inr (st', res') \<Rightarrow>
                    Inr (loc\<lparr>prevHostTimestamp := ucast (HostTimestamp r)\<rparr>, st', res')))"
    if "isHwEmu env" "\<not> duplicateHostTimestamp loc r" "TraceID r < 61"
    unfolding parseSample_emu_mem [OF that g] g by simp
  have c2: "parseSample C F env ty i r (loc, st, res) =
          (case getTimestampNsec C (mStartTimeNsec st) (HostTimestamp r) of
             (h, start') \<Rightarrow>
               (case emuAccel C F r (emuTimestamp C (mPrevTimestamp st ty) r) h
                       (kernelTrace loc,
                        st\<lparr>mPrevTimestamp := (mPrevTimestamp st)
                              (ty := emuTimestamp C (mPrevTimestamp st ty) r),
                           mStartTimeNsec := start'\<rparr>, res) of
                  (kt, st', res') \<Rightarrow>
                    Inr (loc\<lparr>prevHostTimestamp := ucast (HostTimestamp r), kernelTrace := kt\<rparr>,
                         st', res')))"
    if "isHwEmu env" "\<not> duplicateHostTimestamp loc r" "64 \<le> TraceID r" "TraceID r \<le> 94"
    unfolding parseSample_emu_cu [OF that g] g by (simp split: prod.splits)
  have c3: "parseSample C F env ty i r (loc, st, res) =
          (case hwMemory C F ty r (TraceID r div 2) (hwTimestamp C r) (st1, res) of
             (st', res') \<Rightarrow> Inr (loc, st', res'))"
    if "\<not> isHwEmu env" "i \<noteq> 0" "2 \<le> TraceID r" "TraceID r \<le> 61"
    by (rule parseSample_hw_spm [OF that st1_def])
  have c4: "parseSample C F env ty i r (loc, st, res) =
          (case hwAccel C F ty r ((TraceID r - 64) div 16) (hwTimestamp C r)
                  (kernelTrace loc, st1, res) of
             (kt, st', res') \<Rightarrow> Inr (loc\<lparr>kernelTrace := kt\<rparr>, st', res'))"
    if "\<not> isHwEmu env" "i \<noteq> 0" "64 \<le> TraceID r" "TraceID r \<le> 544"
    by (rule parseSample_hw_sam [OF that st1_def])
  have s1: "sameSlots st st1" by (simp add: st1_def sameSlots_trainClock sameSlots_refl)
  have k: "\<exists>loc' st'. parseSample C F env ty i r (loc, st, res) = Inr (loc', st', res)
           \<and> kernelTrace loc' = kernelTrace loc \<and> sameSlots st st'
           \<and> prevHostTimestamp loc' =
                (if isHwEmu env \<and> \<not> duplicateHostTimestamp loc r
                 then ucast (HostTimestamp r) else prevHostTimestamp loc)"
    if a: "(isHwEmu env
        \<and> (duplicateHostTimestamp loc r
            \<or> (61 \<le> TraceID r \<and> TraceID r < 64) \<or> 94 < TraceID r))
      \<or> (\<not> isHwEmu env
        \<and> (i = 0 \<or> TraceID r < 2 \<or> (61 < TraceID r \<and> TraceID r < 64) \<or> 544 < TraceID r))"
  proof -
    consider (dup) "isHwEmu env" "duplicateHostTimestamp loc r"
      | (emu) "isHwEmu env" "\<not> duplicateHostTimestamp loc r"
          "(61 \<le> TraceID r \<and> TraceID r < 64) \<or> 94 < TraceID r"
      | (hw0) "\<not> isHwEmu env" "i = 0"
      | (hw) "\<not> isHwEmu env" "i \<noteq> 0"
          "TraceID r < 2 \<or> (61 < TraceID r \<and> TraceID r < 64) \<or> 544 < TraceID r"
      using a by blast
    then show ?thesis
    proof cases
      case dup
      show ?thesis
        unfolding parseSample_emu_dup [OF dup] using dup by (simp add: sameSlots_clock)
    next
      case emu
      from emu(3) have n: "\<not> TraceID r < 61" "\<not> (64 \<le> TraceID r \<and> TraceID r \<le> 94)"
        by (auto simp: word_less_nat_alt word_le_nat_alt)
      show ?thesis
        unfolding parseSample_emu_skip [OF emu(1,2) n g] using emu(1,2) by (simp add: sameSlots_clock)
    next
      case hw0
      then show ?thesis by (simp add: parseSample_hw0 sameSlots_refl)
    next
      case hw
      from hw(3) have n: "\<not> (64 \<le> TraceID r \<and> TraceID r \<le> 544)"
        "\<not> (2 \<le> TraceID r \<and> TraceID r \<le> 61)"
        by (auto simp: word_less_nat_alt word_le_nat_alt)
      show ?thesis
        unfolding parseSample_hw_skip [OF hw(1,2) n] st1_def [symmetric] using s1 hw(1) by simp
    qed
  qed
  show ?thesis
    unfolding d [symmetric] st1_def [symmetric]
    using c1 c2 c3 c4 k by blast
qed

theorem routing_witness:
  "isHwEmu emu_env \<and> \<not> isHwEmu hw_env
   \<and> map_sum id (\<lambda>(loc', st', res'). (mReadStarts st' 1, mHostReadStarts st' 1))
        (parseSample example_config exact_ops emu_env XCL_PERF_MON_MEMORY 0 (emuSample 2 32 5 2000)
           (initLocals example_config exact_ops, constructed, [])) = Inr ([5], [0])
   \<and> map_sum id (\<lambda>(loc', st', res'). (mAccelMonStartedEvents st' 0, mAccelMonCuTime st' 0))
        (parseSample example_config exact_ops emu_env XCL_PERF_MON_MEMORY 0 (emuSample 64 1 5 2000)
           (initLocals example_config exact_ops, constructed, [])) = Inr (1, 5)
   \<and> map_sum id (\<lambda>(loc', st', res'). map summary res')
        (parseSample example_config exact_ops hw_env XCL_PERF_MON_MEMORY 2
           (hwSample XCL_PERF_MON_END_EVENT 2 20 0)
           (initLocals example_config exact_ops, constructed, [])) = Inr [(''Read'', 1, 20, 20, 1)]
   \<and> map_sum id (\<lambda>(loc', st', res'). (mAccelMonStartedEvents st' 0, mAccelMonCuTime st' 0))
        (parseSample example_config exact_ops hw_env XCL_PERF_MON_MEMORY 2
           (hwSample XCL_PERF_MON_OTHER_EVENT 65 30 0)
           (initLocals example_config exact_ops, constructed, [])) = Inr (1, 30)
   \<and> map_sum id (\<lambda>(loc', st', res'). (map Type res', mReadStarts st' 0))
        (parseSample example_config exact_ops hw_env XCL_PERF_MON_MEMORY 2 (trainSample 200 100)
           (initLocals example_config exact_ops, constructed, [])) = Inr ([], [])
   \<and> map_sum id (\<lambda>(loc', st', res'). (map Type res', mReadStarts st' 30))
        (parseSample example_config exact_ops emu_env XCL_PERF_MON_MEMORY 0 (emuSample 61 32 5 2000)
           (initLocals example_config exact_ops, constructed, [])) = Inr ([], [])"
proof -
  let ?l = "initLocals example_config exact_ops"
  let ?a = "(initLocals example_config exact_ops, constructed, [])"
  have emu: "isHwEmu emu_env" by (simp add: emu_env_def)
  have hw: "\<not> isHwEmu hw_env" by (simp add: hw_env_def)
  note t1 = routing [of emu_env "emuSample 2 32 5 2000" ?l example_config exact_ops
      XCL_PERF_MON_MEMORY 0 constructed "[]", THEN conjunct1, rule_format]
  note t2 = routing [of emu_env "emuSample 64 1 5 2000" ?l example_config exact_ops
      XCL_PERF_MON_MEMORY 0 constructed "[]", THEN conjunct2, THEN conjunct1, rule_format]
  note t3 = routing [of hw_env "hwSample XCL_PERF_MON_END_EVENT 2 20 0" ?l example_config exact_ops
      XCL_PERF_MON_MEMORY 2 constructed "[]",
      THEN conjunct2, THEN conjunct2, THEN conjunct1, rule_format]
  note t4 = routing [of hw_env "hwSample XCL_PERF_MON_OTHER_EVENT 65 30 0" ?l example_config exact_ops
      XCL_PERF_MON_MEMORY 2 constructed "[]",
      THEN conjunct2, THEN conjunct2, THEN conjunct2, THEN conjunct1, rule_format]
  note t5 = routing [of hw_env "trainSample 200 100" ?l example_config exact_ops
      XCL_PERF_MON_MEMORY 2 constructed "[]",
      THEN conjunct2, THEN conjunct2, THEN conjunct2, THEN conjunct2, rule_format]
  note t6 = routing [of emu_env "emuSample 61 32 5 2000" ?l example_config exact_ops
      XCL_PERF_MON_MEMORY 0 constructed "[]",
      THEN conjunct2, THEN conjunct2, THEN conjunct2, THEN conjunct2, rule_format]
  have h1: "isHwEmu emu_env \<and> \<not> (HostTimestamp (emuSample 2 32 5 2000) = ucast (prevHostTimestamp ?l)
        \<and> Timestamp (emuSample 2 32 5 2000) = 1) \<and> TraceID (emuSample 2 32 5 2000) < 61"
    by (simp add: emu_env_def emuSample_def initLocals_def)
  have h2: "isHwEmu emu_env \<and> \<not> (HostTimestamp (emuSample 64 1 5 2000) = ucast (prevHostTimestamp ?l)
        \<and> Timestamp (emuSample 64 1 5 2000) = 1)
        \<and> 64 \<le> TraceID (emuSample 64 1 5 2000) \<and> TraceID (emuSample 64 1 5 2000) \<le> 94"
    by (simp add: emu_env_def emuSample_def initLocals_def)
  have h3: "\<not> isHwEmu hw_env \<and> (2::nat) \<noteq> 0 \<and> 2 \<le> TraceID (hwSample XCL_PERF_MON_END_EVENT 2 20 0)
        \<and> TraceID (hwSample XCL_PERF_MON_END_EVENT 2 20 0) \<le> 61"
    by (simp add: hw_env_def hwSample_def)
  have h4: "\<not> isHwEmu hw_env \<and> (2::nat) \<noteq> 0 \<and> 64 \<le> TraceID (hwSample XCL_PERF_MON_OTHER_EVENT 65 30 0)
        \<and> TraceID (hwSample XCL_PERF_MON_OTHER_EVENT 65 30 0) \<le> 544"
    by (simp add: hw_env_def hwSample_def)
  have e1: "map_sum id (\<lambda>(loc', st', res'). (mReadStarts st' 1, mHostReadStarts st' 1))
        (parseSample example_config exact_ops emu_env XCL_PERF_MON_MEMORY 0 (emuSample 2 32 5 2000) ?a)
        = Inr ([5], [0])"
    unfolding t1 [OF h1]
    by (simp add: model_defs example_defs emuMemory_def emuWriteStart_def emuReadStart_def
          emuTimestamp_def getBit_def pushq_def relativeTimestampNsec_def Let_def)
  have e2: "map_sum id (\<lambda>(loc', st', res'). (mAccelMonStartedEvents st' 0, mAccelMonCuTime st' 0))
        (parseSample example_config exact_ops emu_env XCL_PERF_MON_MEMORY 0 (emuSample 64 1 5 2000) ?a)
        = Inr (1, 5)"
    unfolding t2 [OF h2]
    by (simp add: model_defs example_defs emuAccel_def emuTimestamp_def
          relativeTimestampNsec_def Let_def)
  have e3: "map_sum id (\<lambda>(loc', st', res'). map summary res')
        (parseSample example_config exact_ops hw_env XCL_PERF_MON_MEMORY 2
           (hwSample XCL_PERF_MON_END_EVENT 2 20 0) ?a) = Inr [(''Read'', 1, 20, 20, 1)]"
    unfolding t3 [OF h3]
    by (simp add: model_defs example_defs hwTimestamp_def summary_def Let_def)
  have e4: "map_sum id (\<lambda>(loc', st', res'). (mAccelMonStartedEvents st' 0, mAccelMonCuTime st' 0))
        (parseSample example_config exact_ops hw_env XCL_PERF_MON_MEMORY 2
           (hwSample XCL_PERF_MON_OTHER_EVENT 65 30 0) ?a) = Inr (1, 30)"
    unfolding t4 [OF h4]
    by (simp add: model_defs example_defs hwTimestamp_def Let_def)
  have "(isHwEmu hw_env
        \<and> ((HostTimestamp (trainSample 200 100) = ucast (prevHostTimestamp ?l)
              \<and> Timestamp (trainSample 200 100) = 1)
            \<or> (61 \<le> TraceID (trainSample 200 100) \<and> TraceID (trainSample 200 100) < 64)
            \<or> 94 < TraceID (trainSample 200 100)))
      \<or> (\<not> isHwEmu hw_env
        \<and> ((2::nat) = 0 \<or> TraceID (trainSample 200 100) < 2
            \<or> (61 < TraceID (trainSample 200 100) \<and> TraceID (trainSample 200 100) < 64)
            \<or> 544 < TraceID (trainSample 200 100)))"
    by (simp add: hw_env_def trainSample_def)
  from t5 [OF this] obtain loc' st' where
    s: "parseSample example_config exact_ops hw_env XCL_PERF_MON_MEMORY 2 (trainSample 200 100) ?a
        = Inr (loc', st', [])" "sameSlots constructed st'" by blast
  have e5: "map_sum id (\<lambda>(loc', st', res'). (map Type res', mReadStarts st' 0))
        (parseSample example_config exact_ops hw_env XCL_PERF_MON_MEMORY 2 (trainSample 200 100) ?a)
        = Inr ([], [])"
    using s by (simp add: sameSlots_def constructed_def)
  have "(isHwEmu emu_env
        \<and> ((HostTimestamp (emuSample 61 32 5 2000) = ucast (prevHostTimestamp ?l)
              \<and> Timestamp (emuSample 61 32 5 2000) = 1)
            \<or> (61 \<le> TraceID (emuSample 61 32 5 2000) \<and> TraceID (emuSample 61 32 5 2000) < 64)
            \<or> 94 < TraceID (emuSample 61 32 5 2000)))
      \<or> (\<not> isHwEmu emu_env
        \<and> ((0::nat) = 0 \<or> TraceID (emuSample 61 32 5 2000) < 2
            \<or> (61 < TraceID (emuSample 61 32 5 2000) \<and> TraceID (emuSample 61 32 5 2000) < 64)
            \<or> 544 < TraceID (emuSample 61 32 5 2000)))"
    by (simp add: emu_env_def emuSample_def)
  from t6 [OF this] obtain loc'' st'' where
    s6: "parseSample example_config exact_ops emu_env XCL_PERF_MON_MEMORY 0 (emuSample 61 32 5 2000) ?a
        = Inr (loc'', st'', [])" "sameSlots constructed st''" by blast
  have e6: "map_sum id (\<lambda>(loc', st', res'). (map Type res', mReadStarts st' 30))
        (parseSample example_config exact_ops emu_env XCL_PERF_MON_MEMORY 0 (emuSample 61 32 5 2000) ?a)
        = Inr ([], [])"
    using s6 by (simp add: sameSlots_def constructed_def)
  show ?thesis using emu hw e1 e2 e3 e4 e5 e6 by blast
qed

end
